(* ===== verification/Prelude.thy ===== *)
theory Prelude
  imports Main "HOL-Library.AList" "HOL-Library.Word" "HOL-Library.Char_ord"
    "HOL-Library.List_Lexorder" "HOL-Library.Product_Lexorder"
begin

text \<open>
  Shared vocabulary of the development: the pieces of Rust's standard library that the boot
  server, the initramfs and the node agent use on strings, integers and hash maps, with the
  lemmas the components share, and the locales that state an interface once.

  Strings are lists of bytes (\<open>string\<close>). Rust's character methods agree with the definitions
  here on ASCII text, which is what every format of this repository is made of; whitespace is
  the ASCII whitespace of \<open>char::is_whitespace\<close>. A \<open>HashMap\<close> is an association list with
  distinct keys: its order stands for the iteration order, which Rust leaves open, so a
  statement for every list is a statement for every iteration order.
\<close>

named_theorems str_simps "computation rules of the string library"
named_theorems wf_intros "preservation of well-formedness invariants"

type_synonym u8 = "8 word"
type_synonym u16 = "16 word"
type_synonym u32 = "32 word"
type_synonym u64 = "64 word"

section \<open>Characters\<close>

abbreviation LF :: char where "LF \<equiv> CHR 0x0A"
abbreviation CR :: char where "CR \<equiv> CHR 0x0D"
abbreviation TAB :: char where "TAB \<equiv> CHR 0x09"
abbreviation DQUOTE :: char where "DQUOTE \<equiv> CHR 0x22"
abbreviation BSLASH :: char where "BSLASH \<equiv> CHR 0x5C"

abbreviation code_of :: "char \<Rightarrow> nat" where "code_of c \<equiv> of_char c"

definition is_ws :: "char \<Rightarrow> bool" where
  "is_ws c \<longleftrightarrow> (9 \<le> code_of c \<and> code_of c \<le> 13) \<or> code_of c = 32"

definition is_digit :: "char \<Rightarrow> bool" where
  "is_digit c \<longleftrightarrow> 48 \<le> code_of c \<and> code_of c \<le> 57"

definition is_hexdigit :: "char \<Rightarrow> bool" where
  "is_hexdigit c \<longleftrightarrow> is_digit c \<or> (65 \<le> code_of c \<and> code_of c \<le> 70) \<or> (97 \<le> code_of c \<and> code_of c \<le> 102)"

definition lower :: "char \<Rightarrow> char" where
  "lower c = (if 65 \<le> code_of c \<and> code_of c \<le> 90 then char_of (code_of c + 32) else c)"

definition lowercase :: "string \<Rightarrow> string" where
  "lowercase s = map lower s"

lemma code_of_char_of [simp]: "n < 256 \<Longrightarrow> code_of (char_of n) = (n :: nat)"
  by (simp add: of_char_of)

lemma code_of_inject: "(c = d) = (code_of c = code_of d)"
  by (metis char_of_char)

lemma code_of_lower: "code_of (lower c) =
    (if 65 \<le> code_of c \<and> code_of c \<le> 90 then code_of c + 32 else code_of c)"
  by (simp add: lower_def)

lemma lower_lower [simp]: "lower (lower c) = lower c"
  by (simp add: code_of_inject code_of_lower)

lemma lowercase_idem [simp]: "lowercase (lowercase s) = lowercase s"
  by (simp add: lowercase_def)

lemma lowercase_simps [simp]:
  "lowercase [] = []" "lowercase (c # s) = lower c # lowercase s"
  "lowercase (s @ t) = lowercase s @ lowercase t" "length (lowercase s) = length s"
  by (simp_all add: lowercase_def)

lemma is_ws_lower [simp]: "is_ws (lower c) = is_ws c"
  by (auto simp: is_ws_def code_of_lower)

lemma digit_not_ws [simp]: "is_digit c \<Longrightarrow> \<not> is_ws c"
  by (auto simp: is_ws_def is_digit_def)

section \<open>Splitting, trimming and joining\<close>

definition starts_with :: "string \<Rightarrow> string \<Rightarrow> bool" where
  "starts_with p s \<longleftrightarrow> take (length p) s = p"

definition strip_prefix :: "string \<Rightarrow> string \<Rightarrow> string option" where
  "strip_prefix p s = (if starts_with p s then Some (drop (length p) s) else None)"

definition trim_start :: "string \<Rightarrow> string" where
  "trim_start s = dropWhile is_ws s"

definition trim_end_matches :: "(char \<Rightarrow> bool) \<Rightarrow> string \<Rightarrow> string" where
  "trim_end_matches p s = rev (dropWhile p (rev s))"

definition trim :: "string \<Rightarrow> string" where
  "trim s = trim_end_matches is_ws (trim_start s)"

definition replace_char :: "char \<Rightarrow> char \<Rightarrow> string \<Rightarrow> string" where
  "replace_char a b s = map (\<lambda>c. if c = a then b else c) s"

text \<open>\<open>str::split\<close> on a character predicate: always at least one piece.\<close>

fun split_by :: "(char \<Rightarrow> bool) \<Rightarrow> string \<Rightarrow> string list" where
  "split_by p [] = [[]]"
| "split_by p (c # cs) =
     (if p c then [] # split_by p cs
      else (case split_by p cs of [] \<Rightarrow> [[c]] | t # ts \<Rightarrow> (c # t) # ts))"

definition split_whitespace :: "string \<Rightarrow> string list" where
  "split_whitespace s = filter (\<lambda>t. t \<noteq> []) (split_by is_ws s)"

fun split_once :: "char \<Rightarrow> string \<Rightarrow> (string \<times> string) option" where
  "split_once c [] = None"
| "split_once c (x # xs) =
     (if x = c then Some ([], xs)
      else map_option (\<lambda>(a, b). (x # a, b)) (split_once c xs))"

text \<open>\<open>str::split_once\<close> and \<open>str::split\<close> on a substring.\<close>

fun split_once_str :: "string \<Rightarrow> string \<Rightarrow> (string \<times> string) option" where
  "split_once_str pat [] = (if pat = [] then Some ([], []) else None)"
| "split_once_str pat (x # xs) =
     (if starts_with pat (x # xs) then Some ([], drop (length pat) (x # xs))
      else map_option (\<lambda>(a, b). (x # a, b)) (split_once_str pat xs))"

lemma split_once_str_shorter:
  "pat \<noteq> [] \<Longrightarrow> split_once_str pat s = Some (a, b) \<Longrightarrow> length b < length s"
  by (induction pat s arbitrary: a b rule: split_once_str.induct)
    (auto split: if_splits intro: less_SucI)

function split_str :: "string \<Rightarrow> string \<Rightarrow> string list" where
  "split_str pat s =
     (if pat = [] then [s]
      else (case split_once_str pat s of None \<Rightarrow> [s] | Some (a, b) \<Rightarrow> a # split_str pat b))"
  by pat_completeness auto
termination
  by (relation "measure (\<lambda>(pat, s). length s)") (auto simp: split_once_str_shorter)

declare split_str.simps [simp del]

text \<open>\<open>str::lines\<close>: pieces ended by a line feed, a carriage return before it dropped.\<close>

definition strip_cr :: "string \<Rightarrow> string" where
  "strip_cr s = (if s \<noteq> [] \<and> last s = CR then butlast s else s)"

definition lines :: "string \<Rightarrow> string list" where
  "lines s = (let ps = split_by (\<lambda>c. c = LF) s
              in map strip_cr (butlast ps) @ (if last ps = [] then [] else [last ps]))"

fun join :: "string \<Rightarrow> string list \<Rightarrow> string" where
  "join sep [] = []"
| "join sep [x] = x"
| "join sep (x # y # xs) = x @ sep @ join sep (y # xs)"

lemma split_by_ne [simp]: "split_by p s \<noteq> []"
  by (induction s) (auto split: list.splits)

lemma split_by_none: "\<forall>c \<in> set t. \<not> p c \<Longrightarrow> split_by p t = [t]"
  by (induction t) auto

lemma split_by_append: "\<forall>c \<in> set t. \<not> p c \<Longrightarrow> p c \<Longrightarrow> split_by p (t @ c # s) = t # split_by p s"
  by (induction t) auto

lemma split_by_pieces: "t \<in> set (split_by p s) \<Longrightarrow> c \<in> set t \<Longrightarrow> \<not> p c \<and> c \<in> set s"
proof (induction s arbitrary: t)
  case (Cons a s)
  obtain u us where u: "split_by p s = u # us" by (cases "split_by p s") auto
  from Cons.prems u have "c = a \<and> \<not> p a \<or> (\<exists>t' \<in> set (split_by p s). c \<in> set t')"
    by (auto split: if_splits)
  then show ?case using Cons.IH by auto
qed simp

lemma split_once_append [str_simps]: "c \<notin> set k \<Longrightarrow> split_once c (k @ c # v) = Some (k, v)"
  by (induction k) auto

lemma split_once_notin [str_simps]: "c \<notin> set s \<Longrightarrow> split_once c s = None"
  by (induction s) auto

lemma split_once_Some: "split_once c s = Some (a, b) \<Longrightarrow> s = a @ c # b \<and> c \<notin> set a"
  by (induction s arbitrary: a) (auto split: if_splits)

lemma strip_prefix_append [simp, str_simps]: "strip_prefix p (p @ s) = Some s"
  by (simp add: strip_prefix_def starts_with_def)

lemma strip_prefix_Some: "strip_prefix p s = Some t \<Longrightarrow> s = p @ t"
  by (auto simp: strip_prefix_def starts_with_def split: if_splits)
    (metis append_take_drop_id)

lemma starts_with_append [simp]: "starts_with p (p @ s)"
  by (simp add: starts_with_def)

definition plain_token :: "string \<Rightarrow> bool" where
  "plain_token t \<longleftrightarrow> t \<noteq> [] \<and> (\<forall>c \<in> set t. \<not> is_ws c)"

lemma is_ws_space [simp]: "is_ws (CHR '' '')"
  by (simp add: is_ws_def)

lemma split_whitespace_token: "plain_token t \<Longrightarrow> split_whitespace t = [t]"
  by (simp add: split_whitespace_def plain_token_def split_by_none)

lemma split_whitespace_cons:
  "plain_token t \<Longrightarrow> split_whitespace (t @ CHR '' '' # s) = t # split_whitespace s"
  by (simp add: split_whitespace_def plain_token_def split_by_append)

lemma split_whitespace_join:
  "\<forall>t \<in> set ts. plain_token t \<Longrightarrow> split_whitespace (join '' '' ts) = ts"
proof (induction "'' ''" ts rule: join.induct)
  case 1
  then show ?case by (simp add: split_whitespace_def)
next
  case (2 x)
  then show ?case by (simp add: split_whitespace_token)
next
  case (3 x y xs)
  then show ?case using split_whitespace_cons [of x "join '' '' (y # xs)"] by simp
qed

lemma split_by_snoc:
  "split_by p (s @ c # t) = (if p c then split_by p s @ split_by p t
     else butlast (split_by p s) @ (last (split_by p s) @ c # hd (split_by p t)) # tl (split_by p t))"
  by (induction s) (auto split: list.splits)

text \<open>Splitting on whitespace distributes over a space between two texts.\<close>

lemma split_whitespace_append:
  "split_whitespace (s @ CHR '' '' # t) = split_whitespace s @ split_whitespace t"
  by (simp add: split_whitespace_def split_by_snoc)

lemma split_whitespace_Nil [simp]: "split_whitespace [] = []"
  by (simp add: split_whitespace_def)

text \<open>A joined list of texts, empty ones included, splits into the pieces of each.\<close>

lemma split_whitespace_join_gen:
  "split_whitespace (join '' '' ts) = concat (map split_whitespace ts)"
  by (induction "'' ''" ts rule: join.induct) (simp_all add: split_whitespace_append)

lemma trim_end_matches_id: "s = [] \<or> \<not> p (last s) \<Longrightarrow> trim_end_matches p s = s"
  by (cases s rule: rev_cases) (auto simp: trim_end_matches_def)

lemma trim_id: "s = [] \<or> (\<not> is_ws (hd s) \<and> \<not> is_ws (last s)) \<Longrightarrow> trim s = s"
  by (cases s) (auto simp: trim_def trim_start_def trim_end_matches_id)

lemma trim_end_matches_last: "trim_end_matches p s \<noteq> [] \<Longrightarrow> \<not> p (last (trim_end_matches p s))"
  using hd_dropWhile [of p "rev s"] by (simp add: trim_end_matches_def last_rev del: dropWhile_eq_Nil_conv)

lemma trim_end_matches_prefix: "\<exists>t. s = trim_end_matches p s @ t \<and> (\<forall>c \<in> set t. p c)"
proof -
  have "rev s = takeWhile p (rev s) @ dropWhile p (rev s)" by simp
  then have "s = rev (dropWhile p (rev s)) @ rev (takeWhile p (rev s))"
    by (metis rev_append rev_rev_ident)
  then show ?thesis
    unfolding trim_end_matches_def by (metis set_rev set_takeWhileD)
qed

lemma hd_trim: "trim s \<noteq> [] \<Longrightarrow> \<not> is_ws (hd (trim s))"
proof -
  assume ne: "trim s \<noteq> []"
  obtain t where "trim_start s = trim s @ t"
    using trim_end_matches_prefix [of "trim_start s" is_ws] by (auto simp: trim_def)
  with ne have "hd (trim s) = hd (trim_start s)" and "trim_start s \<noteq> []" by auto
  then show ?thesis by (simp add: trim_start_def hd_dropWhile)
qed

lemma last_trim: "trim s \<noteq> [] \<Longrightarrow> \<not> is_ws (last (trim s))"
  by (simp add: trim_def trim_end_matches_last)

lemma trim_idem [simp]: "trim (trim s) = trim s"
  by (rule trim_id) (auto dest: hd_trim last_trim)

lemma set_trim: "set (trim s) \<subseteq> set s"
  by (auto simp: trim_def trim_end_matches_def trim_start_def dest!: set_dropWhileD)

section \<open>Searching\<close>

text \<open>\<open>Iterator::find_map\<close> and \<open>Iterator::nth\<close>.\<close>

fun first_some :: "('a \<Rightarrow> 'b option) \<Rightarrow> 'a list \<Rightarrow> 'b option" where
  "first_some f [] = None"
| "first_some f (x # xs) = (case f x of Some y \<Rightarrow> Some y | None \<Rightarrow> first_some f xs)"

lemma first_some_Some: "first_some f xs = Some y \<Longrightarrow> \<exists>x \<in> set xs. f x = Some y"
  by (induction xs) (auto split: option.splits)

definition nth_opt :: "nat \<Rightarrow> 'a list \<Rightarrow> 'a option" where
  "nth_opt n xs = (if n < length xs then Some (xs ! n) else None)"

section \<open>Decimal integers\<close>

fun show_nat :: "nat \<Rightarrow> string" where
  "show_nat n = (if n < 10 then [char_of (48 + n)] else show_nat (n div 10) @ [char_of (48 + n mod 10)])"

declare show_nat.simps [simp del]

lemma show_nat_code [code]:
  "show_nat n = (if n < 10 then [char_of (48 + n)] else show_nat (n div 10) @ [char_of (48 + n mod 10)])"
  by (rule show_nat.simps)

fun dec_value :: "nat \<Rightarrow> string \<Rightarrow> nat option" where
  "dec_value acc [] = Some acc"
| "dec_value acc (c # cs) =
     (if is_digit c then dec_value (10 * acc + (code_of c - 48)) cs else None)"

text \<open>\<open>str::parse\<close> of an unsigned integer of \<open>w\<close> bits: an optional plus sign, digits, in range.\<close>

definition parse_uint :: "nat \<Rightarrow> string \<Rightarrow> nat option" where
  "parse_uint w s =
     (let ds = (case s of c # cs \<Rightarrow> if c = CHR ''+'' then cs else s | [] \<Rightarrow> [])
      in if ds = [] then None
         else (case dec_value 0 ds of None \<Rightarrow> None | Some n \<Rightarrow> if n < 2 ^ w then Some n else None))"

definition show_word :: "'a::len word \<Rightarrow> string" where
  "show_word x = show_nat (unat x)"

definition parse_word :: "string \<Rightarrow> 'a::len word option" where
  "parse_word s = map_option of_nat (parse_uint LENGTH('a) s)"

lemma show_nat_digits: "c \<in> set (show_nat n) \<Longrightarrow> is_digit c"
proof (induction n arbitrary: c rule: show_nat.induct)
  case (1 n)
  then show ?case
    by (subst (asm) (2) show_nat.simps) (auto simp: is_digit_def split: if_splits)
qed

lemma show_nat_ne [simp]: "show_nat n \<noteq> []"
  by (subst show_nat.simps) simp

lemma dec_value_append:
  "dec_value acc (s @ t) = (case dec_value acc s of None \<Rightarrow> None | Some n \<Rightarrow> dec_value n t)"
  by (induction acc s rule: dec_value.induct) auto

lemma dec_value_show_nat: "dec_value 0 (show_nat n) = Some n"
proof (induction n rule: show_nat.induct)
  case (1 n)
  then show ?case
    by (subst show_nat.simps) (auto simp: is_digit_def dec_value_append)
qed

lemma parse_uint_show_nat: "n < 2 ^ w \<Longrightarrow> parse_uint w (show_nat n) = Some n"
proof -
  assume n: "n < 2 ^ w"
  obtain c cs where s: "show_nat n = c # cs" by (cases "show_nat n") auto
  then have "is_digit c" using show_nat_digits [of c n] by simp
  then have "c \<noteq> CHR ''+''" by (auto simp: is_digit_def)
  with s n show ?thesis using dec_value_show_nat [of n] by (simp add: parse_uint_def)
qed

lemma show_word_token: "plain_token (show_word x)"
  using show_nat_digits by (fastforce simp: plain_token_def show_word_def)

end
