(* ===== verification/Interfaces.thy ===== *)
theory Interfaces
  imports Prelude
begin

text \<open>
  The interfaces the components share, each a locale with the lemmas its clients need, proved
  once: a keyed store (every \<open>HashMap\<close> of the server), a codec (a text form that reads back),
  an invariant system (a handler applied to a sequence of requests). The hash map itself, an
  association list with distinct keys, is the first provider of the keyed store.
\<close>

section \<open>Keyed stores\<close>

locale key_store =
  fixes empty :: "'m"
    and get :: "'m \<Rightarrow> 'k \<Rightarrow> 'v option"
    and put :: "'k \<Rightarrow> 'v \<Rightarrow> 'm \<Rightarrow> 'm"
    and del :: "'k \<Rightarrow> 'm \<Rightarrow> 'm"
    and wf :: "'m \<Rightarrow> bool"
  assumes get_empty: "get empty = Map.empty"
    and get_put: "wf m \<Longrightarrow> get (put k v m) = (get m)(k \<mapsto> v)"
    and get_del: "wf m \<Longrightarrow> get (del k m) = (get m)(k := None)"
    and wf_empty: "wf empty"
    and wf_put: "wf m \<Longrightarrow> wf (put k v m)"
    and wf_del: "wf m \<Longrightarrow> wf (del k m)"
begin

lemma wf_puts: "wf m \<Longrightarrow> wf (foldl (\<lambda>m (k, v). put k v m) m kvs)"
  by (induction kvs arbitrary: m) (auto simp: wf_put)

text \<open>Collecting pairs into a store: the last pair of a key wins.\<close>

lemma get_puts: "wf m \<Longrightarrow> get (foldl (\<lambda>m (k, v). put k v m) m kvs) = get m ++ map_of (rev kvs)"
proof (induction kvs arbitrary: m)
  case (Cons kv kvs)
  obtain k v where kv: "kv = (k, v)" by (cases kv)
  with Cons have "get (foldl (\<lambda>m (k, v). put k v m) m (kv # kvs)) = get (put k v m) ++ map_of (rev kvs)"
    by (simp add: wf_put)
  also have "get (put k v m) = (get m)(k \<mapsto> v)" using Cons.prems by (rule get_put)
  also have "(get m)(k \<mapsto> v) ++ map_of (rev kvs) = get m ++ map_of (rev (kv # kvs))"
    by (auto simp: kv map_add_def fun_eq_iff split: option.splits)
  finally show ?case .
qed simp

lemma get_collect: "get (foldl (\<lambda>m (k, v). put k v m) empty kvs) = map_of (rev kvs)"
  by (simp add: get_puts wf_empty get_empty)

lemma del_put_same: "wf m \<Longrightarrow> get (del k (put k v m)) = get (del k m)"
  by (simp add: get_del get_put wf_put)

end

definition hm_wf :: "('k \<times> 'v) list \<Rightarrow> bool" where
  "hm_wf m \<longleftrightarrow> distinct (map fst m)"

definition hm_collect :: "('k \<times> 'v) list \<Rightarrow> ('k \<times> 'v) list" where
  "hm_collect kvs = foldl (\<lambda>m (k, v). AList.update k v m) [] kvs"

interpretation hm: key_store "[]" map_of AList.update AList.delete hm_wf
  by unfold_locales
    (auto simp: hm_wf_def update_conv' delete_conv' intro: distinct_update distinct_delete)

lemma hm_wf_collect [wf_intros]: "hm_wf (hm_collect kvs)"
  unfolding hm_collect_def by (rule hm.wf_puts [OF hm.wf_empty])

lemma map_of_collect: "map_of (hm_collect kvs) = map_of (rev kvs)"
  unfolding hm_collect_def by (rule hm.get_collect)

lemma hm_wf_filter [wf_intros]: "hm_wf m \<Longrightarrow> hm_wf (filter P m)"
  by (auto simp: hm_wf_def distinct_map_filter)

lemma hm_get_in: "hm_wf m \<Longrightarrow> map_of m k = Some v \<longleftrightarrow> (k, v) \<in> set m"
  by (simp add: hm_wf_def)

lemma length_update: "length (AList.update k v m) =
    (if map_of m k = None then Suc (length m) else length m)"
  by (induction m) (auto simp: map_of_eq_None_iff split: if_splits)

lemma length_delete: "hm_wf m \<Longrightarrow> map_of m k = Some v \<Longrightarrow> Suc (length (AList.delete k m)) = length m"
proof (induction m)
  case (Cons kv m)
  show ?case
  proof (cases "fst kv = k")
    case True
    with Cons.prems(1) have "AList.delete k m = m"
      by (intro delete_id) (auto simp: hm_wf_def)
    with True show ?thesis by (simp add: delete_simps)
  next
    case False
    with Cons.prems have "hm_wf m" "map_of m k = Some v"
      by (auto simp: hm_wf_def split: if_splits)
    with False Cons.IH show ?thesis by (cases kv) (simp add: delete_simps)
  qed
qed simp

lemma set_update_wf: "hm_wf m \<Longrightarrow> set (AList.update k v m) = insert (k, v) {kv \<in> set m. fst kv \<noteq> k}"
proof (induction m)
  case (Cons kv m)
  then show ?case by (cases kv) (force simp: hm_wf_def)
qed simp

lemma set_delete: "set (AList.delete k m) = {kv \<in> set m. fst kv \<noteq> k}"
  by (induction m) (auto simp: delete_simps)

lemma map_of_filter_wf: "hm_wf m \<Longrightarrow> map_of (filter (\<lambda>(k, v). P k v) m) k =
    (case map_of m k of None \<Rightarrow> None | Some v \<Rightarrow> if P k v then Some v else None)"
  by (induction m) (auto simp: hm_wf_def map_of_eq_None_iff split: option.splits)

section \<open>Codecs\<close>

locale codec =
  fixes enc :: "'a \<Rightarrow> 'b" and dec :: "'b \<Rightarrow> 'a option" and ok :: "'a \<Rightarrow> bool"
  assumes dec_enc: "ok x \<Longrightarrow> dec (enc x) = Some x"
begin

lemma enc_inject: "ok x \<Longrightarrow> ok y \<Longrightarrow> enc x = enc y \<longleftrightarrow> x = y"
  by (metis dec_enc option.inject)

lemma dec_map: "list_all ok xs \<Longrightarrow> map (dec \<circ> enc) xs = map Some xs"
  by (induction xs) (auto simp: dec_enc)

end

text \<open>Decimal numerals, as \<open>Display\<close> prints and \<open>FromStr\<close> reads them, at every width.\<close>

lemma parse_word_show_word [simp]: "parse_word (show_word x) = Some (x :: 'a::len word)"
  by (simp add: parse_word_def show_word_def parse_uint_show_nat)

interpretation decimal: codec show_word "parse_word :: string \<Rightarrow> 'a::len word option" "\<lambda>_. True"
  by unfold_locales simp

section \<open>Invariant systems\<close>

locale invariant_system =
  fixes step :: "'s \<Rightarrow> 'e \<Rightarrow> 's" and inv :: "'s \<Rightarrow> bool"
  assumes inv_step: "inv s \<Longrightarrow> inv (step s e)"
begin

lemma inv_run: "inv s \<Longrightarrow> inv (foldl step s es)"
  by (induction es arbitrary: s) (auto simp: inv_step)

end

text \<open>The same when the invariant rests on what a step is given: a side condition on its label.\<close>

locale guarded_system =
  fixes step :: "'s \<Rightarrow> 'e \<Rightarrow> 's" and inv :: "'s \<Rightarrow> bool" and tame :: "'e \<Rightarrow> bool"
  assumes tame_step: "inv s \<Longrightarrow> tame e \<Longrightarrow> inv (step s e)"
begin

lemma tame_run: "inv s \<Longrightarrow> list_all tame es \<Longrightarrow> inv (foldl step s es)"
  by (induction es arbitrary: s) (auto simp: tame_step)

end

sublocale invariant_system \<subseteq> guarded_system step inv "\<lambda>_. True"
  by unfold_locales (rule inv_step)

text \<open>A quantity that no step moves backwards is monotone along every run.\<close>

locale forward_system =
  fixes step :: "'s \<Rightarrow> 'e \<Rightarrow> 's" and rank :: "'s \<Rightarrow> 'r::order"
  assumes rank_step: "rank s \<le> rank (step s e)"
begin

lemma rank_run: "rank s \<le> rank (foldl step s es)"
proof (induction es arbitrary: s)
  case (Cons e es)
  have "rank s \<le> rank (step s e)" by (rule rank_step)
  also have "\<dots> \<le> rank (foldl step (step s e) es)" by (rule Cons.IH)
  finally show ?case by simp
qed simp

end

end
