(* ===== verification/Mac_Address.thy ===== *)
theory Mac_Address
  imports Interfaces
begin

text \<open>
  MAC addresses (\<open>crates/stormnetboot-server/src/mac.rs\<close>): the six octets that identify a host
  everywhere in the server, the parser that accepts every spelling and the canonical printer.
  The order is the derived one, octet by octet. The lemmas show what the parser accepts, which
  error it gives otherwise, and that printing and parsing are inverse.
\<close>

unbundle bit_operations_syntax

datatype mac = Mac u8 u8 u8 u8 u8 u8

fun octets :: "mac \<Rightarrow> u8 list" where
  "octets (Mac a b c d e g) = [a, b, c, d, e, g]"

datatype mac_parse_error = WrongLength nat | NotHex char

text \<open>The characters the parser skips, and \<open>char::to_digit(16)\<close>.\<close>

definition is_separator :: "char \<Rightarrow> bool" where
  "is_separator ch \<longleftrightarrow> ch \<in> {CHR '':'', CHR ''-'', CHR ''.'', CHR ''_'', CHR '' ''}"

definition to_digit16 :: "char \<Rightarrow> u8 option" where
  "to_digit16 ch =
     (if is_digit ch then Some (of_nat (code_of ch - 48))
      else if 97 \<le> code_of ch \<and> code_of ch \<le> 102 then Some (of_nat (code_of ch - 87))
      else if 65 \<le> code_of ch \<and> code_of ch \<le> 70 then Some (of_nat (code_of ch - 55))
      else None)"

text \<open>The scanning loop: \<open>nibbles\<close> is the fixed array of twelve, \<open>seen\<close> counts every digit.\<close>

fun mac_scan :: "string \<Rightarrow> u8 list \<Rightarrow> nat \<Rightarrow> mac_parse_error + (u8 list \<times> nat)" where
  "mac_scan [] nibbles seen = Inr (nibbles, seen)"
| "mac_scan (ch # rest) nibbles seen =
     (if is_separator ch then mac_scan rest nibbles seen
      else (case to_digit16 ch of
              None \<Rightarrow> Inl (NotHex ch)
            | Some digit \<Rightarrow>
                mac_scan rest (if seen < length nibbles then nibbles[seen := digit] else nibbles)
                  (Suc seen)))"

definition octet_of :: "u8 list \<Rightarrow> nat \<Rightarrow> u8" where
  "octet_of nibbles i = push_bit 4 (nibbles ! (i * 2)) OR nibbles ! (i * 2 + 1)"

definition mac_parse :: "string \<Rightarrow> mac_parse_error + mac" where
  "mac_parse input =
     (case mac_scan input (replicate 12 0) 0 of
        Inl e \<Rightarrow> Inl e
      | Inr (nibbles, seen) \<Rightarrow>
          if seen \<noteq> 12 then Inl (WrongLength seen)
          else Inr (Mac (octet_of nibbles 0) (octet_of nibbles 1) (octet_of nibbles 2)
                        (octet_of nibbles 3) (octet_of nibbles 4) (octet_of nibbles 5)))"

text \<open>\<open>Display\<close>: two lowercase hex digits per octet, separated by colons.\<close>

definition hex_char :: "nat \<Rightarrow> char" where
  "hex_char n = (if n < 10 then char_of (48 + n) else char_of (87 + n))"

definition hex2 :: "u8 \<Rightarrow> string" where
  "hex2 b = [hex_char (unat (drop_bit 4 b)), hex_char (unat (take_bit 4 b))]"

definition mac_display :: "mac \<Rightarrow> string" where
  "mac_display m = join '':'' (map hex2 (octets m))"

text \<open>\<open>Display\<close> of the parse error; \<open>{c:?}\<close> is the quoted, escaped form of a character.\<close>

definition debug_char :: "char \<Rightarrow> string" where
  "debug_char c =
     (if c = LF then [CHR 0x27, BSLASH, CHR ''n'', CHR 0x27]
      else if c = CR then [CHR 0x27, BSLASH, CHR ''r'', CHR 0x27]
      else if c = TAB then [CHR 0x27, BSLASH, CHR ''t'', CHR 0x27]
      else if c = CHR 0x00 then [CHR 0x27, BSLASH, CHR ''0'', CHR 0x27]
      else if c = CHR 0x27 \<or> c = BSLASH then [CHR 0x27, BSLASH, c, CHR 0x27]
      else if code_of c < 32 \<or> code_of c = 127
        then [CHR 0x27, BSLASH] @ ''u{''
          @ (if code_of c < 16 then [hex_char (code_of c)]
             else [hex_char (code_of c div 16), hex_char (code_of c mod 16)]) @ ''}'' @ [CHR 0x27]
      else [CHR 0x27, c, CHR 0x27])"

fun mac_error_display :: "mac_parse_error \<Rightarrow> string" where
  "mac_error_display (WrongLength n) = ''expected 12 hex digits, found '' @ show_nat n"
| "mac_error_display (NotHex c) = ''invalid character '' @ debug_char c @ '' in MAC''"

text \<open>In JSON an address is its canonical text; any spelling is read, and what is refused carries the text
  of the error.\<close>

definition mac_serialize :: "mac \<Rightarrow> string" where
  "mac_serialize m = mac_display m"

definition mac_deserialize :: "string \<Rightarrow> string + mac" where
  "mac_deserialize raw = (case mac_parse raw of Inl e \<Rightarrow> Inl (mac_error_display e) | Inr m \<Rightarrow> Inr m)"

section \<open>The order of addresses\<close>

lemma octets_inject: "octets m = octets m' \<longleftrightarrow> m = m'"
  by (cases m; cases m') auto

instantiation mac :: linorder
begin

definition less_eq_mac :: "mac \<Rightarrow> mac \<Rightarrow> bool" where
  "less_eq_mac a b \<longleftrightarrow> octets a \<le> octets b"

definition less_mac :: "mac \<Rightarrow> mac \<Rightarrow> bool" where
  "less_mac a b \<longleftrightarrow> octets a < octets b"

instance
  by standard (auto simp: less_eq_mac_def less_mac_def octets_inject intro: order_le_neq_trans)

end

section \<open>What the parser computes\<close>

definition hex_part :: "string \<Rightarrow> string" where
  "hex_part s = filter (\<lambda>c. \<not> is_separator c) s"

definition mac_hex :: "mac \<Rightarrow> string" where
  "mac_hex m = concat (map hex2 (octets m))"

lemma hex_part_simps [simp]:
  "hex_part [] = []"
  "hex_part (c # s) = (if is_separator c then hex_part s else c # hex_part s)"
  "hex_part (s @ t) = hex_part s @ hex_part t"
  by (simp_all add: hex_part_def)

lemma mac_scan_bad:
  "find (\<lambda>c. \<not> is_separator c \<and> to_digit16 c = None) s = Some c \<Longrightarrow> mac_scan s nibbles seen = Inl (NotHex c)"
  by (induction s nibbles seen rule: mac_scan.induct) (auto split: if_splits option.splits)

lemma mac_scan_seen:
  "find (\<lambda>c. \<not> is_separator c \<and> to_digit16 c = None) s = None \<Longrightarrow>
   \<exists>ns. mac_scan s nibbles seen = Inr (ns, seen + length (hex_part s))"
  by (induction s nibbles seen rule: mac_scan.induct) (auto split: if_splits option.splits)

lemma mac_scan_full:
  "find (\<lambda>c. \<not> is_separator c \<and> to_digit16 c = None) s = None \<Longrightarrow>
   seen + length (hex_part s) = length nibbles \<Longrightarrow>
   mac_scan s nibbles seen =
     Inr (take seen nibbles @ map (the \<circ> to_digit16) (hex_part s), length nibbles)"
proof (induction s nibbles seen rule: mac_scan.induct)
  case (2 ch rest nibbles seen)
  show ?case
  proof (cases "is_separator ch")
    case True
    with 2 show ?thesis by simp
  next
    case False
    with "2.prems" obtain d where d: "to_digit16 ch = Some d" by (auto split: if_splits)
    from False "2.prems" d have "seen < length nibbles" by simp
    moreover from this have "take (Suc seen) (nibbles[seen := d]) = take seen nibbles @ [d]"
      by (simp add: take_Suc_conv_app_nth)
    ultimately show ?thesis using False d "2.IH"(2) [OF False d] "2.prems" by simp
  qed
qed simp

definition mac_of_nibbles :: "u8 list \<Rightarrow> mac" where
  "mac_of_nibbles ns = Mac (octet_of ns 0) (octet_of ns 1) (octet_of ns 2)
                           (octet_of ns 3) (octet_of ns 4) (octet_of ns 5)"

text \<open>The parser without its loop: the first foreign character, else the count, else the octets.\<close>

lemma mac_parse_eq:
  "mac_parse s =
     (case find (\<lambda>c. \<not> is_separator c \<and> to_digit16 c = None) s of
        Some c \<Rightarrow> Inl (NotHex c)
      | None \<Rightarrow> if length (hex_part s) \<noteq> 12 then Inl (WrongLength (length (hex_part s)))
                else Inr (mac_of_nibbles (map (the \<circ> to_digit16) (hex_part s))))"
proof (cases "find (\<lambda>c. \<not> is_separator c \<and> to_digit16 c = None) s")
  case None
  show ?thesis
  proof (cases "length (hex_part s) = 12")
    case True
    then have "mac_scan s (replicate 12 0) 0 = Inr (map (the \<circ> to_digit16) (hex_part s), 12)"
      using mac_scan_full [OF None, of 0 "replicate 12 0"] by simp
    with None True show ?thesis by (simp add: mac_parse_def mac_of_nibbles_def)
  next
    case False
    obtain ns where "mac_scan s (replicate 12 0) 0 = Inr (ns, length (hex_part s))"
      using mac_scan_seen [OF None, of "replicate 12 0" 0] by auto
    with None False show ?thesis by (simp add: mac_parse_def)
  qed
next
  case (Some c)
  then show ?thesis by (simp add: mac_parse_def mac_scan_bad)
qed

lemma to_digit16_lower: "to_digit16 (lower c) = to_digit16 c"
  by (auto simp: to_digit16_def code_of_lower is_digit_def)

lemma to_digit16_hex_char: "n < 16 \<Longrightarrow> to_digit16 (hex_char n) = Some (of_nat n)"
  by (auto simp: to_digit16_def hex_char_def is_digit_def)

lemma unat_small: "n < 256 \<Longrightarrow> unat (of_nat n :: u8) = n"
  by (simp add: unsigned_of_nat take_bit_nat_eq_self)

lemma hex_char_of_digit:
  assumes "to_digit16 c = Some d"
  shows "hex_char (unat d) = lower c \<and> unat d < 16"
proof -
  let ?k = "code_of c"
  from assms consider "48 \<le> ?k" "?k \<le> 57" "d = of_nat (?k - 48)"
    | "97 \<le> ?k" "?k \<le> 102" "d = of_nat (?k - 87)" | "65 \<le> ?k" "?k \<le> 70" "d = of_nat (?k - 55)"
    by (auto simp: to_digit16_def is_digit_def split: if_splits)
  then show ?thesis
    by cases (auto simp: unat_small hex_char_def code_of_inject code_of_lower
        simp del: of_char_eq_iff of_nat_diff)
qed

lemma separator_codes: "is_separator c \<longleftrightarrow> code_of c \<in> {58, 45, 46, 95, 32}"
  by (auto simp: is_separator_def code_of_inject)

lemma hex_char_not_separator: "n < 16 \<Longrightarrow> \<not> is_separator (hex_char n)"
  by (auto simp: separator_codes hex_char_def)

lemma nibbles_rejoin: "push_bit 4 (drop_bit 4 b) OR take_bit 4 b = (b :: u8)"
  by (rule bit_word_eqI) (auto simp: bit_or_iff bit_push_bit_iff bit_drop_bit_eq bit_take_bit_iff)

lemma unat_nibble [simp]:
  "unat (take_bit 4 (b :: u8)) = unat b mod 16" "unat (drop_bit 4 (b :: u8)) = unat b div 16"
  by (simp_all only: unsigned_take_bit_eq unat_drop_bit_eq) (simp_all add: take_bit_eq_mod drop_bit_eq_div)

lemma u8_bound: "unat (b :: u8) < 256"
  using unsigned_less [of b] by simp

lemma octet_split:
  assumes "unat x < 16" "unat y < 16"
  shows "drop_bit 4 (push_bit 4 x OR y) = (x :: u8)" "take_bit 4 (push_bit 4 x OR y) = y"
proof -
  have tx: "take_bit 4 x = x" and ty: "take_bit 4 y = y"
    using assms unat_nibble by (metis mod_less unsigned_word_eqI)+
  have hx: "\<not> bit x n" and hy: "\<not> bit y n" if "4 \<le> n" for n
    using that tx ty by (metis bit_take_bit_iff not_less)+
  show "drop_bit 4 (push_bit 4 x OR y) = x"
  proof (rule bit_word_eqI)
    fix n assume "n < LENGTH(8)"
    then show "bit (drop_bit 4 (push_bit 4 x OR y)) n = bit x n"
      using hx [of n] hy [of "n + 4"]
      by (cases "n < 4") (auto simp: bit_or_iff bit_push_bit_iff bit_drop_bit_eq add.commute)
  qed
  show "take_bit 4 (push_bit 4 x OR y) = y"
    by (rule bit_word_eqI) (use hy in \<open>force simp: bit_or_iff bit_push_bit_iff bit_take_bit_iff\<close>)
qed

lemma hex2_octet: "unat x < 16 \<Longrightarrow> unat y < 16 \<Longrightarrow>
    hex2 (push_bit 4 x OR y) = [hex_char (unat x), hex_char (unat y)]"
  unfolding hex2_def by (simp only: octet_split)

lemma hex2_digits: "map (the \<circ> to_digit16) (hex2 b) = [drop_bit 4 b, take_bit 4 b]"
proof -
  have "of_nat (unat b div 16) = drop_bit 4 b" "of_nat (unat b mod 16) = take_bit 4 b"
    by (simp_all flip: unat_nibble)
  then show ?thesis using u8_bound [of b] by (simp add: hex2_def to_digit16_hex_char)
qed

lemma mac_of_hex: "mac_of_nibbles (map (the \<circ> to_digit16) (mac_hex m)) = m"
  by (cases m) (simp add: mac_hex_def mac_of_nibbles_def octet_of_def hex2_digits nibbles_rejoin)

lemma hex_part_hex2 [simp]: "hex_part (hex2 b) = hex2 b"
  using u8_bound [of b] by (simp add: hex2_def hex_char_not_separator)

lemma hex_part_display: "hex_part (mac_display m) = mac_hex m"
  by (cases m) (simp add: mac_display_def mac_hex_def is_separator_def)

lemma hex2_all_hex: "c \<in> set (hex2 b) \<Longrightarrow> to_digit16 c \<noteq> None"
  using u8_bound [of b] by (auto simp: hex2_def to_digit16_hex_char)

lemma length_mac_hex [simp]: "length (mac_hex m) = 12"
  by (cases m) (simp add: mac_hex_def hex2_def)

lemma find_None_hex_part:
  "find (\<lambda>c. \<not> is_separator c \<and> to_digit16 c = None) s = None \<longleftrightarrow>
   (\<forall>c \<in> set (hex_part s). to_digit16 c \<noteq> None)"
  by (auto simp: find_None_iff hex_part_def)

lemma lowercase_digits:
  "\<forall>c \<in> set t. to_digit16 c \<noteq> None \<Longrightarrow> map (hex_char \<circ> unat \<circ> the \<circ> to_digit16) t = lowercase t"
  by (induction t) (auto dest: hex_char_of_digit)

lemma mac_hex_of_nibbles:
  assumes "length ns = 12" "\<forall>n \<in> set ns. unat n < 16"
  shows "mac_hex (mac_of_nibbles ns) = map (hex_char \<circ> unat) ns"
proof -
  have b: "unat (ns ! i) < 16" if "i < 12" for i using assms that by simp
  have "map (hex_char \<circ> unat) ns = map (\<lambda>i. hex_char (unat (ns ! i))) [0..<12]"
    by (rule nth_equalityI) (simp_all add: assms)
  also have "[0..<12] = [0, 1, 2, 3, 4, 5, 6, 7, 8, 9, 10, 11]"
    by (simp add: upt_rec)
  finally show ?thesis
    by (simp add: mac_hex_def mac_of_nibbles_def octet_of_def hex2_octet b comp_def)
qed

lemma to_digit16_lowercase:
  "map (the \<circ> to_digit16) (lowercase s) = map (the \<circ> to_digit16) s"
  by (simp add: lowercase_def to_digit16_lower)

text \<open>The parser accepts exactly the spellings whose hex digits, lowered, are the canonical ones.\<close>

lemma mac_parse_iff: "mac_parse s = Inr m \<longleftrightarrow> lowercase (hex_part s) = mac_hex m"
proof
  assume "mac_parse s = Inr m"
  then have all: "\<forall>c \<in> set (hex_part s). to_digit16 c \<noteq> None" and len: "length (hex_part s) = 12"
    and m: "m = mac_of_nibbles (map (the \<circ> to_digit16) (hex_part s))"
    unfolding find_None_hex_part [symmetric] by (auto simp: mac_parse_eq split: option.splits if_splits)
  have "\<forall>n \<in> set (map (the \<circ> to_digit16) (hex_part s)). unat n < 16"
    using all by (fastforce dest: hex_char_of_digit)
  then have "mac_hex m = map (hex_char \<circ> unat) (map (the \<circ> to_digit16) (hex_part s))"
    unfolding m using len by (intro mac_hex_of_nibbles) auto
  also have "\<dots> = lowercase (hex_part s)"
    using lowercase_digits [OF all] by (simp add: comp_assoc)
  finally show "lowercase (hex_part s) = mac_hex m" by simp
next
  assume eq: "lowercase (hex_part s) = mac_hex m"
  have "\<forall>c \<in> set (mac_hex m). to_digit16 c \<noteq> None"
    using hex2_all_hex by (auto simp: mac_hex_def)
  then have all: "\<forall>c \<in> set (hex_part s). to_digit16 c \<noteq> None"
    unfolding eq [symmetric] by (auto simp: lowercase_def to_digit16_lower)
  have len: "length (hex_part s) = 12" using arg_cong [OF eq, of length] by simp
  have "map (the \<circ> to_digit16) (hex_part s) = map (the \<circ> to_digit16) (mac_hex m)"
    unfolding eq [symmetric] by (simp only: to_digit16_lowercase)
  with all len show "mac_parse s = Inr m"
    by (simp add: mac_parse_eq find_None_hex_part [THEN iffD2] mac_of_hex)
qed

definition mac_read :: "string \<Rightarrow> mac option" where
  "mac_read s = (case mac_parse s of Inl _ \<Rightarrow> None | Inr m \<Rightarrow> Some m)"

lemma lowercase_mac_hex: "lowercase (mac_hex m) = mac_hex m"
proof -
  have "lower (hex_char n) = hex_char n" if "n < 16" for n
    using that by (auto simp: hex_char_def code_of_inject code_of_lower)
  moreover have "unat b div 16 < 16" for b :: u8 using u8_bound [of b] by simp
  ultimately show ?thesis by (cases m) (simp add: mac_hex_def hex2_def)
qed

lemma mac_parse_display: "mac_parse (mac_display m) = Inr m"
  by (simp add: mac_parse_iff hex_part_display lowercase_mac_hex)

interpretation mac_text: codec mac_display mac_read "\<lambda>_. True"
  by unfold_locales (simp add: mac_read_def mac_parse_display)

lemma mac_json: "mac_deserialize (mac_serialize m) = Inr m"
  by (simp add: mac_deserialize_def mac_serialize_def mac_parse_display)

text \<open>An address has one canonical spelling, which reads back, and the parser accepts exactly
  the texts that differ from it in separators and case only.\<close>

theorem mac_spellings:
  "(mac_parse s = Inr m \<longleftrightarrow> lowercase (hex_part s) = hex_part (mac_display m))
   \<and> mac_parse (mac_display m) = Inr m"
  by (simp add: mac_parse_iff mac_parse_display hex_part_display)

text \<open>Any other text is refused with the reason: the first character that is neither a
  separator nor a hex digit, or, when there is none, the number of digits found, which is not 12.\<close>

theorem mac_refusals:
  "(mac_parse s = Inl (NotHex c) \<longleftrightarrow> find (\<lambda>c. \<not> is_separator c \<and> to_digit16 c = None) s = Some c)
   \<and> (mac_parse s = Inl (WrongLength n) \<longleftrightarrow>
        find (\<lambda>c. \<not> is_separator c \<and> to_digit16 c = None) s = None \<and> n = length (hex_part s) \<and> n \<noteq> 12)"
  by (auto simp: mac_parse_eq split: option.split)

end
