(* ===== verification/Boot_State.thy ===== *)
theory Boot_State
  imports Mac_Address "HOL-Library.Multiset"
begin

text \<open>
  Boot state tracking (\<open>crates/stormnetboot-server/src/state.rs\<close>): the bounded, in-memory map
  from a host's address to the phase it was last seen in. The state is the map behind the lock
  of \<open>BootState\<close>; every operation holds the lock for its whole body, so an operation is one
  atomic step and a history of the server is a sequence of them. The clock (\<open>now_unix\<close>) is an
  argument. The lemmas show that the map stays well formed and within its capacity, which hosts
  an eviction drops, that a tracked host never moves backwards, and what the summaries report.
\<close>

section \<open>Phases\<close>

datatype phase = ScriptFetched | AssetsFetched | RootAttached | Running | Assimilating | Local | Failed

fun phase_index :: "phase \<Rightarrow> nat" where
  "phase_index ScriptFetched = 0"
| "phase_index AssetsFetched = 1"
| "phase_index RootAttached = 2"
| "phase_index Running = 3"
| "phase_index Assimilating = 4"
| "phase_index Local = 5"
| "phase_index Failed = 6"

lemma phase_index_inject: "phase_index p = phase_index q \<longleftrightarrow> p = q"
  by (cases p; cases q) auto

text \<open>The derived order of the enumeration: the order in which the phases are declared.\<close>

instantiation phase :: linorder
begin

definition less_eq_phase :: "phase \<Rightarrow> phase \<Rightarrow> bool" where
  "less_eq_phase p q \<longleftrightarrow> phase_index p \<le> phase_index q"

definition less_phase :: "phase \<Rightarrow> phase \<Rightarrow> bool" where
  "less_phase p q \<longleftrightarrow> phase_index p < phase_index q"

instance
  by standard (auto simp: less_eq_phase_def less_phase_def phase_index_inject)

end

definition is_terminal :: "phase \<Rightarrow> bool" where
  "is_terminal p \<longleftrightarrow> p = Local \<or> p = Failed"

fun slug :: "phase \<Rightarrow> string" where
  "slug ScriptFetched = ''script-fetched''"
| "slug AssetsFetched = ''assets-fetched''"
| "slug RootAttached = ''root-attached''"
| "slug Running = ''running''"
| "slug Assimilating = ''assimilating''"
| "slug Local = ''local''"
| "slug Failed = ''failed''"

lemma phase_le_Failed [simp]: "p \<le> Failed"
  by (cases p) (auto simp: less_eq_phase_def)

lemma slug_inject: "slug p = slug q \<longleftrightarrow> p = q"
  by (cases p; cases q) auto

section \<open>Hosts and the map\<close>

record hardware_inventory =
  inv_cpus :: u32
  inv_memory_kb :: u64
  inv_product :: "string option"
  inv_serial :: "string option"
  inv_disks :: "string list"

record host_state =
  hs_mac :: mac
  hs_phase :: phase
  hs_detail :: "string option"
  hs_pallet_version :: "string option"
  hs_hardware :: "hardware_inventory option"
  hs_first_seen_unix :: u64
  hs_updated_unix :: u64

type_synonym boot_state = "(mac \<times> host_state) list"

definition MAX_TRACKED :: nat where
  "MAX_TRACKED = 20000"

text \<open>\<open>retain\<close> drops the finished hosts; \<open>min_by_key\<close> gives the first of the least recent.\<close>

definition evict_finished :: "boot_state \<Rightarrow> boot_state" where
  "evict_finished hosts =
     (let kept = filter (\<lambda>(_, st). \<not> is_terminal (hs_phase st)) hosts
      in if MAX_TRACKED \<le> length kept \<and> kept \<noteq> []
         then AList.delete (hs_mac (arg_min_list hs_updated_unix (map snd kept))) kept
         else kept)"

definition make_room :: "mac \<Rightarrow> boot_state \<Rightarrow> boot_state" where
  "make_room m hosts =
     (if MAX_TRACKED \<le> length hosts \<and> map_of hosts m = None then evict_finished hosts else hosts)"

definition observe :: "u64 \<Rightarrow> mac \<Rightarrow> phase \<Rightarrow> string option \<Rightarrow> boot_state \<Rightarrow> boot_state" where
  "observe now m ph detail hosts0 =
     (let hosts = make_room m hosts0
      in case map_of hosts m of
           Some st \<Rightarrow>
             if hs_phase st \<le> ph \<or> ph = Failed
             then AList.update m (st\<lparr>hs_phase := ph, hs_detail := detail, hs_updated_unix := now\<rparr>) hosts
             else hosts
         | None \<Rightarrow>
             AList.update m
               \<lparr>hs_mac = m, hs_phase = ph, hs_detail = detail, hs_pallet_version = None,
                hs_hardware = None, hs_first_seen_unix = now, hs_updated_unix = now\<rparr> hosts)"

definition set_pallet_version :: "mac \<Rightarrow> string \<Rightarrow> boot_state \<Rightarrow> boot_state" where
  "set_pallet_version m version hosts =
     (case map_of hosts m of
        Some st \<Rightarrow> AList.update m (st\<lparr>hs_pallet_version := Some version\<rparr>) hosts
      | None \<Rightarrow> hosts)"

definition set_inventory :: "u64 \<Rightarrow> mac \<Rightarrow> hardware_inventory \<Rightarrow> boot_state \<Rightarrow> boot_state" where
  "set_inventory now m hw hosts0 =
     (let hosts = make_room m hosts0
      in case map_of hosts m of
           Some st \<Rightarrow> AList.update m (st\<lparr>hs_hardware := Some hw, hs_updated_unix := now\<rparr>) hosts
         | None \<Rightarrow>
             AList.update m
               \<lparr>hs_mac = m, hs_phase = Running, hs_detail = None, hs_pallet_version = None,
                hs_hardware = Some hw, hs_first_seen_unix = now, hs_updated_unix = now\<rparr> hosts)"

definition get_host :: "boot_state \<Rightarrow> mac \<Rightarrow> host_state option" where
  "get_host hosts m = map_of hosts m"

text \<open>Most recently updated first, ties by address.\<close>

definition snapshot :: "boot_state \<Rightarrow> host_state list" where
  "snapshot hosts = sort_key (\<lambda>st. (- uint (hs_updated_unix st), hs_mac st)) (map snd hosts)"

definition count_phase :: "(phase \<times> nat) list \<Rightarrow> host_state \<Rightarrow> (phase \<times> nat) list" where
  "count_phase counts st =
     (case map_of counts (hs_phase st) of
        None \<Rightarrow> AList.update (hs_phase st) 1 counts
      | Some n \<Rightarrow> AList.update (hs_phase st) (Suc n) counts)"

definition phase_counts :: "boot_state \<Rightarrow> (phase \<times> nat) list" where
  "phase_counts hosts = sort_key fst (foldl count_phase [] (map snd hosts))"

text \<open>A history of the tracker: the operations of \<open>BootState\<close> that change it.\<close>

datatype boot_event =
    Observe u64 mac phase "string option"
  | SetPalletVersion mac string
  | SetInventory u64 mac hardware_inventory

fun boot_step :: "boot_state \<Rightarrow> boot_event \<Rightarrow> boot_state" where
  "boot_step hosts (Observe now m ph detail) = observe now m ph detail hosts"
| "boot_step hosts (SetPalletVersion m version) = set_pallet_version m version hosts"
| "boot_step hosts (SetInventory now m hw) = set_inventory now m hw hosts"

section \<open>The invariant: distinct keys that agree with their entries, within capacity\<close>

definition bs_wf :: "boot_state \<Rightarrow> bool" where
  "bs_wf hosts \<longleftrightarrow> hm_wf hosts \<and> (\<forall>(m, st) \<in> set hosts. hs_mac st = m)"

definition bs_inv :: "boot_state \<Rightarrow> bool" where
  "bs_inv hosts \<longleftrightarrow> bs_wf hosts \<and> length hosts \<le> MAX_TRACKED"

lemma bs_wf_empty [wf_intros]: "bs_wf []"
  by (simp add: bs_wf_def hm_wf_def)

lemma bs_wf_update [wf_intros]: "bs_wf hosts \<Longrightarrow> hs_mac st = m \<Longrightarrow> bs_wf (AList.update m st hosts)"
  by (auto simp: bs_wf_def hm.wf_put set_update_wf)

lemma bs_wf_delete [wf_intros]: "bs_wf hosts \<Longrightarrow> bs_wf (AList.delete m hosts)"
  by (auto simp: bs_wf_def hm.wf_del set_delete)

lemma bs_wf_filter [wf_intros]: "bs_wf hosts \<Longrightarrow> bs_wf (filter P hosts)"
  by (auto simp: bs_wf_def hm_wf_filter)

lemma bs_wf_evict [wf_intros]: "bs_wf hosts \<Longrightarrow> bs_wf (evict_finished hosts)"
  by (auto simp: evict_finished_def Let_def intro!: wf_intros)

lemma bs_wf_make_room [wf_intros]: "bs_wf hosts \<Longrightarrow> bs_wf (make_room m hosts)"
  by (auto simp: make_room_def intro: wf_intros)

lemma bs_wf_mac: "bs_wf hosts \<Longrightarrow> map_of hosts m = Some st \<Longrightarrow> hs_mac st = m"
  by (auto simp: bs_wf_def dest!: map_of_SomeD)

text \<open>The least recently updated host is in the map under its own address.\<close>

lemma oldest_tracked:
  assumes "bs_wf hosts" "hosts \<noteq> []" "o_st = arg_min_list hs_updated_unix (map snd hosts)"
  shows "map_of hosts (hs_mac o_st) = Some o_st" "\<forall>(m, st) \<in> set hosts. hs_updated_unix o_st \<le> hs_updated_unix st"
proof -
  have "map snd hosts \<noteq> []" using assms(2) by simp
  then have "o_st \<in> snd ` set hosts"
    using arg_min_list_in [of "map snd hosts" hs_updated_unix] assms(3) by simp
  then show "map_of hosts (hs_mac o_st) = Some o_st"
    using assms(1) by (auto simp: bs_wf_def hm_get_in)
  have "hs_updated_unix o_st = Min (hs_updated_unix ` snd ` set hosts)"
    using f_arg_min_list_f [of "map snd hosts" hs_updated_unix] assms(2,3) by simp
  then show "\<forall>(m, st) \<in> set hosts. hs_updated_unix o_st \<le> hs_updated_unix st"
    by (auto simp: image_image intro!: Min_le intro: rev_image_eqI)
qed

lemma length_evict_finished:
  assumes "bs_wf hosts" "length hosts \<le> MAX_TRACKED"
  shows "length (evict_finished hosts) < MAX_TRACKED"
proof -
  let ?kept = "filter (\<lambda>(_, st). \<not> is_terminal (hs_phase st)) hosts"
  let ?o = "arg_min_list hs_updated_unix (map snd ?kept)"
  have wf: "bs_wf ?kept" using assms(1) by (rule bs_wf_filter)
  have le: "length ?kept \<le> MAX_TRACKED" using length_filter_le assms(2) by (rule order_trans)
  show ?thesis
  proof (cases "MAX_TRACKED \<le> length ?kept \<and> ?kept \<noteq> []")
    case False
    then show ?thesis by (auto simp: evict_finished_def Let_def MAX_TRACKED_def)
  next
    case True
    then have "map_of ?kept (hs_mac ?o) = Some ?o" using oldest_tracked(1) [OF wf] by blast
    then have "Suc (length (AList.delete (hs_mac ?o) ?kept)) = length ?kept"
      using wf by (intro length_delete) (auto simp: bs_wf_def)
    with True le show ?thesis by (simp add: evict_finished_def Let_def)
  qed
qed

lemma length_make_room:
  assumes "bs_inv hosts"
  shows "length (make_room m hosts) \<le> MAX_TRACKED"
    "map_of (make_room m hosts) m = None \<Longrightarrow> length (make_room m hosts) < MAX_TRACKED"
  using assms length_evict_finished [of hosts]
  by (auto simp: make_room_def bs_inv_def split: if_splits)

lemma bs_inv_put: "bs_inv hosts \<Longrightarrow> hs_mac st = m \<Longrightarrow> bs_inv (AList.update m st (make_room m hosts))"
  using length_make_room [of hosts m]
  by (auto simp: bs_inv_def length_update intro: wf_intros)

lemma bs_inv_make_room: "bs_inv hosts \<Longrightarrow> bs_inv (make_room m hosts)"
  using length_make_room(1) [of hosts m] by (auto simp: bs_inv_def intro: wf_intros)

lemma bs_inv_observe [wf_intros]: "bs_inv hosts \<Longrightarrow> bs_inv (observe now m ph d hosts)"
  using bs_wf_mac [of "make_room m hosts" m] bs_inv_make_room [of hosts m]
  by (auto simp: observe_def Let_def bs_inv_def [of "make_room m hosts"] split: option.split intro!: bs_inv_put)

lemma bs_inv_set_inventory [wf_intros]: "bs_inv hosts \<Longrightarrow> bs_inv (set_inventory now m hw hosts)"
  using bs_wf_mac [of "make_room m hosts" m] bs_inv_make_room [of hosts m]
  by (auto simp: set_inventory_def Let_def bs_inv_def [of "make_room m hosts"] split: option.split intro!: bs_inv_put)

lemma bs_inv_set_pallet_version [wf_intros]: "bs_inv hosts \<Longrightarrow> bs_inv (set_pallet_version m v hosts)"
  using bs_wf_mac [of hosts m]
  by (auto simp: set_pallet_version_def bs_inv_def length_update split: option.split intro!: wf_intros)

interpretation boot: invariant_system boot_step bs_inv
proof
  fix s e assume "bs_inv s"
  then show "bs_inv (boot_step s e)" by (cases e) (auto intro: wf_intros)
qed

section \<open>What an operation does to a tracked host\<close>

lemma map_of_set_pallet_version:
  "map_of (set_pallet_version m v hosts) k =
    (if k = m then map_option (\<lambda>st. st\<lparr>hs_pallet_version := Some v\<rparr>) (map_of hosts m) else map_of hosts k)"
  by (simp add: set_pallet_version_def update_conv' split: option.split)

lemma make_room_tracked: "map_of hosts m = Some st \<Longrightarrow> make_room m hosts = hosts"
  by (simp add: make_room_def)

lemma make_room_below: "length hosts < MAX_TRACKED \<Longrightarrow> make_room m hosts = hosts"
  by (simp add: make_room_def)

lemma observe_tracked:
  "map_of hosts m = Some st \<Longrightarrow> map_of (observe now m ph d hosts) m =
    Some (if hs_phase st \<le> ph \<or> ph = Failed
          then st\<lparr>hs_phase := ph, hs_detail := d, hs_updated_unix := now\<rparr> else st)"
  by (simp add: observe_def make_room_tracked Let_def update_conv')

lemma map_of_observe_other:
  "k \<noteq> m \<Longrightarrow> map_of (observe now m ph d hosts) k = map_of (make_room m hosts) k"
  by (simp add: observe_def Let_def update_conv' split: option.split)

lemma map_of_set_inventory_other:
  "k \<noteq> m \<Longrightarrow> map_of (set_inventory now m hw hosts) k = map_of (make_room m hosts) k"
  by (simp add: set_inventory_def Let_def update_conv' split: option.split)

text \<open>Eviction never changes an entry: it keeps it as it is or drops it.\<close>

lemma map_of_evict:
  assumes "bs_wf hosts" "map_of (evict_finished hosts) k = Some st"
  shows "map_of hosts k = Some st"
proof -
  let ?kept = "filter (\<lambda>(_, st). \<not> is_terminal (hs_phase st)) hosts"
  have "map_of ?kept k = Some st"
    using assms(2) by (auto simp: evict_finished_def Let_def delete_conv' split: if_splits)
  then show ?thesis
    using assms(1) map_of_filter_wf [of hosts "\<lambda>_ st. \<not> is_terminal (hs_phase st)" k]
    by (auto simp: bs_wf_def split: option.splits if_splits)
qed

lemma map_of_make_room: "bs_wf hosts \<Longrightarrow> map_of (make_room m hosts) k = Some st \<Longrightarrow> map_of hosts k = Some st"
  by (auto simp: make_room_def map_of_evict split: if_splits)

fun event_mac :: "boot_event \<Rightarrow> mac" where
  "event_mac (Observe now m ph d) = m"
| "event_mac (SetPalletVersion m v) = m"
| "event_mac (SetInventory now m hw) = m"

lemma boot_step_other:
  "k \<noteq> event_mac e \<Longrightarrow> map_of (boot_step hosts e) k =
    (case e of SetPalletVersion _ _ \<Rightarrow> map_of hosts k | _ \<Rightarrow> map_of (make_room (event_mac e) hosts) k)"
  by (cases e) (simp_all add: map_of_observe_other map_of_set_inventory_other map_of_set_pallet_version)

lemma boot_step_own:
  "map_of hosts (event_mac e) = Some st \<Longrightarrow>
    \<exists>st'. map_of (boot_step hosts e) (event_mac e) = Some st' \<and> hs_phase st \<le> hs_phase st'
      \<and> hs_first_seen_unix st' = hs_first_seen_unix st"
  by (cases e)
    (auto simp: observe_tracked map_of_set_pallet_version set_inventory_def make_room_tracked
      Let_def update_conv')

lemma boot_step_forward:
  assumes "bs_wf hosts" "map_of hosts m = Some st" "map_of (boot_step hosts e) m = Some st'"
  shows "hs_phase st \<le> hs_phase st' \<and> hs_first_seen_unix st' = hs_first_seen_unix st"
proof (cases "m = event_mac e")
  case True
  then show ?thesis using boot_step_own [of hosts e st] assms(2,3) by auto
next
  case False
  then have "map_of hosts m = Some st'"
    using assms(1,3) map_of_make_room [OF assms(1), of "event_mac e" m st']
    by (auto simp: boot_step_other split: boot_event.splits)
  with assms(2) show ?thesis by simp
qed

lemma length_boot_step: "length hosts < MAX_TRACKED \<Longrightarrow> length (boot_step hosts e) \<le> Suc (length hosts)"
  by (cases e)
    (auto simp: observe_def set_inventory_def set_pallet_version_def make_room_below Let_def length_update
      split: option.split)

lemma boot_step_keeps:
  assumes "length hosts < MAX_TRACKED" "map_of hosts m = Some st"
  shows "\<exists>st'. map_of (boot_step hosts e) m = Some st'"
proof (cases "m = event_mac e")
  case True
  then show ?thesis using boot_step_own [of hosts e st] assms(2) by auto
next
  case False
  then show ?thesis using assms by (auto simp: boot_step_other make_room_below split: boot_event.splits)
qed

lemma dropped_by_evict:
  assumes "bs_inv hosts" "map_of hosts k = Some st" "map_of (evict_finished hosts) k = None"
    "\<not> is_terminal (hs_phase st)"
  shows "\<forall>(m', st') \<in> set hosts. \<not> is_terminal (hs_phase st') \<and> hs_updated_unix st \<le> hs_updated_unix st'"
proof -
  let ?P = "\<lambda>(_ :: mac, st). \<not> is_terminal (hs_phase st)"
  let ?kept = "filter ?P hosts"
  let ?o = "arg_min_list hs_updated_unix (map snd ?kept)"
  have wf: "bs_wf ?kept" using assms(1) by (auto simp: bs_inv_def intro: bs_wf_filter)
  have k: "map_of ?kept k = Some st"
    using assms map_of_filter_wf [of hosts "\<lambda>_ st. \<not> is_terminal (hs_phase st)" k]
    by (auto simp: bs_inv_def bs_wf_def)
  with assms(3) have full: "MAX_TRACKED \<le> length ?kept" "?kept \<noteq> []" and o: "k = hs_mac ?o"
    by (auto simp: evict_finished_def Let_def delete_conv' split: if_splits)
  with wf k have st: "st = ?o" using oldest_tracked(1) [OF wf] by force
  have "length ?kept = length hosts"
    using full(1) assms(1) length_filter_le [of ?P hosts] unfolding bs_inv_def by linarith
  then have all: "\<forall>x \<in> set hosts. ?P x"
    using length_filter_less [of _ hosts ?P] by (metis less_irrefl)
  then have "?kept = hosts" by (simp add: filter_id_conv)
  with all oldest_tracked(2) [OF wf full(2), of ?o] st show ?thesis by auto
qed

section \<open>Summaries\<close>

lemma hm_wf_count_phase: "hm_wf c \<Longrightarrow> hm_wf (foldl count_phase c sts)"
  by (induction sts arbitrary: c) (auto simp: count_phase_def hm.wf_put split: option.split)

lemma map_of_count_phase:
  "map_of (foldl count_phase c sts) p =
    (let n = length (filter (\<lambda>st. hs_phase st = p) sts)
     in case map_of c p of None \<Rightarrow> (if n = 0 then None else Some n) | Some k \<Rightarrow> Some (k + n))"
  by (induction sts arbitrary: c)
    (auto simp: count_phase_def update_conv' Let_def split: option.split)

lemma map_of_sort: "hm_wf m \<Longrightarrow> map_of (sort_key f m) = map_of m"
proof
  fix k assume wf: "hm_wf m"
  have "mset (map fst (sort_key f m)) = mset (map fst m)" by (simp only: mset_map mset_sort)
  then have wf': "hm_wf (sort_key f m)" using wf unfolding hm_wf_def by (metis mset_eq_imp_distinct_iff)
  show "map_of (sort_key f m) k = map_of m k"
    using hm_get_in [OF wf, of k] hm_get_in [OF wf', of k] by (metis not_None_eq set_sort)
qed

lemma sum_count_phase: "hm_wf c \<Longrightarrow> sum_list (map snd (foldl count_phase c sts)) = sum_list (map snd c) + length sts"
proof (induction sts arbitrary: c)
  case (Cons st sts)
  have upd: "sum_list (map snd (AList.update k (v :: nat) c)) + (case map_of c k of None \<Rightarrow> 0 | Some w \<Rightarrow> w)
      = sum_list (map snd c) + v" for k v and c :: "(phase \<times> nat) list"
    by (induction c) (auto split: option.splits)
  have "sum_list (map snd (count_phase c st)) = Suc (sum_list (map snd c))"
    using upd [of "hs_phase st" 1 c] upd [of "hs_phase st" "Suc (the (map_of c (hs_phase st)))" c]
    by (auto simp: count_phase_def split: option.split)
  moreover have "hm_wf (count_phase c st)"
    using hm_wf_count_phase [OF Cons.prems, of "[st]"] by simp
  ultimately show ?case using Cons.IH [of "count_phase c st"] by simp
qed simp

section \<open>Properties\<close>

text \<open>C21: Whatever operations reach the tracker, in whatever order, it never holds more than
  \<open>MAX_TRACKED\<close> hosts, no host twice, and every entry under its own address.\<close>

theorem tracker_bounded:
  "length (foldl boot_step [] es) \<le> MAX_TRACKED \<and> bs_wf (foldl boot_step [] es)"
proof -
  have "bs_inv []" by (simp add: bs_inv_def bs_wf_empty)
  then have "bs_inv (foldl boot_step [] es)" by (rule boot.inv_run)
  then show ?thesis by (simp add: bs_inv_def)
qed

text \<open>While the tracker has room for the hosts that report, no host is forgotten, no host's
  phase moves backwards, and the time it was first seen never changes.\<close>

theorem tracked_host_moves_forward:
  assumes "bs_wf hosts" "length hosts + length es \<le> MAX_TRACKED" "map_of hosts m = Some st"
  shows "\<exists>st'. map_of (foldl boot_step hosts es) m = Some st' \<and> hs_phase st \<le> hs_phase st'
    \<and> hs_first_seen_unix st' = hs_first_seen_unix st"
  using assms
proof (induction es arbitrary: hosts st)
  case (Cons e es)
  then have room: "length hosts < MAX_TRACKED" by simp
  then obtain st1 where st1: "map_of (boot_step hosts e) m = Some st1"
    using boot_step_keeps Cons.prems(3) by blast
  have inv: "bs_inv (boot_step hosts e)"
    using Cons.prems(1) room boot.inv_step by (simp add: bs_inv_def)
  have "length (boot_step hosts e) + length es \<le> MAX_TRACKED"
    using length_boot_step [OF room, of e] Cons.prems(2) by simp
  then obtain st' where "map_of (foldl boot_step (boot_step hosts e) es) m = Some st'"
    "hs_phase st1 \<le> hs_phase st'" "hs_first_seen_unix st' = hs_first_seen_unix st1"
    using Cons.IH [OF _ _ st1] inv by (auto simp: bs_inv_def)
  with boot_step_forward [OF Cons.prems(1,3) st1] show ?case by auto
qed simp

definition sample_mac :: mac where
  "sample_mac = Mac 0xAA 0xBB 0xCC 0xDD 0xEE 1"

definition sample_host :: "phase \<Rightarrow> host_state" where
  "sample_host ph = \<lparr>hs_mac = sample_mac, hs_phase = ph, hs_detail = None, hs_pallet_version = None,
     hs_hardware = None, hs_first_seen_unix = 7, hs_updated_unix = 7\<rparr>"

lemma sample_host_simps [simp]:
  "hs_mac (sample_host ph) = sample_mac" "hs_phase (sample_host ph) = ph"
  "hs_first_seen_unix (sample_host ph) = 7" "hs_updated_unix (sample_host ph) = 7"
  by (simp_all add: sample_host_def)

lemma bs_wf_sample: "bs_wf [(sample_mac, sample_host ph)]"
  by (simp add: bs_wf_def hm_wf_def)

theorem tracked_host_moves_forward_witness:
  "\<exists>st'. map_of (foldl boot_step [(sample_mac, sample_host Running)]
      [Observe 8 sample_mac ScriptFetched None, Observe 9 sample_mac Assimilating None]) sample_mac = Some st'
    \<and> hs_phase (sample_host Running) \<le> hs_phase st' \<and> hs_first_seen_unix st' = 7"
  using tracked_host_moves_forward [of "[(sample_mac, sample_host Running)]"
      "[Observe 8 sample_mac ScriptFetched None, Observe 9 sample_mac Assimilating None]"
      sample_mac "sample_host Running", OF bs_wf_sample]
  by (simp add: MAX_TRACKED_def)

text \<open>An operation forgets a tracked host only when the tracker is full, and then only a
  finished host or, when no tracked host is finished, one that was heard of least recently.\<close>

theorem only_finished_or_oldest_forgotten:
  assumes "bs_inv hosts" "map_of hosts m = Some st" "map_of (boot_step hosts e) m = None"
  shows "length hosts = MAX_TRACKED \<and> (is_terminal (hs_phase st) \<or>
    (\<forall>(m', st') \<in> set hosts. \<not> is_terminal (hs_phase st') \<and> hs_updated_unix st \<le> hs_updated_unix st'))"
proof -
  have len: "length hosts = MAX_TRACKED"
    using boot_step_keeps [OF _ assms(2), of e] assms(1,3) by (fastforce simp: bs_inv_def)
  have "m \<noteq> event_mac e" using boot_step_own [of hosts e st] assms(2,3) by auto
  then have "map_of (evict_finished hosts) m = None"
    using assms(2,3) by (auto simp: boot_step_other make_room_def split: boot_event.splits if_splits)
  then show ?thesis using dropped_by_evict [OF assms(1,2)] len by blast
qed

definition crowd_mac :: "nat \<Rightarrow> mac" where
  "crowd_mac i = Mac 2 0 0 0 (of_nat (i div 256)) (of_nat (i mod 256))"

definition crowd :: "nat \<Rightarrow> boot_state" where
  "crowd n = map (\<lambda>i. (crowd_mac i, (sample_host Local)\<lparr>hs_mac := crowd_mac i\<rparr>)) [0..<n]"

lemma unat_u8: "n < 256 \<Longrightarrow> unat (of_nat n :: u8) = n"
  by (rule unat_small)

lemma crowd_mac_inject: "i < 65536 \<Longrightarrow> j < 65536 \<Longrightarrow> crowd_mac i = crowd_mac j \<Longrightarrow> i = j"
proof -
  assume "i < 65536" "j < 65536" "crowd_mac i = crowd_mac j"
  then have "unat (of_nat (i div 256) :: u8) = unat (of_nat (j div 256) :: u8)"
    "unat (of_nat (i mod 256) :: u8) = unat (of_nat (j mod 256) :: u8)"
    by (simp_all add: crowd_mac_def)
  with \<open>i < 65536\<close> \<open>j < 65536\<close> have "i div 256 = j div 256" "i mod 256 = j mod 256"
    by (simp_all add: unat_u8 less_mult_imp_div_less)
  then show "i = j" by (metis div_mult_mod_eq)
qed

lemma crowd_inv: "bs_inv (crowd MAX_TRACKED)"
proof -
  have "inj_on crowd_mac {0..<MAX_TRACKED}"
    by (rule inj_onI) (rule crowd_mac_inject, auto simp: MAX_TRACKED_def)
  then have "distinct (map fst (crowd MAX_TRACKED))"
    by (simp add: crowd_def comp_def distinct_map)
  then show ?thesis by (auto simp: bs_inv_def bs_wf_def hm_wf_def crowd_def)
qed

theorem only_finished_or_oldest_forgotten_witness:
  "is_terminal (hs_phase ((sample_host Local)\<lparr>hs_mac := crowd_mac 0\<rparr>)) \<and> length (crowd MAX_TRACKED) = MAX_TRACKED"
proof -
  let ?e = "Observe 9 sample_mac ScriptFetched None"
  let ?st = "(sample_host Local)\<lparr>hs_mac := crowd_mac 0\<rparr>"
  have "(crowd_mac 0, ?st) \<in> set (crowd MAX_TRACKED)" by (force simp: crowd_def MAX_TRACKED_def)
  then have in0: "map_of (crowd MAX_TRACKED) (crowd_mac 0) = Some ?st"
    using crowd_inv by (simp add: bs_inv_def bs_wf_def hm_get_in)
  have new: "map_of (crowd MAX_TRACKED) sample_mac = None"
    by (auto simp: map_of_eq_None_iff crowd_def sample_mac_def crowd_mac_def)
  have "filter (\<lambda>(_, st). \<not> is_terminal (hs_phase st)) (crowd MAX_TRACKED) = []"
    by (auto simp: filter_empty_conv crowd_def is_terminal_def)
  then have "make_room sample_mac (crowd MAX_TRACKED) = []"
    using new by (simp add: make_room_def evict_finished_def crowd_def)
  moreover have "crowd_mac 0 \<noteq> sample_mac" by (simp add: crowd_mac_def sample_mac_def)
  ultimately have gone: "map_of (boot_step (crowd MAX_TRACKED) ?e) (crowd_mac 0) = None"
    by (simp add: map_of_observe_other)
  have "length (crowd MAX_TRACKED) = MAX_TRACKED \<and> (is_terminal (hs_phase ?st) \<or>
    (\<forall>(m', st') \<in> set (crowd MAX_TRACKED). \<not> is_terminal (hs_phase st') \<and>
      hs_updated_unix ?st \<le> hs_updated_unix st'))"
    by (rule only_finished_or_oldest_forgotten [OF crowd_inv in0 gone])
  moreover have "is_terminal (hs_phase ?st)" by (simp add: is_terminal_def)
  ultimately show ?thesis by blast
qed

text \<open>A failure is final for as long as the host is tracked: no later report, of any phase,
  takes the host out of \<open>Failed\<close>, because \<open>Failed\<close> is the greatest phase.\<close>

theorem failure_is_absorbing:
  assumes "bs_wf hosts" "map_of hosts m = Some st" "hs_phase st = Failed"
    "map_of (boot_step hosts e) m = Some st'"
  shows "hs_phase st' = Failed"
  using boot_step_forward [OF assms(1,2,4)] assms(3) by (simp add: order_antisym)

theorem failure_is_absorbing_witness:
  "hs_phase (sample_host Failed) = Failed \<and>
   map_of (boot_step [(sample_mac, sample_host Failed)] (Observe 9 sample_mac Running None)) sample_mac
     = Some (sample_host Failed)"
proof -
  have eq: "map_of (boot_step [(sample_mac, sample_host Failed)] (Observe 9 sample_mac Running None)) sample_mac
    = Some (sample_host Failed)"
    by (simp add: observe_tracked sample_host_def less_eq_phase_def)
  have "hs_phase (sample_host Failed) = Failed"
    by (rule failure_is_absorbing [OF bs_wf_sample [of Failed] _ _ eq, of "sample_host Failed"]) simp_all
  with eq show ?thesis by simp
qed

text \<open>The per-phase summary is exact: it lists each phase some tracked host is in, once, in the
  order of the phases, with the number of hosts in it, and the numbers add up to the hosts.\<close>

theorem phase_counts_exact:
  "map_of (phase_counts hosts) p =
     (let n = length (filter (\<lambda>(_, st). hs_phase st = p) hosts) in if n = 0 then None else Some n)
   \<and> sorted (map fst (phase_counts hosts)) \<and> distinct (map fst (phase_counts hosts))
   \<and> sum_list (map snd (phase_counts hosts)) = length hosts"
proof -
  let ?c = "foldl count_phase [] (map snd hosts)"
  have wf: "hm_wf ?c" by (rule hm_wf_count_phase) (simp add: hm_wf_def)
  have "length (filter (\<lambda>st. hs_phase st = p) (map snd hosts)) = length (filter (\<lambda>(_, st). hs_phase st = p) hosts)"
    by (simp add: filter_map comp_def case_prod_unfold)
  then have "map_of (phase_counts hosts) p =
     (let n = length (filter (\<lambda>(_, st). hs_phase st = p) hosts) in if n = 0 then None else Some n)"
    by (simp add: phase_counts_def map_of_sort [OF wf] map_of_count_phase Let_def)
  moreover have "mset (map fst (phase_counts hosts)) = mset (map fst ?c)"
    by (simp only: phase_counts_def mset_map mset_sort)
  moreover have "mset (map snd (phase_counts hosts)) = mset (map snd ?c)"
    by (simp only: phase_counts_def mset_map mset_sort)
  ultimately show ?thesis using wf sum_count_phase [of "[]" "map snd hosts"]
    by (auto simp: hm_wf_def phase_counts_def simp del: mset_map
        dest: mset_eq_imp_distinct_iff) (metis sum_mset_sum_list)
qed

text \<open>The snapshot holds exactly the tracked hosts, the most recently updated first.\<close>

theorem snapshot_sorted:
  "mset (snapshot hosts) = image_mset snd (mset hosts)
   \<and> sorted_wrt (\<lambda>a b. hs_updated_unix b < hs_updated_unix a \<or>
       (hs_updated_unix a = hs_updated_unix b \<and> hs_mac a \<le> hs_mac b)) (snapshot hosts)"
proof -
  let ?k = "\<lambda>st. (- uint (hs_updated_unix st), hs_mac st)"
  have "sorted_wrt (\<lambda>a b. ?k a \<le> ?k b) (snapshot hosts)"
    using sorted_sort_key [of ?k "map snd hosts"] by (simp add: snapshot_def sorted_map)
  then have "sorted_wrt (\<lambda>a b. hs_updated_unix b < hs_updated_unix a \<or>
       (hs_updated_unix a = hs_updated_unix b \<and> hs_mac a \<le> hs_mac b)) (snapshot hosts)"
    by (rule sorted_wrt_mono_rel [rotated])
      (auto simp: less_eq_prod_def word_less_def word_uint_eq_iff)
  then show ?thesis by (simp add: snapshot_def)
qed

end
