(* ===== verification/Hosts.thy ===== *)
theory Hosts
  imports Mac_Address "HOL-Library.Multiset"
begin

text \<open>
  Host records (\<open>crates/stormnetboot-server/src/hosts.rs\<close>): who a booting machine is and what it
  should boot. The store has two layers, the bootstrap file and the cluster's \<open>BootHost\<close>
  objects above it. The file system is an argument of the operations that read it (the
  modification time and the outcome of the read), and so is the JSON reader, which belongs to
  \<open>serde_json\<close>. The interface other components rely on is the locale \<open>layered_directory\<close>.
\<close>

section \<open>Records and the store\<close>

record object_ref =
  or_namespace :: string
  or_name :: string
  or_generation :: int

definition object_ref_display :: "object_ref \<Rightarrow> string" where
  "object_ref_display r = or_namespace r @ ''/'' @ or_name r"

record host_record =
  hr_mac :: mac
  hr_name :: string
  hr_role :: "string option"
  hr_stack :: "string option"
  hr_portal :: "string option"
  hr_extra_cmdline :: "string option"
  hr_online :: bool
  hr_object :: "object_ref option"

datatype unknown_host_policy = Allow | Deny

definition policy_from_str :: "string \<Rightarrow> string + unknown_host_policy" where
  "policy_from_str s =
     (let t = lowercase s
      in if t = ''allow'' then Inr Allow
         else if t = ''deny'' then Inr Deny
         else Inl t)"

record loaded =
  ld_file :: "(mac \<times> host_record) list"
  ld_mtime :: "nat option"
  ld_kube :: "(mac \<times> host_record) list"
  ld_kube_synced :: bool

definition loaded_default :: loaded where
  "loaded_default = \<lparr>ld_file = [], ld_mtime = None, ld_kube = [], ld_kube_synced = False\<rparr>"

record host_counts =
  hc_file :: nat
  hc_kube :: nat
  hc_total :: nat
  hc_kube_synced :: bool

record host_store =
  st_path :: "string option"
  st_loaded :: loaded

definition empty_store :: host_store where
  "empty_store = \<lparr>st_path = None, st_loaded = loaded_default\<rparr>"

text \<open>What the file system answers for the backing file: its modification time, when it can be
  had, and the outcome of reading it.\<close>

datatype file_read = FileText string | FileNotFound | FileUnreadable

record host_file =
  hf_mtime :: "nat option"
  hf_read :: file_read

datatype reload_error = ReadFailed | NotAnArrayOfRecords

definition by_mac :: "host_record list \<Rightarrow> (mac \<times> host_record) list" where
  "by_mac rs = hm_collect (map (\<lambda>r. (hr_mac r, r)) rs)"

definition reload ::
  "(string \<Rightarrow> host_record list option) \<Rightarrow> host_file \<Rightarrow> host_store \<Rightarrow> host_store \<times> (reload_error + nat)" where
  "reload parse file s =
     (case st_path s of
        None \<Rightarrow> (s, Inr 0)
      | Some _ \<Rightarrow>
          let ld = st_loaded s; mtime = hf_mtime file
          in if mtime \<noteq> None \<and> ld_mtime ld = mtime then (s, Inr (length (ld_file ld)))
             else (case hf_read file of
                     FileNotFound \<Rightarrow> (s, Inr 0)
                   | FileUnreadable \<Rightarrow> (s, Inl ReadFailed)
                   | FileText raw \<Rightarrow>
                       (case parse raw of
                          None \<Rightarrow> (s, Inl NotAnArrayOfRecords)
                        | Some rs \<Rightarrow>
                            (s\<lparr>st_loaded := ld\<lparr>ld_file := by_mac rs, ld_mtime := mtime\<rparr>\<rparr>,
                             Inr (length rs)))))"

definition from_file :: "(string \<Rightarrow> host_record list option) \<Rightarrow> host_file \<Rightarrow> string \<Rightarrow> host_store" where
  "from_file parse file path = fst (reload parse file \<lparr>st_path = Some path, st_loaded = loaded_default\<rparr>)"

definition set_kube_records :: "host_record list \<Rightarrow> host_store \<Rightarrow> host_store" where
  "set_kube_records rs s =
     s\<lparr>st_loaded := (st_loaded s)\<lparr>ld_kube := by_mac rs, ld_kube_synced := True\<rparr>\<rparr>"

definition apply_kube_record :: "host_record \<Rightarrow> host_store \<Rightarrow> host_store" where
  "apply_kube_record r s =
     s\<lparr>st_loaded := (st_loaded s)\<lparr>ld_kube := AList.update (hr_mac r) r (ld_kube (st_loaded s))\<rparr>\<rparr>"

definition remove_kube_record :: "mac \<Rightarrow> host_store \<Rightarrow> host_store" where
  "remove_kube_record m s =
     s\<lparr>st_loaded := (st_loaded s)\<lparr>ld_kube := AList.delete m (ld_kube (st_loaded s))\<rparr>\<rparr>"

definition kube_synced :: "host_store \<Rightarrow> bool" where
  "kube_synced s = ld_kube_synced (st_loaded s)"

definition lookup :: "host_store \<Rightarrow> mac \<Rightarrow> host_record option" where
  "lookup s m =
     (case map_of (ld_kube (st_loaded s)) m of
        Some r \<Rightarrow> Some r
      | None \<Rightarrow> map_of (ld_file (st_loaded s)) m)"

definition file_only :: "host_store \<Rightarrow> (mac \<times> host_record) list" where
  "file_only s = filter (\<lambda>(m, _). map_of (ld_kube (st_loaded s)) m = None) (ld_file (st_loaded s))"

definition records :: "host_store \<Rightarrow> host_record list" where
  "records s = sort_key hr_mac (map snd (ld_kube (st_loaded s)) @ map snd (file_only s))"

definition counts :: "host_store \<Rightarrow> host_counts" where
  "counts s =
     (let ld = st_loaded s
      in \<lparr>hc_file = length (ld_file ld), hc_kube = length (ld_kube ld),
          hc_total = length (ld_kube ld) + length (file_only s), hc_kube_synced = ld_kube_synced ld\<rparr>)"

definition store_len :: "host_store \<Rightarrow> nat" where
  "store_len s = hc_total (counts s)"

definition store_is_empty :: "host_store \<Rightarrow> bool" where
  "store_is_empty s \<longleftrightarrow> store_len s = 0"

text \<open>A history of the store: reloads of the file and what the watch delivers.\<close>

datatype store_event =
    Reload host_file
  | SetKube "host_record list"
  | ApplyKube host_record
  | RemoveKube mac

fun store_step :: "(string \<Rightarrow> host_record list option) \<Rightarrow> host_store \<Rightarrow> store_event \<Rightarrow> host_store" where
  "store_step parse s (Reload file) = fst (reload parse file s)"
| "store_step parse s (SetKube rs) = set_kube_records rs s"
| "store_step parse s (ApplyKube r) = apply_kube_record r s"
| "store_step parse s (RemoveKube m) = remove_kube_record m s"

definition store_run ::
  "(string \<Rightarrow> host_record list option) \<Rightarrow> string option \<Rightarrow> store_event list \<Rightarrow> host_store" where
  "store_run parse p es = foldl (store_step parse) \<lparr>st_path = p, st_loaded = loaded_default\<rparr> es"

section \<open>The interface: a directory of two layers\<close>

locale layered_directory =
  fixes over under :: "'s \<Rightarrow> 'k \<Rightarrow> 'r option"
    and find :: "'s \<Rightarrow> 'k \<Rightarrow> 'r option"
    and put :: "'r \<Rightarrow> 's \<Rightarrow> 's"
    and del :: "'k \<Rightarrow> 's \<Rightarrow> 's"
    and replace :: "'r list \<Rightarrow> 's \<Rightarrow> 's"
    and key :: "'r \<Rightarrow> 'k"
  assumes find_eq: "find s k = (case over s k of Some r \<Rightarrow> Some r | None \<Rightarrow> under s k)"
    and over_put: "over (put r s) = (over s)(key r \<mapsto> r)"
    and over_del: "over (del k s) = (over s)(k := None)"
    and over_replace: "over (replace rs s) = map_of (rev (map (\<lambda>r. (key r, r)) rs))"
    and under_put: "under (put r s) = under s"
    and under_del: "under (del k s) = under s"
    and under_replace: "under (replace rs s) = under s"
begin

lemma find_put: "find (put r s) k = (if k = key r then Some r else find s k)"
  by (simp add: find_eq over_put under_put split: option.split)

text \<open>Deleting falls back to the layer below, it does not forget the host.\<close>

lemma find_del: "find (del k s) j = (if j = k then under s k else find s j)"
  by (simp add: find_eq over_del under_del split: option.split)

lemma find_replace:
  "find (replace rs s) k =
    (case map_of (rev (map (\<lambda>r. (key r, r)) rs)) k of Some r \<Rightarrow> Some r | None \<Rightarrow> under s k)"
  by (simp add: find_eq over_replace under_replace split: option.split)

text \<open>A resync erases whatever happened to the upper layer before it.\<close>

lemma replace_heals: "under s = under s' \<Longrightarrow> find (replace rs s) = find (replace rs s')"
  by (simp add: find_replace fun_eq_iff split: option.split)

lemma find_unchanged: "over s k = None \<Longrightarrow> find s k = under s k"
  by (simp add: find_eq)

end

abbreviation kube_layer :: "host_store \<Rightarrow> mac \<Rightarrow> host_record option" where
  "kube_layer s \<equiv> map_of (ld_kube (st_loaded s))"

abbreviation file_layer :: "host_store \<Rightarrow> mac \<Rightarrow> host_record option" where
  "file_layer s \<equiv> map_of (ld_file (st_loaded s))"

interpretation hosts: layered_directory kube_layer file_layer lookup
  apply_kube_record remove_kube_record set_kube_records hr_mac
  by unfold_locales
    (simp_all add: lookup_def apply_kube_record_def remove_kube_record_def set_kube_records_def
      by_mac_def map_of_collect update_conv' delete_conv')

section \<open>Invariants\<close>

text \<open>Each layer holds a record at most once, under the address it carries.\<close>

definition layer_wf :: "(mac \<times> host_record) list \<Rightarrow> bool" where
  "layer_wf l \<longleftrightarrow> hm_wf l \<and> (\<forall>(m, r) \<in> set l. hr_mac r = m)"

definition store_wf :: "host_store \<Rightarrow> bool" where
  "store_wf s \<longleftrightarrow> layer_wf (ld_file (st_loaded s)) \<and> layer_wf (ld_kube (st_loaded s))"

lemma layer_wf_update: "layer_wf l \<Longrightarrow> layer_wf (AList.update (hr_mac r) r l)"
  by (auto simp: layer_wf_def hm.wf_put set_update_wf)

lemma layer_wf_delete: "layer_wf l \<Longrightarrow> layer_wf (AList.delete m l)"
  by (auto simp: layer_wf_def hm.wf_del set_delete)

lemma layer_wf_by_mac [simp]: "layer_wf (by_mac rs)"
proof -
  have "layer_wf (foldl (\<lambda>m (k, v). AList.update k v m) l (map (\<lambda>r. (hr_mac r, r)) rs))" if "layer_wf l" for l
    using that by (induction rs arbitrary: l) (auto simp: layer_wf_update)
  moreover have "layer_wf []" by (simp add: layer_wf_def hm_wf_def)
  ultimately show ?thesis unfolding by_mac_def hm_collect_def by blast
qed

lemma store_wf_empty: "store_wf \<lparr>st_path = p, st_loaded = loaded_default\<rparr>"
  by (simp add: store_wf_def loaded_default_def layer_wf_def hm_wf_def)

lemma store_wf_reload: "store_wf s \<Longrightarrow> store_wf (fst (reload parse file s))"
  by (auto simp: reload_def store_wf_def Let_def split: option.split file_read.split)

interpretation store: invariant_system "store_step parse" store_wf
proof
  fix s e assume "store_wf s"
  then show "store_wf (store_step parse s e)"
    using store_wf_reload [of s parse]
    by (cases e) (auto simp: set_kube_records_def apply_kube_record_def
        remove_kube_record_def store_wf_def layer_wf_update layer_wf_delete)
qed

text \<open>Once the watch has listed the cluster it has listed it for good.\<close>

interpretation synced: forward_system "store_step parse" kube_synced
proof
  fix s e show "kube_synced s \<le> kube_synced (store_step parse s e)"
    by (cases e) (auto simp: kube_synced_def reload_def set_kube_records_def apply_kube_record_def
        remove_kube_record_def Let_def split: option.split file_read.split)
qed

section \<open>Properties\<close>

lemma map_of_rev_find: "map_of (rev (map (\<lambda>r. (f r, r)) rs)) k = find (\<lambda>r. f r = k) (rev rs)"
proof -
  have "map_of (map (\<lambda>r. (f r, r)) xs) k = find (\<lambda>r. f r = k) xs" for xs
    by (induction xs) auto
  then show ?thesis by (simp add: rev_map)
qed

text \<open>What a lookup answers after each change of the cluster layer: an applied object answers
  for its address, a removed one falls back to the bootstrap file, and a relist answers with the
  last listed object of the address and otherwise with the file, whatever was there before.\<close>

theorem lookup_after_change:
  "lookup (apply_kube_record r s) m = (if m = hr_mac r then Some r else lookup s m)
   \<and> lookup (remove_kube_record m' s) m = (if m = m' then file_layer s m else lookup s m)
   \<and> lookup (set_kube_records rs s) m =
       (case find (\<lambda>r. hr_mac r = m) (rev rs) of Some r \<Rightarrow> Some r | None \<Rightarrow> file_layer s m)"
  by (simp add: hosts.find_put hosts.find_del hosts.find_replace map_of_rev_find)

lemma length_records: "length (records s) = hc_total (counts s)"
  by (simp add: records_def counts_def Let_def)

lemma distinct_keyed_values:
  "layer_wf l \<Longrightarrow> map hr_mac (map snd l) = map fst l"
  by (auto simp: layer_wf_def)

lemma layer_wf_file_only: "store_wf s \<Longrightarrow> layer_wf (file_only s)"
  by (auto simp: store_wf_def layer_wf_def file_only_def hm_wf_filter)

lemma set_records:
  assumes "store_wf s"
  shows "r \<in> set (records s) \<longleftrightarrow> lookup s (hr_mac r) = Some r"
proof -
  let ?k = "ld_kube (st_loaded s)" and ?f = "ld_file (st_loaded s)"
  have k: "r \<in> snd ` set ?k \<longleftrightarrow> map_of ?k (hr_mac r) = Some r"
    using assms by (force simp: store_wf_def layer_wf_def hm_get_in)
  have "r \<in> snd ` set (file_only s) \<longleftrightarrow> map_of ?k (hr_mac r) = None \<and> map_of ?f (hr_mac r) = Some r"
    using assms by (force simp: store_wf_def layer_wf_def hm_get_in file_only_def)
  with k show ?thesis by (auto simp: records_def lookup_def split: option.split)
qed

lemma distinct_records:
  assumes "store_wf s"
  shows "distinct (map hr_mac (records s))"
proof -
  let ?k = "ld_kube (st_loaded s)"
  have "mset (map hr_mac (records s)) = mset (map hr_mac (map snd ?k @ map snd (file_only s)))"
    by (simp only: records_def mset_map mset_sort)
  also have "map hr_mac (map snd ?k @ map snd (file_only s)) = map fst ?k @ map fst (file_only s)"
    using assms layer_wf_file_only [OF assms]
    by (simp only: map_append distinct_keyed_values store_wf_def)
  finally have "mset (map hr_mac (records s)) = mset (map fst ?k @ map fst (file_only s))" .
  moreover have "distinct (map fst ?k)" "distinct (map fst (file_only s))"
    using assms layer_wf_file_only [OF assms] by (simp_all add: store_wf_def layer_wf_def hm_wf_def)
  moreover have "set (map fst ?k) \<inter> set (map fst (file_only s)) = {}"
    unfolding file_only_def map_of_eq_None_iff by force
  ultimately show ?thesis by (metis distinct_append mset_eq_imp_distinct_iff)
qed

text \<open>C22: After any history, the list of records is the lookup function made explicit: it holds
  exactly the records that lookups answer with, each address once, in the order of addresses,
  and its length is the total the counts report.\<close>

theorem records_enumerate_lookup:
  "(r \<in> set (records (store_run parse p es)) \<longleftrightarrow> lookup (store_run parse p es) (hr_mac r) = Some r)
    \<and> sorted (map hr_mac (records (store_run parse p es)))
    \<and> distinct (map hr_mac (records (store_run parse p es)))
    \<and> length (records (store_run parse p es)) = hc_total (counts (store_run parse p es))"
proof -
  have "store_wf (store_run parse p es)" unfolding store_run_def by (rule store.inv_run) (rule store_wf_empty)
  then show ?thesis
    by (simp add: set_records distinct_records length_records) (simp add: records_def)
qed

text \<open>A reload never touches the cluster layer, and it changes the store only when the file
  was read and is an array of records: then the file layer is exactly that array (the last
  record of an address wins). An unreadable, malformed or missing file leaves every record.\<close>

theorem reload_replaces_or_keeps:
  "kube_layer (fst (reload parse file s)) = kube_layer s
   \<and> (fst (reload parse file s) = s
      \<or> (\<exists>raw rs. hf_read file = FileText raw \<and> parse raw = Some rs
          \<and> snd (reload parse file s) = Inr (length rs)
          \<and> (\<forall>m. file_layer (fst (reload parse file s)) m = find (\<lambda>r. hr_mac r = m) (rev rs))))"
  by (auto simp: reload_def Let_def by_mac_def map_of_collect map_of_rev_find
      split: option.split file_read.split)

text \<open>What the number of records a reload reports does not say: a file that lists an address twice
  is reported as two records, and as one by the next reload of the same file.\<close>

definition sample_record :: "mac \<Rightarrow> string \<Rightarrow> host_record" where
  "sample_record m name = \<lparr>hr_mac = m, hr_name = name, hr_role = None, hr_stack = None, hr_portal = None,
     hr_extra_cmdline = None, hr_online = True, hr_object = None\<rparr>"

lemma reload_count_drifts:
  "let parse = (\<lambda>_. Some [sample_record m ''a'', sample_record m ''b'']);
       file = \<lparr>hf_mtime = Some 1, hf_read = FileText []\<rparr>;
       s0 = \<lparr>st_path = Some ''hosts.json'', st_loaded = loaded_default\<rparr>;
       (s1, r1) = reload parse file s0; (s2, r2) = reload parse file s1
   in r1 = Inr 2 \<and> r2 = Inr 1"
  by (simp add: reload_def loaded_default_def by_mac_def hm_collect_def sample_record_def)

text \<open>And a file that has been removed is reported as no records, while its records still answer.\<close>

lemma reload_of_removed_file:
  "st_path s = Some p \<Longrightarrow> reload parse \<lparr>hf_mtime = None, hf_read = FileNotFound\<rparr> s = (s, Inr 0)"
  by (simp add: reload_def Let_def)

end
