(* ===== verification/Config.thy ===== *)
theory Config
  imports Hosts
begin

text \<open>
  Server configuration (\<open>crates/stormnetboot-server/src/config.rs\<close>): the settings the server
  reads, the questions it asks of them and the combinations it refuses to start with. Socket
  addresses and paths are kept as their text. Whether the binary was built with the
  \<open>kubernetes\<close> feature is an argument of \<open>validate\<close>. The lemmas show what a configuration that
  was accepted guarantees to the code that runs afterwards.
\<close>

record config =
  cfg_listen :: string
  cfg_mgmt_listen :: string
  cfg_asset_dir :: string
  cfg_base_url :: string
  cfg_registry :: "string option"
  cfg_pallet_repo :: string
  cfg_pallet_ref :: string
  cfg_refresh_secs :: u64
  cfg_trusted_keys :: "string list"
  cfg_allow_unsigned :: bool
  cfg_golden :: "string option"
  cfg_claim :: bool
  cfg_hosts_file :: "string option"
  cfg_unknown_hosts :: unknown_host_policy
  cfg_kube :: bool
  cfg_kube_namespace :: "string option"
  cfg_kube_status :: bool
  cfg_status_secs :: u64
  cfg_print_crd :: bool
  cfg_portal :: "string option"
  cfg_portal_port :: u16
  cfg_extra_cmdline :: string
  cfg_local_disk :: "string option"

text \<open>The defaults the argument parser fills in.\<close>

definition default_config :: config where
  "default_config =
     \<lparr>cfg_listen = ''0.0.0.0:8080'', cfg_mgmt_listen = ''0.0.0.0:9096'',
      cfg_asset_dir = ''/var/lib/stormnetboot/assets'', cfg_base_url = ''http://boot.storm.lo:8080'',
      cfg_registry = None, cfg_pallet_repo = ''stormcos/boot'', cfg_pallet_ref = ''latest'',
      cfg_refresh_secs = 60, cfg_trusted_keys = [], cfg_allow_unsigned = False,
      cfg_golden = None, cfg_claim = False, cfg_hosts_file = None, cfg_unknown_hosts = Allow,
      cfg_kube = False, cfg_kube_namespace = None, cfg_kube_status = True, cfg_status_secs = 10,
      cfg_print_crd = False, cfg_portal = None, cfg_portal_port = 4420, cfg_extra_cmdline = '''',
      cfg_local_disk = None\<rparr>"

definition base_url :: "config \<Rightarrow> string" where
  "base_url c = trim_end_matches (\<lambda>x. x = CHR ''/'') (cfg_base_url c)"

definition projects_pallets :: "config \<Rightarrow> bool" where
  "projects_pallets c \<longleftrightarrow> cfg_registry c \<noteq> None"

definition writes_status :: "config \<Rightarrow> bool" where
  "writes_status c \<longleftrightarrow> cfg_kube c \<and> cfg_kube_status c"

definition claims_enabled :: "config \<Rightarrow> bool" where
  "claims_enabled c \<longleftrightarrow> cfg_claim c \<and> cfg_registry c \<noteq> None \<and> cfg_golden c \<noteq> None"

datatype config_error =
    ClaimNeedsRegistry
  | ClaimNeedsGolden
  | NoTrustedKey
  | NoKubernetesClient
  | NamespaceWithoutKube
  | SharedSocket string

definition validate :: "bool \<Rightarrow> config \<Rightarrow> config_error + unit" where
  "validate kubernetes c =
     (if cfg_claim c \<and> cfg_registry c = None then Inl ClaimNeedsRegistry
      else if cfg_claim c \<and> cfg_golden c = None then Inl ClaimNeedsGolden
      else if projects_pallets c \<and> cfg_trusted_keys c = [] \<and> \<not> cfg_allow_unsigned c then Inl NoTrustedKey
      else if \<not> kubernetes \<and> (cfg_kube c \<or> cfg_print_crd c) then Inl NoKubernetesClient
      else if cfg_kube_namespace c \<noteq> None \<and> \<not> cfg_kube c then Inl NamespaceWithoutKube
      else if cfg_listen c = cfg_mgmt_listen c then Inl (SharedSocket (cfg_listen c))
      else Inr ())"

section \<open>Properties\<close>

text \<open>A configuration is accepted exactly when claims are requested only where they can be
  made, pallets are projected only under a trusted key or an explicit opt-out, the cluster
  settings can take effect, and the two surfaces do not share a socket.\<close>

theorem validate_accepts:
  "validate kubernetes c = Inr () \<longleftrightarrow>
     (cfg_claim c = claims_enabled c)
     \<and> \<not> (projects_pallets c \<and> cfg_trusted_keys c = [] \<and> \<not> cfg_allow_unsigned c)
     \<and> \<not> (\<not> kubernetes \<and> (cfg_kube c \<or> cfg_print_crd c))
     \<and> \<not> (cfg_kube_namespace c \<noteq> None \<and> \<not> cfg_kube c)
     \<and> cfg_listen c \<noteq> cfg_mgmt_listen c"
  by (auto simp: validate_def claims_enabled_def projects_pallets_def)

lemma default_config_accepted: "validate kubernetes default_config = Inr ()"
  by (simp add: validate_def default_config_def projects_pallets_def)

lemma base_url_no_trailing_slash: "base_url c \<noteq> [] \<Longrightarrow> last (base_url c) \<noteq> CHR ''/''"
  unfolding base_url_def by (rule trim_end_matches_last)

end
