(* ===== verification/Claims.thy ===== *)
theory Claims
  imports Config
begin

text \<open>
  Per-host root volume claims (\<open>crates/stormnetboot-server/src/claims.rs\<close>): what the registry
  answers and when a claim can be booted from. The HTTP client and the JSON reader belong to
  other packages: \<open>post\<close> answers a request (address, golden, consumer), \<open>parse\<close> reads a body.
  The message of a failure is the text of the outermost error, as the handler prints it.
\<close>

record attach =
  at_protocol :: string
  at_address :: string
  at_port :: u16
  at_target :: string
  at_nsid :: "u32 option"
  at_disk_add :: "string option"

record claim_response =
  cr_id :: string
  cr_golden :: string
  cr_template :: string
  cr_state :: string
  cr_volume_name :: string
  cr_attach :: "attach option"

definition is_attachable :: "claim_response \<Rightarrow> bool" where
  "is_attachable c \<longleftrightarrow>
     (case cr_attach c of
        None \<Rightarrow> False
      | Some a \<Rightarrow> at_address a \<noteq> [] \<and> at_target a \<noteq> [] \<and> at_port a \<noteq> 0)"

record claim_client =
  cc_registry :: string
  cc_default_golden :: string

definition claim_client_new :: "string \<Rightarrow> string \<Rightarrow> claim_client" where
  "claim_client_new registry golden =
     \<lparr>cc_registry = trim_end_matches (\<lambda>x. x = CHR ''/'') registry, cc_default_golden = golden\<rparr>"

text \<open>The reply to a claim: no reply at all, or a status (success or not, as text) and a body.\<close>

datatype claim_reply = NoReply | Reply bool string string

record registry_api =
  api_post :: "string \<Rightarrow> string \<Rightarrow> string option \<Rightarrow> claim_reply"
  api_parse :: "string \<Rightarrow> claim_response option"

definition claim :: "registry_api \<Rightarrow> claim_client \<Rightarrow> mac option \<Rightarrow> string option \<Rightarrow> string + claim_response" where
  "claim api client m golden0 =
     (let golden = (case golden0 of Some g \<Rightarrow> g | None \<Rightarrow> cc_default_golden client);
          url = cc_registry client @ ''/v1/clones/claim''
      in case api_post api url golden (map_option mac_display m) of
           NoReply \<Rightarrow> Inl (''POST '' @ url)
         | Reply success status text \<Rightarrow>
             if \<not> success
             then Inl (''claim for golden '' @ golden @ '' failed ('' @ status @ ''): '' @ trim text)
             else (case api_parse api text of
                     None \<Rightarrow> Inl (''parsing claim response: '' @ text)
                   | Some c \<Rightarrow>
                       if \<not> is_attachable c
                       then Inl (''claim '' @ cr_id c @ '' for golden '' @ golden
                                  @ '' has no usable attach info (state '' @ cr_state c @ '')'')
                       else Inr c))"

lemma claim_attachable: "claim api client m g = Inr c \<Longrightarrow> is_attachable c"
  by (auto simp: claim_def Let_def split: claim_reply.splits option.splits if_splits)

lemma is_attachable_attach: "is_attachable c \<Longrightarrow> \<exists>a. cr_attach c = Some a \<and> at_address a \<noteq> [] \<and>
    at_target a \<noteq> [] \<and> at_port a \<noteq> 0"
  by (auto simp: is_attachable_def split: option.splits)

end
