(* ===== verification/Ipxe.thy ===== *)
theory Ipxe
  imports Config
begin

text \<open>
  Boot script rendering (\<open>crates/stormnetboot-server/src/ipxe.rs\<close>): the plan of one host's boot,
  resolved from the configuration and the host's record, and the script that carries it on the
  kernel command line. The parts of the command line are kept as a list until they are joined,
  as the code does.
\<close>

record boot_plan =
  bp_mac :: "mac option"
  bp_record :: "host_record option"
  bp_portal :: "string option"
  bp_portal_port :: u16
  bp_nqn :: "string option"
  bp_nsid :: "u32 option"
  bp_volume :: "string option"

definition resolve :: "config \<Rightarrow> mac option \<Rightarrow> host_record option \<Rightarrow> boot_plan" where
  "resolve cfg m record =
     \<lparr>bp_mac = m, bp_record = record,
      bp_portal = (case Option.bind record hr_portal of Some p \<Rightarrow> Some p | None \<Rightarrow> cfg_portal cfg),
      bp_portal_port = cfg_portal_port cfg, bp_nqn = None, bp_nsid = None, bp_volume = None\<rparr>"

definition opt_part :: "string \<Rightarrow> string option \<Rightarrow> string list" where
  "opt_part key v = (case v of None \<Rightarrow> [] | Some x \<Rightarrow> [key @ x])"

definition root_parts :: "boot_plan \<Rightarrow> string list" where
  "root_parts plan =
     (case bp_portal plan of
        None \<Rightarrow> []
      | Some portal \<Rightarrow>
          [''rd.stormblock.portal='' @ portal, ''rd.stormblock.port='' @ show_word (bp_portal_port plan)]
          @ opt_part ''rd.stormblock.nqn='' (bp_nqn plan)
          @ opt_part ''rd.stormblock.nsid='' (map_option show_word (bp_nsid plan))
          @ opt_part ''stormblock.volume='' (bp_volume plan)
          @ [''root=/dev/ublkb0''])"

definition identity_parts :: "boot_plan \<Rightarrow> string list" where
  "identity_parts plan =
     (case bp_record plan of
        None \<Rightarrow> []
      | Some r \<Rightarrow> [''storm.hostname='' @ hr_name r] @ opt_part ''storm.role='' (hr_role r))"

definition cmdline_parts :: "boot_plan \<Rightarrow> config \<Rightarrow> string list" where
  "cmdline_parts plan cfg =
     root_parts plan
     @ opt_part ''rd.stormblock.local-disk='' (cfg_local_disk cfg)
     @ identity_parts plan
     @ (if cfg_extra_cmdline cfg \<noteq> [] then [cfg_extra_cmdline cfg] else [])
     @ opt_part '''' (Option.bind (bp_record plan) hr_extra_cmdline)"

definition plan_cmdline :: "boot_plan \<Rightarrow> config \<Rightarrow> string" where
  "plan_cmdline plan cfg = join '' '' (cmdline_parts plan cfg)"

definition greeting :: "boot_plan \<Rightarrow> string" where
  "greeting plan =
     (case (bp_mac plan, bp_record plan) of
        (Some m, Some r) \<Rightarrow> ''# '' @ mac_display m @ '' -> '' @ hr_name r @ [LF]
      | (Some m, None) \<Rightarrow> ''# '' @ mac_display m @ '' (no host record; serving defaults)'' @ [LF]
      | (None, _) \<Rightarrow> ''# no MAC supplied; serving the default boot'' @ [LF])"

definition render :: "config \<Rightarrow> boot_plan \<Rightarrow> string" where
  "render cfg plan =
     ''#!ipxe'' @ [LF, LF] @ greeting plan
     @ (if bp_portal plan = None
        then ''# WARNING: no NVMe/TCP portal for this host. The kernel will boot but'' @ [LF]
             @ ''# the initramfs has nowhere to attach root from.'' @ [LF]
        else [])
     @ [LF] @ ''set base '' @ base_url cfg @ [LF]
     @ ''kernel ${base}/boot/vmlinuz initrd=initramfs.img '' @ plan_cmdline plan cfg @ [LF]
     @ ''initrd ${base}/boot/initramfs.img'' @ [LF]
     @ ''boot'' @ [LF]"

end
