(* ===== verification/Metrics.thy ===== *)
theory Metrics
  imports Boot_State Hosts
begin

text \<open>
  Counters and their exposition (\<open>crates/stormnetboot-server/src/metrics.rs\<close>): eleven 64-bit
  counters that wrap, and the text that a scrape reads. The version of the package is an
  argument.
\<close>

record metrics =
  mt_requests_total :: u64
  mt_boot_script_requests :: u64
  mt_asset_requests :: u64
  mt_not_found :: u64
  mt_refused :: u64
  mt_claim_failures :: u64
  mt_pallet_refreshes :: u64
  mt_pallet_refresh_failures :: u64
  mt_status_writes :: u64
  mt_status_write_failures :: u64
  mt_watch_errors :: u64

definition metrics_default :: metrics where
  "metrics_default =
     \<lparr>mt_requests_total = 0, mt_boot_script_requests = 0, mt_asset_requests = 0, mt_not_found = 0,
      mt_refused = 0, mt_claim_failures = 0, mt_pallet_refreshes = 0, mt_pallet_refresh_failures = 0,
      mt_status_writes = 0, mt_status_write_failures = 0, mt_watch_errors = 0\<rparr>"

text \<open>\<open>fetch_add(1)\<close>: addition that wraps.\<close>

definition incr :: "u64 \<Rightarrow> u64" where
  "incr c = c + 1"

definition counters :: "metrics \<Rightarrow> (string \<times> string \<times> u64) list" where
  "counters mt =
     [(''stormnetboot_requests_total'', ''Total HTTP requests served.'', mt_requests_total mt),
      (''stormnetboot_boot_script_requests_total'', ''Rendered iPXE boot scripts served.'', mt_boot_script_requests mt),
      (''stormnetboot_asset_requests_total'', ''Boot asset requests (kernel, initramfs, ISO, iPXE binaries).'', mt_asset_requests mt),
      (''stormnetboot_not_found_total'', ''Requests that matched no route or asset.'', mt_not_found mt),
      (''stormnetboot_refused_total'', ''Boot requests refused (unknown host, host marked offline, or unparseable MAC).'', mt_refused mt),
      (''stormnetboot_claim_failures_total'', ''Failures claiming a per-host root volume.'', mt_claim_failures mt),
      (''stormnetboot_pallet_refreshes_total'', ''Boot pallet refreshes that changed what is served.'', mt_pallet_refreshes mt),
      (''stormnetboot_pallet_refresh_failures_total'', ''Failed attempts to refresh the boot pallet.'', mt_pallet_refresh_failures mt),
      (''stormnetboot_status_writes_total'', ''BootHost status subresource patches written.'', mt_status_writes mt),
      (''stormnetboot_status_write_failures_total'', ''Failed BootHost status patches.'', mt_status_write_failures mt),
      (''stormnetboot_watch_errors_total'', ''Errors returned by the BootHost watch.'', mt_watch_errors mt)]"

definition counter_text :: "string \<times> string \<times> u64 \<Rightarrow> string" where
  "counter_text = (\<lambda>(name, help, value).
     ''# HELP '' @ name @ '' '' @ help @ [LF] @ ''# TYPE '' @ name @ '' counter'' @ [LF]
       @ name @ '' '' @ show_word value @ [LF])"

definition phase_text :: "phase \<times> nat \<Rightarrow> string" where
  "phase_text = (\<lambda>(ph, count).
     ''stormnetboot_hosts{phase='' @ [DQUOTE] @ slug ph @ [DQUOTE] @ ''} '' @ show_nat count @ [LF])"

definition metrics_render :: "string \<Rightarrow> metrics \<Rightarrow> (phase \<times> nat) list \<Rightarrow> host_counts \<Rightarrow> string" where
  "metrics_render version mt phases hc =
     ''# HELP stormnetboot_build_info Build information.'' @ [LF]
     @ ''# TYPE stormnetboot_build_info gauge'' @ [LF]
     @ ''stormnetboot_build_info{version='' @ [DQUOTE] @ version @ [DQUOTE] @ ''} 1'' @ [LF]
     @ concat (map counter_text (counters mt))
     @ ''# HELP stormnetboot_hosts Hosts currently tracked, by boot phase.'' @ [LF]
     @ ''# TYPE stormnetboot_hosts gauge'' @ [LF]
     @ concat (map phase_text phases)
     @ ''# HELP stormnetboot_host_records Host records held, by source layer.'' @ [LF]
     @ ''# TYPE stormnetboot_host_records gauge'' @ [LF]
     @ ''stormnetboot_host_records{source='' @ [DQUOTE] @ ''file'' @ [DQUOTE] @ ''} '' @ show_nat (hc_file hc) @ [LF]
     @ ''stormnetboot_host_records{source='' @ [DQUOTE] @ ''boothost'' @ [DQUOTE] @ ''} '' @ show_nat (hc_kube hc) @ [LF]
     @ ''# HELP stormnetboot_boothost_synced Whether the BootHost watch has listed the cluster.'' @ [LF]
     @ ''# TYPE stormnetboot_boothost_synced gauge'' @ [LF]
     @ ''stormnetboot_boothost_synced '' @ (if hc_kube_synced hc then ''1'' else ''0'') @ [LF]"

end
