(* ===== verification/Stormsig.thy ===== *)
theory Stormsig
  imports Mac_Address
begin

text \<open>
  Boot pallet signatures (\<open>crates/stormnetboot-server/src/stormsig.rs\<close>): the fixed 64-byte
  statement, its parser and the verifier of a signature document. The hex and Ed25519 packages
  (and the hash the pallet code uses) are arguments, gathered in a record: hex printing and
  reading, whether 32 bytes are a valid public key, strict verification of a message, SHA-256.
  The lemmas say exactly which documents are accepted, in terms of those operations.
\<close>

record crypto =
  cx_hex_encode :: "u8 list \<Rightarrow> string"
  cx_hex_decode :: "string \<Rightarrow> u8 list option"
  cx_key_ok :: "u8 list \<Rightarrow> bool"
  cx_verify_strict :: "u8 list \<Rightarrow> u8 list \<Rightarrow> u8 list \<Rightarrow> bool"
  cx_sha256 :: "u8 list \<Rightarrow> u8 list"

definition byte_of :: "char \<Rightarrow> u8" where
  "byte_of c = of_nat (code_of c)"

definition bytes_of :: "string \<Rightarrow> u8 list" where
  "bytes_of s = map byte_of s"

section \<open>Statements\<close>

definition SIGNATURE_ARTIFACT_TYPE :: string where
  "SIGNATURE_ARTIFACT_TYPE = ''application/vnd.stormblock.signature.v1+json''"

definition MAGIC :: "u8 list" where
  "MAGIC = bytes_of ''STORMSIG''"

definition STATEMENT_LEN :: nat where
  "STATEMENT_LEN = 64"

definition STATEMENT_VERSION :: u8 where
  "STATEMENT_VERSION = 1"

definition slice :: "nat \<Rightarrow> nat \<Rightarrow> 'a list \<Rightarrow> 'a list" where
  "slice i j xs = take (j - i) (drop i xs)"

datatype subject_kind = OtherKind | PalletKind | StackKind

definition subject_kind_from_u8 :: "u8 \<Rightarrow> subject_kind" where
  "subject_kind_from_u8 v = (if v = 1 then PalletKind else if v = 2 then StackKind else OtherKind)"

record signature_doc =
  sd_subject :: string
  sd_subject_kind :: string
  sd_public_key :: string
  sd_key_id :: string
  sd_signature :: string
  sd_signed_at :: u64
  sd_statement :: string

datatype verify_error =
    StatementLength nat
  | BadMagic
  | UnsupportedVersion u8
  | NotHexField string
  | BadPublicKey
  | BadSignature
  | SubjectMismatch string string
  | Untrusted string
  | Invalid

fun verify_error_display :: "verify_error \<Rightarrow> string" where
  "verify_error_display (StatementLength n) = ''statement is '' @ show_nat n @ '' bytes, expected 64''"
| "verify_error_display BadMagic = ''statement magic is not STORMSIG''"
| "verify_error_display (UnsupportedVersion v) = ''statement version '' @ show_word v @ '' is newer than this reader''"
| "verify_error_display (NotHexField field) = field @ '' is not valid hex''"
| "verify_error_display BadPublicKey = ''public key is not a valid Ed25519 key''"
| "verify_error_display BadSignature = ''signature is not 64 bytes''"
| "verify_error_display (SubjectMismatch covered expected) =
     ''signature covers '' @ covered @ '' but we are verifying '' @ expected"
| "verify_error_display (Untrusted key_id) = ''key '' @ key_id @ '' is not trusted''"
| "verify_error_display Invalid = ''signature does not verify''"

record statement =
  sm_subject_hex :: string
  sm_subject_kind :: subject_kind
  sm_signed_at :: u64

text \<open>\<open>u64::from_le_bytes\<close>.\<close>

fun from_le_bytes :: "u8 list \<Rightarrow> u64" where
  "from_le_bytes [] = 0"
| "from_le_bytes (b # bs) = ucast b + 256 * from_le_bytes bs"

definition parse_statement :: "crypto \<Rightarrow> u8 list \<Rightarrow> verify_error + statement" where
  "parse_statement X bytes =
     (if length bytes \<noteq> STATEMENT_LEN then Inl (StatementLength (length bytes))
      else if take (length MAGIC) bytes \<noteq> MAGIC then Inl BadMagic
      else if bytes ! 8 \<noteq> STATEMENT_VERSION then Inl (UnsupportedVersion (bytes ! 8))
      else Inr \<lparr>sm_subject_hex = cx_hex_encode X (slice 16 48 bytes),
                sm_subject_kind = subject_kind_from_u8 (bytes ! 9),
                sm_signed_at = from_le_bytes (slice 48 56 bytes)\<rparr>)"

text \<open>The signer's side of the layout, as the tests build a statement.\<close>

fun to_le_bytes :: "nat \<Rightarrow> nat \<Rightarrow> u8 list" where
  "to_le_bytes 0 n = []"
| "to_le_bytes (Suc k) n = of_nat (n mod 256) # to_le_bytes k (n div 256)"

definition statement_bytes :: "u8 list \<Rightarrow> u8 \<Rightarrow> u64 \<Rightarrow> u8 list" where
  "statement_bytes subject_raw kind signed_at =
     MAGIC @ [STATEMENT_VERSION, kind] @ replicate 6 0 @ subject_raw
       @ to_le_bytes 8 (unat signed_at) @ replicate 8 0"

section \<open>Verification\<close>

text \<open>\<open>trim_start_matches\<close> removes the prefix as often as it occurs.\<close>

lemma starts_with_nonempty: "starts_with p s \<Longrightarrow> p \<noteq> [] \<Longrightarrow> s \<noteq> []"
  by (auto simp: starts_with_def)

function trim_start_matches :: "string \<Rightarrow> string \<Rightarrow> string" where
  "trim_start_matches p s =
     (if p \<noteq> [] \<and> starts_with p s then trim_start_matches p (drop (length p) s) else s)"
  by pat_completeness auto
termination
  by (relation "measure (\<lambda>(p, s). length s)") (auto dest: starts_with_nonempty)

declare trim_start_matches.simps [simp del]

definition normalise_digest :: "string \<Rightarrow> string" where
  "normalise_digest digest = lowercase (trim_start_matches ''sha256:'' (trim digest))"

definition is_trusted :: "signature_doc \<Rightarrow> string list \<Rightarrow> bool" where
  "is_trusted doc trusted_keys =
     list_ex (\<lambda>t0. let t = lowercase (trim t0)
                   in t \<noteq> [] \<and> (t = lowercase (sd_public_key doc) \<or> t = lowercase (sd_key_id doc)))
       trusted_keys"

definition verify :: "crypto \<Rightarrow> signature_doc \<Rightarrow> string \<Rightarrow> string list \<Rightarrow> verify_error + statement" where
  "verify X doc subject_digest trusted_keys =
     (if \<not> is_trusted doc trusted_keys then Inl (Untrusted (lowercase (sd_key_id doc)))
      else (case cx_hex_decode X (trim (sd_statement doc)) of
        None \<Rightarrow> Inl (NotHexField ''statement'')
      | Some stmt \<Rightarrow>
          (case parse_statement X stmt of
             Inl e \<Rightarrow> Inl e
           | Inr st \<Rightarrow>
               (let expected = normalise_digest subject_digest
                in if sm_subject_hex st \<noteq> expected then Inl (SubjectMismatch (sm_subject_hex st) expected)
                   else (case cx_hex_decode X (lowercase (sd_public_key doc)) of
                     None \<Rightarrow> Inl (NotHexField ''public_key'')
                   | Some key \<Rightarrow>
                       if length key \<noteq> 32 \<or> \<not> cx_key_ok X key then Inl BadPublicKey
                       else (case cx_hex_decode X (trim (sd_signature doc)) of
                         None \<Rightarrow> Inl (NotHexField ''signature'')
                       | Some sg \<Rightarrow>
                           if length sg \<noteq> 64 then Inl BadSignature
                           else if \<not> cx_verify_strict X key stmt sg then Inl Invalid
                           else Inr st))))))"

section \<open>Properties\<close>

lemma length_MAGIC [simp]: "length MAGIC = 8"
  by (simp add: MAGIC_def bytes_of_def)

lemma length_to_le_bytes [simp]: "length (to_le_bytes k n) = k"
  by (induction k arbitrary: n) auto

lemma slice_statement:
  fixes kind :: u8
  assumes "length subject_raw = 32" "length r = 6" "length ts = 8" "length r' = 8"
  defines "b \<equiv> MAGIC @ [STATEMENT_VERSION, kind] @ r @ subject_raw @ ts @ r'"
  shows "length b = 64" "take 8 b = MAGIC" "b ! 8 = STATEMENT_VERSION" "b ! 9 = kind"
    "slice 16 48 b = subject_raw" "slice 48 56 b = ts"
  using assms by (simp_all add: slice_def nth_append)

lemma from_to_le_bytes: "from_le_bytes (to_le_bytes k n) = of_nat (n mod 256 ^ k)"
proof (induction k arbitrary: n)
  case (Suc k)
  have "take_bit 8 (n mod 256) = n mod 256" by (simp add: take_bit_eq_mod)
  then have "ucast (of_nat (n mod 256) :: u8) = (of_nat (n mod 256) :: u64)"
    by (simp add: unsigned_of_nat)
  then show ?case
    using Suc.IH [of "n div 256"] by (simp add: mod_mult2_eq add.commute)
qed simp

text \<open>A statement built by the signer parses back to the digest, the kind and the time that
  were put into it.\<close>

theorem statement_round_trip:
  assumes "length subject_raw = 32"
  shows "parse_statement X (statement_bytes subject_raw kind t) =
    Inr \<lparr>sm_subject_hex = cx_hex_encode X subject_raw, sm_subject_kind = subject_kind_from_u8 kind,
         sm_signed_at = t\<rparr>"
proof -
  have "unat t < 256 ^ 8" using unsigned_less [of t] by simp
  then have "from_le_bytes (to_le_bytes 8 (unat t)) = t"
    by (simp add: from_to_le_bytes)
  with slice_statement [OF assms, of "replicate 6 0" "to_le_bytes 8 (unat t)" "replicate 8 0"] show ?thesis
    by (simp add: parse_statement_def STATEMENT_LEN_def statement_bytes_def)
qed

text \<open>A document is accepted exactly when its key is trusted, its statement parses and names the
  digest asked about, and the signature over the statement bytes as stored verifies under its
  public key.\<close>

lemma verify_accepts:
  "verify X doc d keys = Inr st \<longleftrightarrow>
     is_trusted doc keys \<and>
     (\<exists>stmt key sg. cx_hex_decode X (trim (sd_statement doc)) = Some stmt
        \<and> parse_statement X stmt = Inr st \<and> sm_subject_hex st = normalise_digest d
        \<and> cx_hex_decode X (lowercase (sd_public_key doc)) = Some key \<and> length key = 32 \<and> cx_key_ok X key
        \<and> cx_hex_decode X (trim (sd_signature doc)) = Some sg \<and> length sg = 64
        \<and> cx_verify_strict X key stmt sg)"
  by (auto simp: verify_def Let_def split: option.splits sum.splits)

lemma lowercase_Nil_iff [simp]: "lowercase s = [] \<longleftrightarrow> s = []"
  by (simp add: lowercase_def)

lemma is_trusted_iff:
  "is_trusted doc keys \<longleftrightarrow> (\<exists>t \<in> set keys. lowercase (trim t) \<noteq> []
     \<and> (lowercase (trim t) = lowercase (sd_public_key doc) \<or> lowercase (trim t) = lowercase (sd_key_id doc)))"
  by (simp add: is_trusted_def Let_def list_ex_iff)

text \<open>A concrete instance of the packages: lower-case hex as the \<open>hex\<close> crate prints and reads it,
  and a toy signature (the key twice) in the place of the signature scheme.\<close>

fun hex_pairs :: "string \<Rightarrow> u8 list option" where
  "hex_pairs [] = Some []"
| "hex_pairs [c] = None"
| "hex_pairs (c # d # s) =
     (case (to_digit16 c, to_digit16 d) of
        (Some x, Some y) \<Rightarrow> map_option ((#) (octet_of [x, y] 0)) (hex_pairs s)
      | _ \<Rightarrow> None)"

definition demo_crypto :: crypto where
  "demo_crypto =
     \<lparr>cx_hex_encode = \<lambda>bs. concat (map hex2 bs), cx_hex_decode = hex_pairs,
      cx_key_ok = \<lambda>_. True, cx_verify_strict = \<lambda>key stmt sg. sg = key @ key,
      cx_sha256 = \<lambda>bs. replicate 31 0 @ [sum_list bs]\<rparr>"

definition demo_signed :: "u8 \<Rightarrow> u8 list \<Rightarrow> signature_doc" where
  "demo_signed k raw =
     \<lparr>sd_subject = ''sha256:'' @ concat (map hex2 raw), sd_subject_kind = ''pallet'',
      sd_public_key = concat (replicate 32 (hex2 k)), sd_key_id = concat (replicate 8 (hex2 k)),
      sd_signature = concat (replicate 64 (hex2 k)), sd_signed_at = 1,
      sd_statement = concat (map hex2 (statement_bytes raw 1 1))\<rparr>"

abbreviation demo_doc :: "u8 \<Rightarrow> signature_doc" where
  "demo_doc k \<equiv> demo_signed k (replicate 32 0xab)"

definition demo_digest :: string where
  "demo_digest = ''sha256:'' @ concat (replicate 32 ''ab'')"

lemma demo_accepted:
  "verify demo_crypto (demo_doc 7) demo_digest [concat (replicate 32 ''07'')] =
    Inr \<lparr>sm_subject_hex = concat (replicate 32 ''ab''), sm_subject_kind = PalletKind, sm_signed_at = 1\<rparr>"
  by code_simp

text \<open>C27: A document names one subject: if it is accepted for two digests, under whatever keys,
  the two are the same digest up to the spelling of its prefix and case.\<close>

theorem no_replay:
  assumes "verify X doc d keys = Inr st" "verify X doc d' keys' = Inr st'"
  shows "normalise_digest d = normalise_digest d' \<and> st = st'"
  using assms by (auto simp: verify_accepts)

theorem no_replay_witness:
  "normalise_digest demo_digest = normalise_digest (concat (replicate 32 ''AB''))"
proof -
  have "verify demo_crypto (demo_doc 7) (concat (replicate 32 ''AB'')) [concat (replicate 8 ''07'')] =
    Inr \<lparr>sm_subject_hex = concat (replicate 32 ''ab''), sm_subject_kind = PalletKind, sm_signed_at = 1\<rparr>"
    by code_simp
  from no_replay [OF demo_accepted this] show ?thesis by simp
qed

text \<open>The trust check does not bind the key that signs: a document that its author signed with
  a key of their own is accepted under any set of trusted keys, once its key id is set to the
  spelling of a trusted one.\<close>

theorem key_id_not_bound:
  assumes "verify X doc d [sd_public_key doc] = Inr st"
    and "t \<in> set keys" "trim t \<noteq> []"
  shows "verify X (doc\<lparr>sd_key_id := trim t\<rparr>) d keys = Inr st"
  using assms by (fastforce simp: verify_accepts is_trusted_iff)

theorem key_id_not_bound_witness:
  "verify demo_crypto ((demo_doc 7)\<lparr>sd_key_id := concat (replicate 32 ''09'')\<rparr>) demo_digest
     [concat (replicate 32 ''09'')] =
    Inr \<lparr>sm_subject_hex = concat (replicate 32 ''ab''), sm_subject_kind = PalletKind, sm_signed_at = 1\<rparr>"
proof -
  let ?t = "concat (replicate 32 ''09'')"
  have t: "trim ?t = ?t" by code_simp
  have "verify demo_crypto (demo_doc 7) demo_digest [sd_public_key (demo_doc 7)] =
    Inr \<lparr>sm_subject_hex = concat (replicate 32 ''ab''), sm_subject_kind = PalletKind, sm_signed_at = 1\<rparr>"
    by code_simp
  then show ?thesis
    using key_id_not_bound [where t = ?t and keys = "[?t]" and doc = "demo_doc 7"] t by simp
qed

theorem statement_round_trip_witness:
  "parse_statement demo_crypto (statement_bytes (replicate 32 0xab) 1 1) =
    Inr \<lparr>sm_subject_hex = concat (replicate 32 ''ab''), sm_subject_kind = PalletKind, sm_signed_at = 1\<rparr>"
proof -
  have "cx_hex_encode demo_crypto (replicate 32 0xab) = concat (replicate 32 ''ab'')" by code_simp
  then show ?thesis
    using statement_round_trip [of "replicate 32 0xab" demo_crypto 1 1]
    by (simp add: subject_kind_from_u8_def)
qed

text \<open>The reserved bytes and the subject kind are read past: any values of them are accepted.\<close>

lemma reserved_bytes_ignored:
  assumes "length r = 6" "length subject_raw = 32" "length ts = 8" "length r' = 8"
  shows "parse_statement X (MAGIC @ [STATEMENT_VERSION, kind] @ r @ subject_raw @ ts @ r') =
    Inr \<lparr>sm_subject_hex = cx_hex_encode X subject_raw, sm_subject_kind = subject_kind_from_u8 kind,
         sm_signed_at = from_le_bytes ts\<rparr>"
  using slice_statement [OF assms(2,1,3,4)] by (simp add: parse_statement_def STATEMENT_LEN_def)

end
