(* ===== verification/Pallet.thy ===== *)
theory Pallet
  imports Stormsig
begin

text \<open>
  Boot pallet projection (\<open>crates/stormnetboot-server/src/pallet.rs\<close>): resolving a reference to a
  manifest, checking its signature, and materialising its members in the cache directory that
  is served to machines. The registry is a function from URLs to responses (any function: a
  registry is not trusted), the JSON readers are partial functions on bytes, and the file system
  answers each write and rename with its outcome, a failed write leaving any content behind.
  The cache is a map from file names to contents, threaded through every operation, so that
  what a failing refresh leaves behind is part of the model. The lemmas show what a refresh can
  put under a served name, that an unsigned pallet changes nothing when signatures are required,
  and that a refresh that reports success has produced a bootable cache.
\<close>

section \<open>Documents\<close>

definition PALLET_ARTIFACT_TYPE :: string where
  "PALLET_ARTIFACT_TYPE = ''application/vnd.stormblock.pallet.v1+json''"

definition PALLET_CONFIG_TYPE :: string where
  "PALLET_CONFIG_TYPE = ''application/vnd.stormblock.pallet.config.v1+json''"

definition MEMBER_MEDIA_PREFIX :: string where
  "MEMBER_MEDIA_PREFIX = ''application/vnd.stormblock.member.''"

definition ANNOTATION_ROLE :: string where
  "ANNOTATION_ROLE = ''org.stormblock.member.role''"

definition ANNOTATION_NAME :: string where
  "ANNOTATION_NAME = ''org.stormblock.member.name''"

record asset_status =
  as_ready :: bool
  as_detail :: string
  as_version :: "string option"
  as_digest :: "string option"
  as_signature_verified :: bool

definition asset_status_default :: asset_status where
  "asset_status_default =
     \<lparr>as_ready = False, as_detail = ''no boot pallet fetched yet'', as_version = None,
      as_digest = None, as_signature_verified = False\<rparr>"

record descriptor =
  ds_media_type :: string
  ds_digest :: string
  ds_size :: u64
  ds_artifact_type :: "string option"
  ds_annotations :: "(string \<times> string) list"

record manifest =
  mf_artifact_type :: "string option"
  mf_config :: descriptor
  mf_layers :: "descriptor list"
  mf_annotations :: "(string \<times> string) list"

record member_def =
  md_name :: string
  md_role :: string
  md_source :: string
  md_digest :: "string option"
  md_text :: "string option"

record pallet_spec =
  ps_name :: string
  ps_kind :: string
  ps_version_label :: string
  ps_members :: "member_def list"

definition pallet_spec_default :: pallet_spec where
  "pallet_spec_default = \<lparr>ps_name = [], ps_kind = [], ps_version_label = [], ps_members = []\<rparr>"

definition filename_for_role :: "string \<Rightarrow> string option" where
  "filename_for_role role =
     (if role = ''kernel'' then Some ''vmlinuz''
      else if role = ''initramfs'' then Some ''initramfs.img''
      else if role = ''cmdline'' \<or> role = ''bootconfig'' then Some ''cmdline''
      else None)"

definition inline_text :: "pallet_spec \<Rightarrow> string \<Rightarrow> string option" where
  "inline_text spec role =
     Option.bind (find (\<lambda>m. md_source m = ''inline'' \<and> (md_role m = role \<or> md_name m = role)) (ps_members spec))
       md_text"

definition member_role :: "descriptor \<Rightarrow> string option" where
  "member_role layer =
     (case map_of (ds_annotations layer) ANNOTATION_ROLE of
        Some role \<Rightarrow> Some role
      | None \<Rightarrow>
          (case map_of (ds_annotations layer) ANNOTATION_NAME of
             Some name \<Rightarrow> Some name
           | None \<Rightarrow> strip_prefix MEMBER_MEDIA_PREFIX (ds_media_type layer)))"

section \<open>The registry and the file system\<close>

text \<open>A response: its status, the digest header when it is readable text, and the body when it
  arrived whole.\<close>

datatype http_response = NoResponse | Response nat "string option" "u8 list option"

definition is_success :: "nat \<Rightarrow> bool" where
  "is_success s \<longleftrightarrow> 200 \<le> s \<and> s < 300"

type_synonym cache = "string \<Rightarrow> u8 list option"

text \<open>A failed write leaves what it leaves: nothing, the old content or a part of the new one.\<close>

datatype write_outcome = Written | WriteFailed "u8 list option"

record pallet_env =
  pe_get :: "string \<Rightarrow> http_response"
  pe_manifest :: "u8 list \<Rightarrow> manifest option"
  pe_index :: "u8 list \<Rightarrow> descriptor list option"
  pe_spec :: "u8 list \<Rightarrow> pallet_spec option"
  pe_doc :: "u8 list \<Rightarrow> signature_doc option"
  pe_mkdir :: bool
  pe_write :: "string \<Rightarrow> write_outcome"
  pe_rename :: "string \<Rightarrow> bool"
  pe_crypto :: crypto

record pallet_source =
  src_registry :: string
  src_repo :: string
  src_reference :: string
  src_trusted_keys :: "string list"
  src_require_signature :: bool

record refreshed =
  rf_status :: asset_status
  rf_changed :: bool

datatype signature_problem = ManifestUnparseable | DocUnparseable | Rejected verify_error

datatype pallet_error =
    GetFailed string
  | HttpStatus string nat
  | BodyFailed string
  | ManifestDigestMismatch string string
  | IndexUnparseable
  | NoAcceptableSignature string signature_problem
  | NoTrustedSignature string
  | ManifestNotReadable
  | NotAPallet
  | CreateDirFailed
  | WriteError string
  | RenameError string
  | MemberDigestMismatch string string string
  | MemberSizeMismatch string u64 nat
  | FetchingMember string string pallet_error
  | MissingKernelOrInitramfs "string list"

definition pallet_source_new ::
  "string \<Rightarrow> string \<Rightarrow> string \<Rightarrow> string list \<Rightarrow> bool \<Rightarrow> pallet_source" where
  "pallet_source_new registry repo reference trusted_keys require_signature =
     \<lparr>src_registry = trim_end_matches (\<lambda>c. c = CHR ''/'') registry, src_repo = repo,
      src_reference = reference, src_trusted_keys = trusted_keys,
      src_require_signature = require_signature\<rparr>"

definition sha256_text :: "pallet_env \<Rightarrow> u8 list \<Rightarrow> string" where
  "sha256_text env bytes = ''sha256:'' @ cx_hex_encode (pe_crypto env) (cx_sha256 (pe_crypto env) bytes)"

definition repo_url :: "pallet_source \<Rightarrow> string \<Rightarrow> string \<Rightarrow> string" where
  "repo_url src kind ref = src_registry src @ ''/v2/'' @ src_repo src @ ''/'' @ kind @ ''/'' @ ref"

text \<open>Sending a request, refusing a status that is not a success, reading the body.\<close>

definition get_body :: "pallet_env \<Rightarrow> string \<Rightarrow> pallet_error + (string option \<times> u8 list)" where
  "get_body env url =
     (case pe_get env url of
        NoResponse \<Rightarrow> Inl (GetFailed url)
      | Response status header body \<Rightarrow>
          if \<not> is_success status then Inl (HttpStatus url status)
          else (case body of None \<Rightarrow> Inl (BodyFailed url) | Some bytes \<Rightarrow> Inr (header, bytes)))"

definition fetch_manifest :: "pallet_env \<Rightarrow> pallet_source \<Rightarrow> pallet_error + (u8 list \<times> string)" where
  "fetch_manifest env src =
     (case get_body env (repo_url src ''manifests'' (src_reference src)) of
        Inl e \<Rightarrow> Inl e
      | Inr (header, bytes) \<Rightarrow>
          let computed = sha256_text env bytes
          in (case header of
                None \<Rightarrow> Inr (bytes, computed)
              | Some h \<Rightarrow>
                  if lowercase h \<noteq> computed then Inl (ManifestDigestMismatch h computed)
                  else Inr (bytes, h)))"

definition fetch_blob_or_manifest ::
  "pallet_env \<Rightarrow> pallet_source \<Rightarrow> string \<Rightarrow> bool \<Rightarrow> pallet_error + u8 list" where
  "fetch_blob_or_manifest env src digest is_manifest =
     map_sum id snd (get_body env (repo_url src (if is_manifest then ''manifests'' else ''blobs'') digest))"

section \<open>Signatures\<close>

text \<open>The loop over the referrers, with the last problem found.\<close>

fun check_referrers ::
  "pallet_env \<Rightarrow> pallet_source \<Rightarrow> string \<Rightarrow> descriptor list \<Rightarrow> signature_problem option
     \<Rightarrow> pallet_error + bool" where
  "check_referrers env src subject [] last_error =
     (case last_error of Some e \<Rightarrow> Inl (NoAcceptableSignature subject e) | None \<Rightarrow> Inr False)"
| "check_referrers env src subject (referrer # rest) last_error =
     (if ds_artifact_type referrer \<noteq> Some SIGNATURE_ARTIFACT_TYPE
      then check_referrers env src subject rest last_error
      else (case fetch_blob_or_manifest env src (ds_digest referrer) True of
        Inl e \<Rightarrow> Inl e
      | Inr manifest_bytes \<Rightarrow>
          (case pe_manifest env manifest_bytes of
            None \<Rightarrow> check_referrers env src subject rest (Some ManifestUnparseable)
          | Some m \<Rightarrow>
              (case fetch_blob_or_manifest env src (ds_digest (mf_config m)) False of
                Inl e \<Rightarrow> Inl e
              | Inr doc_bytes \<Rightarrow>
                  (case pe_doc env doc_bytes of
                    None \<Rightarrow> check_referrers env src subject rest (Some DocUnparseable)
                  | Some doc \<Rightarrow>
                      (case verify (pe_crypto env) doc subject (src_trusted_keys src) of
                        Inr statement \<Rightarrow> Inr True
                      | Inl e \<Rightarrow> check_referrers env src subject rest (Some (Rejected e))))))))"

definition referrers_url :: "pallet_source \<Rightarrow> string \<Rightarrow> string" where
  "referrers_url src subject =
     repo_url src ''referrers'' subject @ ''?artifactType='' @ SIGNATURE_ARTIFACT_TYPE"

definition verify_signature :: "pallet_env \<Rightarrow> pallet_source \<Rightarrow> string \<Rightarrow> pallet_error + bool" where
  "verify_signature env src subject =
     (if src_trusted_keys src = [] then Inr False
      else (case pe_get env (referrers_url src subject) of
        NoResponse \<Rightarrow> Inl (GetFailed (referrers_url src subject))
      | Response status header body \<Rightarrow>
          if \<not> is_success status then Inr False
          else (case Option.bind body (pe_index env) of
                  None \<Rightarrow> Inl IndexUnparseable
                | Some index \<Rightarrow> check_referrers env src subject index None)))"

section \<open>Members\<close>

text \<open>Writing a file, and renaming one onto another.\<close>

definition write_file :: "pallet_env \<Rightarrow> string \<Rightarrow> u8 list \<Rightarrow> cache \<Rightarrow> cache \<times> bool" where
  "write_file env name bytes c =
     (case pe_write env name of
        Written \<Rightarrow> (c(name := Some bytes), True)
      | WriteFailed left_behind \<Rightarrow> (c(name := left_behind), False))"

definition rename_file :: "pallet_env \<Rightarrow> string \<Rightarrow> string \<Rightarrow> cache \<Rightarrow> cache \<times> bool" where
  "rename_file env from to c =
     (if pe_rename env to then (c(to := c from, from := None), True) else (c, False))"

definition tmp_name :: "string \<Rightarrow> string" where
  "tmp_name filename = ''.'' @ filename @ ''.tmp''"

definition fetch_member ::
  "pallet_env \<Rightarrow> pallet_source \<Rightarrow> descriptor \<Rightarrow> string \<Rightarrow> cache \<Rightarrow> cache \<times> (pallet_error + unit)" where
  "fetch_member env src layer filename c =
     (case get_body env (repo_url src ''blobs'' (ds_digest layer)) of
        Inl e \<Rightarrow> (c, Inl e)
      | Inr (header, bytes) \<Rightarrow>
          let computed = sha256_text env bytes
          in if computed \<noteq> lowercase (ds_digest layer)
             then (c, Inl (MemberDigestMismatch filename (ds_digest layer) computed))
             else if ds_size layer \<noteq> 0 \<and> ds_size layer \<noteq> of_nat (length bytes)
             then (c, Inl (MemberSizeMismatch filename (ds_size layer) (length bytes)))
             else (case write_file env (tmp_name filename) bytes c of
                     (c1, False) \<Rightarrow> (c1, Inl (WriteError (tmp_name filename)))
                   | (c1, True) \<Rightarrow>
                       (case rename_file env (tmp_name filename) filename c1 of
                          (c2, False) \<Rightarrow> (c2, Inl (RenameError filename))
                        | (c2, True) \<Rightarrow> (c2, Inr ()))))"

text \<open>The body of the loop over the layers: a member without a served role is skipped, an inline
  member is written from the spec, any other is fetched. The name it is served under, if any.\<close>

definition fetch_layer ::
  "pallet_env \<Rightarrow> pallet_source \<Rightarrow> pallet_spec \<Rightarrow> descriptor \<Rightarrow> cache
     \<Rightarrow> cache \<times> (pallet_error + string option)" where
  "fetch_layer env src spec layer c =
     (case member_role layer of
        None \<Rightarrow> (c, Inr None)
      | Some role \<Rightarrow>
          (case filename_for_role role of
             None \<Rightarrow> (c, Inr None)
           | Some filename \<Rightarrow>
               (case inline_text spec role of
                  Some txt \<Rightarrow>
                    (case write_file env filename (bytes_of txt) c of
                       (c1, False) \<Rightarrow> (c1, Inl (WriteError filename))
                     | (c1, True) \<Rightarrow> (c1, Inr (Some filename)))
                | None \<Rightarrow>
                    (case fetch_member env src layer filename c of
                       (c1, Inl e) \<Rightarrow> (c1, Inl (FetchingMember role (ds_digest layer) e))
                     | (c1, Inr _) \<Rightarrow> (c1, Inr (Some filename))))))"

fun fetch_layers ::
  "pallet_env \<Rightarrow> pallet_source \<Rightarrow> pallet_spec \<Rightarrow> descriptor list \<Rightarrow> string list \<Rightarrow> cache
     \<Rightarrow> cache \<times> (pallet_error + string list)" where
  "fetch_layers env src spec [] served c = (c, Inr served)"
| "fetch_layers env src spec (layer # rest) served c =
     (case fetch_layer env src spec layer c of
        (c1, Inl e) \<Rightarrow> (c1, Inl e)
      | (c1, Inr None) \<Rightarrow> fetch_layers env src spec rest served c1
      | (c1, Inr (Some filename)) \<Rightarrow> fetch_layers env src spec rest (served @ [filename]) c1)"

section \<open>Refreshing\<close>

definition version_of :: "pallet_source \<Rightarrow> manifest \<Rightarrow> string option" where
  "version_of src m =
     (case map_of (mf_annotations m) ''org.stormblock.pallet.version_label'' of
        Some v \<Rightarrow> Some v
      | None \<Rightarrow>
          (case map_of (mf_annotations m) ''org.stormblock.pallet.version'' of
             Some v \<Rightarrow> Some v
           | None \<Rightarrow> Some (src_reference src)))"

definition status_for ::
  "pallet_env \<Rightarrow> pallet_source \<Rightarrow> u8 list \<Rightarrow> string \<Rightarrow> bool \<Rightarrow> bool \<Rightarrow> pallet_error + asset_status" where
  "status_for env src manifest_bytes digest ready signature_verified =
     (case pe_manifest env manifest_bytes of
        None \<Rightarrow> Inl ManifestNotReadable
      | Some m \<Rightarrow>
          Inr \<lparr>as_ready = ready, as_detail = src_repo src @ '':'' @ src_reference src,
               as_version = version_of src m, as_digest = Some digest,
               as_signature_verified = signature_verified\<rparr>)"

definition is_pallet :: "manifest \<Rightarrow> bool" where
  "is_pallet m \<longleftrightarrow>
     mf_artifact_type m = Some PALLET_ARTIFACT_TYPE \<or> ds_media_type (mf_config m) = PALLET_CONFIG_TYPE"

definition read_spec :: "pallet_env \<Rightarrow> pallet_source \<Rightarrow> manifest \<Rightarrow> pallet_spec" where
  "read_spec env src m =
     (case fetch_blob_or_manifest env src (ds_digest (mf_config m)) False of
        Inr bytes \<Rightarrow> (case pe_spec env bytes of Some spec \<Rightarrow> spec | None \<Rightarrow> pallet_spec_default)
      | Inl e \<Rightarrow> pallet_spec_default)"

text \<open>The part of \<open>refresh\<close> after the signature: reading the manifest and fetching its members.\<close>

definition materialise ::
  "pallet_env \<Rightarrow> pallet_source \<Rightarrow> u8 list \<Rightarrow> string \<Rightarrow> bool \<Rightarrow> cache \<Rightarrow> cache \<times> (pallet_error + refreshed)" where
  "materialise env src manifest_bytes digest signature_verified c =
     (case pe_manifest env manifest_bytes of
        None \<Rightarrow> (c, Inl ManifestNotReadable)
      | Some m \<Rightarrow>
          if \<not> is_pallet m then (c, Inl NotAPallet)
          else if \<not> pe_mkdir env then (c, Inl CreateDirFailed)
          else (case fetch_layers env src (read_spec env src m) (mf_layers m) [] c of
                  (c', Inl e) \<Rightarrow> (c', Inl e)
                | (c', Inr served) \<Rightarrow>
                    if ''vmlinuz'' \<notin> set served \<or> ''initramfs.img'' \<notin> set served
                    then (c', Inl (MissingKernelOrInitramfs served))
                    else (c', map_sum id (\<lambda>st. \<lparr>rf_status = st, rf_changed = True\<rparr>)
                                (status_for env src manifest_bytes digest True signature_verified))))"

definition refresh ::
  "pallet_env \<Rightarrow> pallet_source \<Rightarrow> string option \<Rightarrow> cache \<Rightarrow> cache \<times> (pallet_error + refreshed)" where
  "refresh env src current_digest c =
     (case fetch_manifest env src of
        Inl e \<Rightarrow> (c, Inl e)
      | Inr (manifest_bytes, digest) \<Rightarrow>
          if Some digest = current_digest
          then (c, map_sum id (\<lambda>st. \<lparr>rf_status = st, rf_changed = False\<rparr>)
                     (status_for env src manifest_bytes digest True True))
          else (case verify_signature env src digest of
                  Inl e \<Rightarrow> (c, Inl e)
                | Inr signature_verified \<Rightarrow>
                    if src_require_signature src \<and> \<not> signature_verified
                    then (c, Inl (NoTrustedSignature digest))
                    else materialise env src manifest_bytes digest signature_verified c))"

definition cache_is_complete :: "cache \<Rightarrow> bool" where
  "cache_is_complete c \<longleftrightarrow> c ''vmlinuz'' \<noteq> None \<and> c ''initramfs.img'' \<noteq> None"

section \<open>What a refresh can put under a served name\<close>

definition served_names :: "string set" where
  "served_names = {''vmlinuz'', ''initramfs.img'', ''cmdline''}"

lemma filename_served: "filename_for_role role = Some f \<Longrightarrow> f \<in> served_names"
  by (auto simp: filename_for_role_def served_names_def split: if_splits)

lemma tmp_not_served [simp]: "tmp_name f \<notin> served_names"
  by (simp add: tmp_name_def served_names_def)

lemma served_not_tmp: "f \<in> served_names \<Longrightarrow> f \<noteq> tmp_name g"
  using tmp_not_served by metis

text \<open>A layer explains content \<open>b\<close> under name \<open>f\<close>: the role of the layer is served under \<open>f\<close> and
  the content hashes to the digest of the layer.\<close>

definition explains :: "pallet_env \<Rightarrow> descriptor \<Rightarrow> string \<Rightarrow> u8 list \<Rightarrow> bool" where
  "explains env layer f b \<longleftrightarrow>
     Option.bind (member_role layer) filename_for_role = Some f
     \<and> sha256_text env b = lowercase (ds_digest layer)
     \<and> (ds_size layer = 0 \<or> ds_size layer = of_nat (length b))"

text \<open>A role served under \<open>f\<close> is inline in the specification.\<close>

definition inline_under :: "pallet_spec \<Rightarrow> descriptor list \<Rightarrow> string \<Rightarrow> bool" where
  "inline_under spec layers f \<longleftrightarrow>
     (\<exists>layer \<in> set layers. \<exists>role. member_role layer = Some role \<and> filename_for_role role = Some f
        \<and> inline_text spec role \<noteq> None)"

definition accounted ::
  "pallet_env \<Rightarrow> pallet_spec \<Rightarrow> descriptor list \<Rightarrow> cache \<Rightarrow> cache \<Rightarrow> string \<Rightarrow> bool" where
  "accounted env spec layers c c' f \<longleftrightarrow>
     c' f = c f \<or> inline_under spec layers f
     \<or> (\<exists>layer \<in> set layers. \<exists>b. c' f = Some b \<and> explains env layer f b)"

lemma accounted_refl: "accounted env spec layers c c f"
  by (simp add: accounted_def)

lemma accounted_weaken:
  "accounted env spec layers c c' f \<Longrightarrow> accounted env spec (layer # layers) c c' f"
  by (auto simp: accounted_def inline_under_def)

lemma accounted_step:
  "accounted env spec layers c1 c' f \<Longrightarrow> accounted env spec [layer] c c1 f \<Longrightarrow>
     accounted env spec (layer # layers) c c' f"
  by (auto simp: accounted_def inline_under_def)

lemma fetch_member_cases:
  assumes "fetch_member env src layer filename c = (c', r)" "f \<in> served_names" "filename \<in> served_names"
  shows "(c' f = c f \<and> (r = Inr () \<longrightarrow> f \<noteq> filename)) \<or>
    (f = filename \<and> r = Inr () \<and> (\<exists>b. c' f = Some b \<and> sha256_text env b = lowercase (ds_digest layer)
       \<and> (ds_size layer = 0 \<or> ds_size layer = of_nat (length b))))"
  using assms(1) served_not_tmp [OF assms(2)] served_not_tmp [OF assms(3)]
  by (auto simp: fetch_member_def write_file_def rename_file_def Let_def
      split: sum.splits prod.splits write_outcome.splits if_splits)

lemma fetch_layer_accounted:
  assumes "fetch_layer env src spec layer c = (c', r)" "f \<in> served_names"
  shows "accounted env spec [layer] c c' f"
proof -
  have fetched: "accounted env spec [layer] c c'' f"
    if "fetch_member env src layer filename c = (c'', r')" "member_role layer = Some role"
      "filename_for_role role = Some filename" for c'' r' role filename
    using fetch_member_cases [OF that(1) assms(2) filename_served [OF that(3)]] that(2,3)
    by (auto simp: accounted_def explains_def)
  have inlined: "accounted env spec [layer] c c'' f"
    if "write_file env filename b c = (c'', ok)" "member_role layer = Some role"
      "filename_for_role role = Some filename" "inline_text spec role = Some t" for c'' ok role filename b t
    using that by (auto simp: accounted_def inline_under_def write_file_def split: write_outcome.splits)
  show ?thesis
    using assms(1)
    by (auto simp: fetch_layer_def accounted_refl split: option.splits prod.splits bool.splits sum.splits
        intro: inlined fetched)
qed

text \<open>A layer that reports a name has put content under it, and no layer removes any.\<close>

lemma fetch_layer_served:
  assumes "fetch_layer env src spec layer c = (c', Inr r)" "f \<in> served_names"
  shows "(c f \<noteq> None \<longrightarrow> c' f \<noteq> None) \<and> (r = Some f \<longrightarrow> c' f \<noteq> None)"
proof -
  have fetched: "(c f \<noteq> None \<longrightarrow> c'' f \<noteq> None) \<and> (f = filename \<longrightarrow> c'' f \<noteq> None)"
    if "fetch_member env src layer filename c = (c'', Inr ())" "filename_for_role role = Some filename"
    for c'' role filename
    using fetch_member_cases [OF that(1) assms(2) filename_served [OF that(2)]] by auto
  show ?thesis
  proof (cases "Option.bind (member_role layer) filename_for_role")
    case None
    then show ?thesis using assms(1) by (auto simp: fetch_layer_def split: option.splits)
  next
    case (Some filename)
    then obtain role where "member_role layer = Some role" and fn: "filename_for_role role = Some filename"
      by (auto simp: bind_eq_Some_conv)
    then show ?thesis
      using assms(1) fetched [OF _ fn]
      by (auto simp: fetch_layer_def write_file_def
          split: option.splits prod.splits bool.splits sum.splits write_outcome.splits)
  qed
qed

lemma fetch_layer_name: "fetch_layer env src spec layer c = (c', Inr (Some f)) \<Longrightarrow> f \<in> served_names"
  by (auto simp: fetch_layer_def dest: filename_served
      split: option.splits prod.splits bool.splits sum.splits)

lemma fetch_layers_accounted:
  "fetch_layers env src spec layers served c = (c', r) \<Longrightarrow> f \<in> served_names \<Longrightarrow>
     accounted env spec layers c c' f"
proof (induction layers arbitrary: served c)
  case (Cons layer rest)
  obtain c1 o1 where o1: "fetch_layer env src spec layer c = (c1, o1)" by fastforce
  have one: "accounted env spec [layer] c c1 f" by (rule fetch_layer_accounted [OF o1 Cons.prems(2)])
  show ?case
    using Cons.prems(1) o1 one accounted_step [OF accounted_refl one] accounted_step [OF Cons.IH one] Cons.prems(2)
    by (auto split: sum.splits option.splits)
qed (simp add: accounted_refl)

lemma fetch_layers_served:
  "fetch_layers env src spec layers served c = (c', Inr names) \<Longrightarrow>
     \<forall>f \<in> set served. f \<in> served_names \<and> c f \<noteq> None \<Longrightarrow>
     \<forall>f \<in> set names. f \<in> served_names \<and> c' f \<noteq> None"
proof (induction layers arbitrary: served c)
  case (Cons layer rest)
  obtain c1 o1 where o1: "fetch_layer env src spec layer c = (c1, o1)" by fastforce
  show ?case
  proof (cases o1)
    case (Inl e)
    with Cons.prems(1) o1 show ?thesis by simp
  next
    case (Inr fo)
    let ?served = "served @ (case fo of None \<Rightarrow> [] | Some f \<Rightarrow> [f])"
    have "\<forall>f \<in> set ?served. f \<in> served_names \<and> c1 f \<noteq> None"
      using Cons.prems(2) o1 Inr fetch_layer_served [OF o1 [unfolded Inr]] fetch_layer_name [of env src spec layer c c1]
      by (auto split: option.splits)
    moreover have "fetch_layers env src spec rest ?served c1 = (c', Inr names)"
      using Cons.prems(1) o1 Inr by (simp split: option.splits)
    ultimately show ?thesis using Cons.IH by blast
  qed
qed simp

section \<open>Properties\<close>

lemma check_referrers_True:
  "check_referrers env src subject rs le = Inr True \<Longrightarrow>
     \<exists>doc st. verify (pe_crypto env) doc subject (src_trusted_keys src) = Inr st"
  by (induction rs arbitrary: le)
    (auto split: if_splits option.splits sum.splits)

lemma verify_signature_True:
  "verify_signature env src subject = Inr True \<Longrightarrow>
     \<exists>doc st. verify (pe_crypto env) doc subject (src_trusted_keys src) = Inr st"
  by (auto simp: verify_signature_def split: if_splits option.splits http_response.splits
      dest: check_referrers_True)

lemma fetch_manifest_digest:
  "fetch_manifest env src = Inr (bytes, digest) \<Longrightarrow> lowercase digest = lowercase (sha256_text env bytes)"
  by (auto simp: fetch_manifest_def Let_def split: sum.splits option.splits if_splits
      dest!: sym [of "lowercase _"])

lemma materialise_accounted:
  "materialise env src bytes digest sv c = (c', r) \<Longrightarrow> f \<in> served_names \<Longrightarrow>
     c' f = c f \<or> (\<exists>m. pe_manifest env bytes = Some m \<and> is_pallet m
       \<and> accounted env (read_spec env src m) (mf_layers m) c c' f)"
  by (auto simp: materialise_def split: option.splits if_splits prod.splits sum.splits
      dest: fetch_layers_accounted)

text \<open>Whatever a refresh leaves under a served name is what was there before, or is accounted
  for by the manifest fetched in this refresh: its bytes hash to the digest (and have the size)
  of one of the manifest's layers for that name, or the name is that of an inline member.\<close>

theorem refresh_integrity:
  assumes "refresh env src current c = (c', r)" "f \<in> served_names"
  shows "c' f = c f \<or>
    (\<exists>bytes digest m. fetch_manifest env src = Inr (bytes, digest) \<and> pe_manifest env bytes = Some m
       \<and> is_pallet m \<and> accounted env (read_spec env src m) (mf_layers m) c c' f)"
  using assms
  by (auto simp: refresh_def split: sum.splits prod.splits if_splits dest: materialise_accounted)

text \<open>C9: When signatures are required, a refresh changes the cache only after a document signed
  for the digest of the manifest it fetched was accepted under the trusted keys; and the bytes of
  that manifest hash to that digest.\<close>

theorem refresh_requires_signature:
  assumes "src_require_signature src" "refresh env src current c = (c', r)" "c' \<noteq> c"
  shows "\<exists>bytes digest doc st. fetch_manifest env src = Inr (bytes, digest)
    \<and> lowercase digest = lowercase (sha256_text env bytes)
    \<and> verify (pe_crypto env) doc digest (src_trusted_keys src) = Inr st"
proof -
  obtain bytes digest where fm: "fetch_manifest env src = Inr (bytes, digest)"
    and "verify_signature env src digest = Inr True"
    using assms by (auto simp: refresh_def split: sum.splits prod.splits if_splits)
  then show ?thesis
    using verify_signature_True fetch_manifest_digest [OF fm] by blast
qed

text \<open>A refresh that reports a changed pallet leaves a cache a machine can boot from, and a
  status that is ready and names the digest of the manifest.\<close>

theorem refresh_ready:
  assumes "refresh env src current c = (c', Inr r)" "rf_changed r"
  shows "cache_is_complete c' \<and> as_ready (rf_status r)
    \<and> (\<exists>bytes digest. fetch_manifest env src = Inr (bytes, digest)
         \<and> as_digest (rf_status r) = Some digest \<and> Some digest \<noteq> current)"
proof -
  obtain bytes digest sv where fm: "fetch_manifest env src = Inr (bytes, digest)" "Some digest \<noteq> current"
    and "materialise env src bytes digest sv c = (c', Inr r)"
    using assms
    by (auto simp: refresh_def map_sum_def split: sum.splits prod.splits if_splits)
  then obtain m names where l: "fetch_layers env src (read_spec env src m) (mf_layers m) [] c = (c', Inr names)"
    and n: "''vmlinuz'' \<in> set names" "''initramfs.img'' \<in> set names"
    and st: "as_ready (rf_status r) \<and> as_digest (rf_status r) = Some digest"
    by (auto simp: materialise_def status_for_def split: option.splits if_splits prod.splits sum.splits)
  have "\<forall>f \<in> set names. f \<in> served_names \<and> c' f \<noteq> None"
    by (rule fetch_layers_served [OF l]) simp
  with n fm st show ?thesis by (auto simp: cache_is_complete_def)
qed

section \<open>An instance of the registry\<close>

text \<open>A small registry: manifest, referrers, signature and two members, each one byte long. The
  specification it serves and the content of its initramfs are arguments.\<close>

definition demo_src :: pallet_source where
  "demo_src = pallet_source_new ''http://r/'' ''boot'' ''latest'' [concat (replicate 32 ''07'')] True"

definition demo_hash :: "u8 \<Rightarrow> string" where
  "demo_hash b = ''sha256:'' @ concat (map hex2 (replicate 31 0 @ [b]))"

definition demo_layer :: "string \<Rightarrow> string \<Rightarrow> descriptor" where
  "demo_layer role digest =
     \<lparr>ds_media_type = MEMBER_MEDIA_PREFIX @ role, ds_digest = digest, ds_size = 0,
      ds_artifact_type = Some SIGNATURE_ARTIFACT_TYPE, ds_annotations = []\<rparr>"

definition demo_get :: "u8 \<Rightarrow> string \<Rightarrow> http_response" where
  "demo_get initramfs url =
     (case map_of
        [(repo_url demo_src ''manifests'' ''latest'', 1), (referrers_url demo_src (demo_hash 1), 2),
         (repo_url demo_src ''manifests'' ''sig'', 3), (repo_url demo_src ''blobs'' ''doc'', 4),
         (repo_url demo_src ''blobs'' ''spec'', 5), (repo_url demo_src ''blobs'' (demo_hash 10), 10),
         (repo_url demo_src ''blobs'' (demo_hash 11), initramfs)] url of
        Some b \<Rightarrow> Response 200 None (Some [b])
      | None \<Rightarrow> Response 404 None (Some []))"

definition demo_manifest :: "string \<Rightarrow> manifest" where
  "demo_manifest config =
     \<lparr>mf_artifact_type = Some PALLET_ARTIFACT_TYPE, mf_config = demo_layer ''config'' config,
      mf_layers = [demo_layer ''kernel'' (demo_hash 10), demo_layer ''initramfs'' (demo_hash 11)],
      mf_annotations = []\<rparr>"

definition demo_env :: "pallet_spec \<Rightarrow> u8 \<Rightarrow> pallet_env" where
  "demo_env spec initramfs =
     \<lparr>pe_get = demo_get initramfs,
      pe_manifest = (\<lambda>b. if b = [1] then Some (demo_manifest ''spec'')
                         else if b = [3] then Some (demo_manifest ''doc'') else None),
      pe_index = (\<lambda>b. if b = [2] then Some [demo_layer ''sig'' ''sig''] else None),
      pe_spec = (\<lambda>b. if b = [5] then Some spec else None),
      pe_doc = (\<lambda>b. if b = [4] then Some (demo_signed 7 (replicate 31 0 @ [1])) else None),
      pe_mkdir = True, pe_write = (\<lambda>_. Written), pe_rename = (\<lambda>_. True), pe_crypto = demo_crypto\<rparr>"

lemma hex2_lits: "hex2 0 = ''00''" "hex2 1 = ''01''" "hex2 10 = ''0a''" "hex2 11 = ''0b''" "hex2 7 = ''07''"
  by code_simp+

lemma demo_hash_lits:
  "demo_hash 1 = ''sha256:'' @ concat (replicate 31 ''00'') @ ''01''"
  "demo_hash 10 = ''sha256:'' @ concat (replicate 31 ''00'') @ ''0a''"
  "demo_hash 11 = ''sha256:'' @ concat (replicate 31 ''00'') @ ''0b''"
  by (simp_all add: demo_hash_def hex2_lits)

lemma demo_src_eq:
  "demo_src = \<lparr>src_registry = ''http://r'', src_repo = ''boot'', src_reference = ''latest'',
     src_trusted_keys = [concat (replicate 32 ''07'')], src_require_signature = True\<rparr>"
  by (simp add: demo_src_def pallet_source_new_def trim_end_matches_def)

lemma demo_get_eq:
  "demo_get i (repo_url demo_src ''manifests'' ''latest'') = Response 200 None (Some [1])"
  "demo_get i (referrers_url demo_src (demo_hash 1)) = Response 200 None (Some [2])"
  "demo_get i (repo_url demo_src ''manifests'' ''sig'') = Response 200 None (Some [3])"
  "demo_get i (repo_url demo_src ''blobs'' ''doc'') = Response 200 None (Some [4])"
  "demo_get i (repo_url demo_src ''blobs'' ''spec'') = Response 200 None (Some [5])"
  "demo_get i (repo_url demo_src ''blobs'' (demo_hash 10)) = Response 200 None (Some [10])"
  "demo_get i (repo_url demo_src ''blobs'' (demo_hash 11)) = Response 200 None (Some [i])"
  by (simp_all add: demo_get_def demo_src_eq repo_url_def referrers_url_def demo_hash_lits)

lemma demo_env_sel [simp]:
  "pe_get (demo_env s i) = demo_get i" "pe_crypto (demo_env s i) = demo_crypto"
  "pe_manifest (demo_env s i) [1] = Some (demo_manifest ''spec'')"
  "pe_manifest (demo_env s i) [3] = Some (demo_manifest ''doc'')"
  "pe_index (demo_env s i) [2] = Some [demo_layer ''sig'' ''sig'']"
  "pe_spec (demo_env s i) [5] = Some s"
  "pe_doc (demo_env s i) [4] = Some (demo_signed 7 (replicate 31 0 @ [1]))"
  "pe_mkdir (demo_env s i)" "pe_write (demo_env s i) n = Written" "pe_rename (demo_env s i) n"
  by (simp_all add: demo_env_def)

lemma demo_layer_sel [simp]:
  "ds_digest (demo_layer r d) = d" "ds_size (demo_layer r d) = 0"
  "ds_artifact_type (demo_layer r d) = Some SIGNATURE_ARTIFACT_TYPE"
  "member_role (demo_layer r d) = Some r"
  by (simp_all add: demo_layer_def member_role_def)

lemma sha256_demo [simp]: "sha256_text (demo_env s i) [b] = demo_hash b"
  by (simp add: demo_env_def demo_crypto_def demo_hash_def sha256_text_def)

lemma lowercase_demo_hash [simp]:
  "lowercase (demo_hash 10) = demo_hash 10" "lowercase (demo_hash 11) = demo_hash 11"
  unfolding demo_hash_lits by code_simp+

lemma demo_verified:
  "verify demo_crypto (demo_signed 7 (replicate 31 0 @ [1])) (demo_hash 1) (src_trusted_keys demo_src) =
    Inr \<lparr>sm_subject_hex = concat (replicate 31 ''00'') @ ''01'', sm_subject_kind = PalletKind, sm_signed_at = 1\<rparr>"
  by code_simp

lemma success_200 [simp]: "is_success 200"
  by (simp add: is_success_def)

lemma demo_fetched [simp]:
  "fetch_manifest (demo_env s i) demo_src = Inr ([1], demo_hash 1)"
  "verify_signature (demo_env s i) demo_src (demo_hash 1) = Inr True"
proof -
  show "fetch_manifest (demo_env s i) demo_src = Inr ([1], demo_hash 1)"
    using demo_get_eq(1) [of i]
    by (simp add: fetch_manifest_def get_body_def) (simp add: demo_src_eq)
  show "verify_signature (demo_env s i) demo_src (demo_hash 1) = Inr True"
    using demo_get_eq(2-4) [of i] demo_verified
    by (simp add: verify_signature_def fetch_blob_or_manifest_def get_body_def
        demo_manifest_def) (simp add: demo_src_eq)
qed

lemma demo_read [simp]:
  "read_spec (demo_env s i) demo_src (demo_manifest ''spec'') = s"
  "get_body (demo_env s i) (repo_url demo_src ''blobs'' (demo_hash 10)) = Inr (None, [10])"
  "get_body (demo_env s i) (repo_url demo_src ''blobs'' (demo_hash 11)) = Inr (None, [i])"
  using demo_get_eq(5-7) [of i]
  by (simp_all add: read_spec_def fetch_blob_or_manifest_def get_body_def demo_manifest_def)

lemma demo_refresh_eq:
  "refresh (demo_env s i) demo_src None c =
    (case fetch_layers (demo_env s i) demo_src s
        [demo_layer ''kernel'' (demo_hash 10), demo_layer ''initramfs'' (demo_hash 11)] [] c of
       (c', Inl e) \<Rightarrow> (c', Inl e)
     | (c', Inr served) \<Rightarrow>
         if ''vmlinuz'' \<notin> set served \<or> ''initramfs.img'' \<notin> set served
         then (c', Inl (MissingKernelOrInitramfs served))
         else (c', map_sum id (\<lambda>st. \<lparr>rf_status = st, rf_changed = True\<rparr>)
                     (status_for (demo_env s i) demo_src [1] (demo_hash 1) True True)))"
proof -
  have "mf_layers (demo_manifest ''spec'') = [demo_layer ''kernel'' (demo_hash 10), demo_layer ''initramfs'' (demo_hash 11)]"
    "is_pallet (demo_manifest ''spec'')"
    by (simp_all add: demo_manifest_def is_pallet_def)
  then show ?thesis by (auto simp: refresh_def materialise_def simp del: fetch_layers.simps split: prod.split sum.split)
qed

lemma demo_refresh_done:
  "refresh (demo_env pallet_spec_default 11) demo_src None c =
    (c(''vmlinuz'' := Some [10], tmp_name ''vmlinuz'' := None, ''initramfs.img'' := Some [11], tmp_name ''initramfs.img'' := None),
     Inr \<lparr>rf_status = \<lparr>as_ready = True, as_detail = ''boot:latest'', as_version = Some ''latest'',
             as_digest = Some (demo_hash 1), as_signature_verified = True\<rparr>, rf_changed = True\<rparr>)"
  by (simp add: demo_refresh_eq fetch_layer_def filename_for_role_def inline_text_def pallet_spec_default_def
      fetch_member_def write_file_def rename_file_def status_for_def version_of_def fun_eq_iff)
    (simp add: demo_src_eq demo_manifest_def tmp_name_def)

theorem refresh_integrity_witness:
  "\<exists>bytes digest m. fetch_manifest (demo_env pallet_spec_default 11) demo_src = Inr (bytes, digest)
     \<and> pe_manifest (demo_env pallet_spec_default 11) bytes = Some m \<and> is_pallet m
     \<and> accounted (demo_env pallet_spec_default 11) (read_spec (demo_env pallet_spec_default 11) demo_src m)
         (mf_layers m) (\<lambda>_. None)
         (fst (refresh (demo_env pallet_spec_default 11) demo_src None (\<lambda>_. None))) ''vmlinuz''"
proof -
  let ?r = "refresh (demo_env pallet_spec_default 11) demo_src None (\<lambda>_. None)"
  have "fst ?r ''vmlinuz'' \<noteq> None" by (simp add: demo_refresh_done tmp_name_def)
  then show ?thesis
    using refresh_integrity [of "demo_env pallet_spec_default 11" demo_src None "\<lambda>_. None" "fst ?r" "snd ?r" "''vmlinuz''"]
    by (auto simp: served_names_def)
qed

theorem refresh_requires_signature_witness:
  "\<exists>bytes digest doc st. fetch_manifest (demo_env pallet_spec_default 11) demo_src = Inr (bytes, digest)
     \<and> lowercase digest = lowercase (sha256_text (demo_env pallet_spec_default 11) bytes)
     \<and> verify (pe_crypto (demo_env pallet_spec_default 11)) doc digest (src_trusted_keys demo_src) = Inr st"
proof -
  let ?r = "refresh (demo_env pallet_spec_default 11) demo_src None (\<lambda>_. None)"
  have "fst ?r ''vmlinuz'' \<noteq> None" by (simp add: demo_refresh_done tmp_name_def)
  then have "fst ?r \<noteq> (\<lambda>_. None)" by (metis (mono_tags))
  moreover have "src_require_signature demo_src" by (simp add: demo_src_eq)
  ultimately show ?thesis
    using refresh_requires_signature [of demo_src "demo_env pallet_spec_default 11" None "\<lambda>_. None" "fst ?r" "snd ?r"]
    by simp
qed

theorem refresh_ready_witness:
  "cache_is_complete (fst (refresh (demo_env pallet_spec_default 11) demo_src None (\<lambda>_. None)))"
  using refresh_ready [OF demo_refresh_done] by (simp add: demo_refresh_done)

text \<open>The specification a manifest points to is not checked against its digest, and a role
  that it carries inline is served from it. So with a required, accepted signature over the very
  same manifest, the kernel served is whatever the registry puts in that document.\<close>

definition inline_kernel :: "string \<Rightarrow> pallet_spec" where
  "inline_kernel txt =
     pallet_spec_default\<lparr>ps_members := [\<lparr>md_name = [], md_role = ''kernel'', md_source = ''inline'',
        md_digest = None, md_text = Some txt\<rparr>]\<rparr>"

theorem inline_member_unverified:
  "fst (refresh (demo_env (inline_kernel txt) 11) demo_src None (\<lambda>_. None)) ''vmlinuz'' = Some (bytes_of txt)
   \<and> (\<exists>r. snd (refresh (demo_env (inline_kernel txt) 11) demo_src None (\<lambda>_. None)) = Inr r
        \<and> as_signature_verified (rf_status r) \<and> as_ready (rf_status r))"
  by (simp add: demo_refresh_eq fetch_layer_def filename_for_role_def inline_text_def inline_kernel_def
      pallet_spec_default_def fetch_member_def write_file_def rename_file_def status_for_def)
    (simp add: tmp_name_def)

text \<open>A member that fails half way leaves the members before it in place: here the kernel is the new
  one although the refresh failed.\<close>

lemma failed_refresh_is_partial:
  "fst (refresh (demo_env pallet_spec_default 10) demo_src None (\<lambda>_. Some [0])) ''vmlinuz'' = Some [10]
   \<and> fst (refresh (demo_env pallet_spec_default 10) demo_src None (\<lambda>_. Some [0])) ''initramfs.img'' = Some [0]
   \<and> (\<exists>e. snd (refresh (demo_env pallet_spec_default 10) demo_src None (\<lambda>_. Some [0])) = Inl e)"
proof -
  have "demo_hash 10 \<noteq> demo_hash 11" by (simp add: demo_hash_lits)
  then show ?thesis
    by (simp add: demo_refresh_eq fetch_layer_def filename_for_role_def inline_text_def
        pallet_spec_default_def fetch_member_def write_file_def rename_file_def)
      (simp add: tmp_name_def)
qed

text \<open>A refresh that finds the digest it already serves fetches nothing, leaves the cache alone and
  reports a verified signature, whether or not one was ever checked.\<close>

lemma refresh_unchanged:
  assumes "fetch_manifest env src = Inr (bytes, digest)" "pe_manifest env bytes = Some m"
  shows "\<exists>st. refresh env src (Some digest) c = (c, Inr \<lparr>rf_status = st, rf_changed = False\<rparr>)
    \<and> as_signature_verified st \<and> as_ready st \<and> as_digest st = Some digest"
  using assms by (simp add: refresh_def status_for_def)

section \<open>A registry that serves what the manifest names\<close>

text \<open>What a layer contributes to the cache when everything it needs is there.\<close>

definition layer_content ::
  "pallet_env \<Rightarrow> pallet_source \<Rightarrow> pallet_spec \<Rightarrow> descriptor \<Rightarrow> (string \<times> u8 list) option" where
  "layer_content env src spec layer =
     (case member_role layer of
        None \<Rightarrow> None
      | Some role \<Rightarrow>
          (case filename_for_role role of
             None \<Rightarrow> None
           | Some f \<Rightarrow>
               (case inline_text spec role of
                  Some t \<Rightarrow> Some (f, bytes_of t)
                | None \<Rightarrow>
                    (case get_body env (repo_url src ''blobs'' (ds_digest layer)) of
                       Inl _ \<Rightarrow> None
                     | Inr (_, b) \<Rightarrow>
                         if sha256_text env b = lowercase (ds_digest layer)
                           \<and> (ds_size layer = 0 \<or> ds_size layer = of_nat (length b))
                         then Some (f, b) else None))))"

definition available :: "pallet_env \<Rightarrow> pallet_source \<Rightarrow> pallet_spec \<Rightarrow> descriptor \<Rightarrow> bool" where
  "available env src spec layer \<longleftrightarrow>
     Option.bind (member_role layer) filename_for_role = None \<or> layer_content env src spec layer \<noteq> None"

definition disk_works :: "pallet_env \<Rightarrow> bool" where
  "disk_works env \<longleftrightarrow> pe_mkdir env \<and> (\<forall>n. pe_write env n = Written \<and> pe_rename env n)"

lemma fetch_layer_available:
  assumes "disk_works env" "available env src spec layer"
  shows "\<exists>c'. fetch_layer env src spec layer c = (c', Inr (map_option fst (layer_content env src spec layer)))
    \<and> (\<forall>f \<in> served_names. c' f = (case layer_content env src spec layer of
         Some (g, b) \<Rightarrow> if f = g then Some b else c f | None \<Rightarrow> c f))"
  using assms
  by (auto simp: fetch_layer_def available_def layer_content_def disk_works_def fetch_member_def Let_def
      write_file_def rename_file_def served_not_tmp bind_eq_None_conv split: option.split sum.splits if_splits)

definition contents ::
  "pallet_env \<Rightarrow> pallet_source \<Rightarrow> pallet_spec \<Rightarrow> descriptor list \<Rightarrow> (string \<times> u8 list) list" where
  "contents env src spec layers = List.map_filter (layer_content env src spec) layers"

lemma contents_simps [simp]:
  "contents env src spec [] = []"
  "contents env src spec (l # ls) =
    (case layer_content env src spec l of None \<Rightarrow> contents env src spec ls | Some x \<Rightarrow> x # contents env src spec ls)"
  by (simp_all add: contents_def map_filter_simps split: option.split)

lemma fetch_layers_available:
  assumes "disk_works env" "\<forall>layer \<in> set layers. available env src spec layer"
  shows "\<exists>c'. fetch_layers env src spec layers served c = (c', Inr (served @ map fst (contents env src spec layers)))
    \<and> (\<forall>f \<in> served_names. c' f = (case map_of (rev (contents env src spec layers)) f of Some b \<Rightarrow> Some b | None \<Rightarrow> c f))"
  using assms(2)
proof (induction layers arbitrary: served c)
  case (Cons layer rest)
  let ?lc = "layer_content env src spec layer"
  let ?served = "served @ (case ?lc of None \<Rightarrow> [] | Some (f, b) \<Rightarrow> [f])"
  have "available env src spec layer" using Cons.prems by simp
  from fetch_layer_available [OF assms(1) this, of c]
  obtain c1 where c1: "fetch_layer env src spec layer c = (c1, Inr (map_option fst ?lc))"
    "\<forall>f \<in> served_names. c1 f = (case ?lc of Some (g, b) \<Rightarrow> if f = g then Some b else c f | None \<Rightarrow> c f)"
    by blast
  obtain c' where c': "fetch_layers env src spec rest ?served c1 = (c', Inr (?served @ map fst (contents env src spec rest)))"
    "\<forall>f \<in> served_names. c' f = (case map_of (rev (contents env src spec rest)) f of Some b \<Rightarrow> Some b | None \<Rightarrow> c1 f)"
    using Cons.IH [of ?served c1] Cons.prems by auto
  have "fetch_layers env src spec (layer # rest) served c = (c', Inr (served @ map fst (contents env src spec (layer # rest))))"
    using c1(1) c'(1) by (auto split: option.splits)
  moreover have "\<forall>f \<in> served_names. c' f =
      (case map_of (rev (contents env src spec (layer # rest))) f of Some b \<Rightarrow> Some b | None \<Rightarrow> c f)"
    using c1(2) c'(2) by (auto simp: map_add_def split: option.splits)
  ultimately show ?case by blast
qed simp

text \<open>C13: When the registry serves a signed pallet and every member it names, and the disk works,
  a refresh succeeds, and the cache then holds under each served name the content of the last
  member of that name.\<close>

theorem refresh_succeeds:
  assumes "fetch_manifest env src = Inr (bytes, digest)" "Some digest \<noteq> current"
    and "verify_signature env src digest = Inr sv" "src_require_signature src \<longrightarrow> sv"
    and "pe_manifest env bytes = Some m" "is_pallet m" "disk_works env"
    and "\<forall>layer \<in> set (mf_layers m). available env src (read_spec env src m) layer"
    and "{''vmlinuz'', ''initramfs.img''} \<subseteq> fst ` set (contents env src (read_spec env src m) (mf_layers m))"
  shows "\<exists>c' r. refresh env src current c = (c', Inr r) \<and> rf_changed r
    \<and> as_signature_verified (rf_status r) = sv
    \<and> (\<forall>f \<in> served_names. c' f =
         (case map_of (rev (contents env src (read_spec env src m) (mf_layers m))) f of Some b \<Rightarrow> Some b | None \<Rightarrow> c f))"
proof -
  let ?cs = "contents env src (read_spec env src m) (mf_layers m)"
  obtain c' where c': "fetch_layers env src (read_spec env src m) (mf_layers m) [] c = (c', Inr (map fst ?cs))"
    "\<forall>f \<in> served_names. c' f = (case map_of (rev ?cs) f of Some b \<Rightarrow> Some b | None \<Rightarrow> c f)"
    using fetch_layers_available [OF assms(7,8), of "[]" c] by auto
  moreover have "''vmlinuz'' \<in> set (map fst ?cs)" "''initramfs.img'' \<in> set (map fst ?cs)"
    using assms(9) by simp_all
  moreover have "pe_mkdir env" using assms(7) by (simp add: disk_works_def)
  ultimately show ?thesis
    using assms(1-6) by (simp add: refresh_def materialise_def status_for_def del: set_map)
qed

theorem refresh_succeeds_witness:
  "\<exists>c' r. refresh (demo_env pallet_spec_default 11) demo_src None (\<lambda>_. None) = (c', Inr r) \<and> rf_changed r
    \<and> c' ''vmlinuz'' = Some [10]"
proof -
  let ?env = "demo_env pallet_spec_default 11"
  have m: "mf_layers (demo_manifest ''spec'') = [demo_layer ''kernel'' (demo_hash 10), demo_layer ''initramfs'' (demo_hash 11)]"
    "is_pallet (demo_manifest ''spec'')"
    by (simp_all add: demo_manifest_def is_pallet_def)
  have lc: "layer_content ?env demo_src pallet_spec_default (demo_layer ''kernel'' (demo_hash 10)) = Some (''vmlinuz'', [10])"
    "layer_content ?env demo_src pallet_spec_default (demo_layer ''initramfs'' (demo_hash 11)) = Some (''initramfs.img'', [11])"
    by (simp_all add: layer_content_def filename_for_role_def inline_text_def pallet_spec_default_def)
  have "disk_works ?env" by (simp add: disk_works_def)
  from refresh_succeeds [of ?env demo_src "[1]" "demo_hash 1" None True "demo_manifest ''spec''" "\<lambda>_. None",
      OF _ _ _ _ _ m(2) this]
  show ?thesis by (auto simp: m lc available_def served_names_def)
qed

end
