(* ===== verification/Http.thy ===== *)
theory Http
  imports Boot_State Claims Ipxe Metrics Pallet
begin

text \<open>
  The HTTP surfaces (\<open>crates/stormnetboot-server/src/http.rs\<close>): the state every handler shares and
  the handlers, each a function from the state and the request to the state and the response. A
  handler is one step: each part of the state is behind its own lock and the lock of the claims
  is held across the request to the registry, so claims are made one at a time. The clock, the
  registry and the directory listing are arguments. The lemmas show who is refused and with what
  effect, that a retry never claims again, that what a served script attaches is what was
  claimed, and that the invariants of the parts hold after every history of requests.
\<close>

section \<open>State and responses\<close>

record app_state =
  app_cfg :: config
  app_metrics :: metrics
  app_hosts :: host_store
  app_boot :: boot_state
  app_assets :: asset_status
  app_claim_client :: "claim_client option"
  app_claims :: "(mac \<times> claim_response) list"

definition app_new :: "config \<Rightarrow> host_store \<Rightarrow> claim_client option \<Rightarrow> asset_status \<Rightarrow> app_state" where
  "app_new cfg hosts client assets =
     \<lparr>app_cfg = cfg, app_metrics = metrics_default, app_hosts = hosts, app_boot = [],
      app_assets = assets, app_claim_client = client, app_claims = []\<rparr>"

definition set_asset_status :: "asset_status \<Rightarrow> app_state \<Rightarrow> app_state" where
  "set_asset_status status s = s\<lparr>app_assets := status\<rparr>"

definition claim_id :: "app_state \<Rightarrow> mac \<Rightarrow> string option" where
  "claim_id s m = map_option cr_id (map_of (app_claims s) m)"

record response =
  rs_status :: nat
  rs_body :: string

definition REQUIRED_ASSETS :: "string list" where
  "REQUIRED_ASSETS = [''vmlinuz'', ''initramfs.img'']"

text \<open>Counting, around every request of the boot surface.\<close>

definition count_request :: "string \<Rightarrow> app_state \<Rightarrow> app_state" where
  "count_request uri s =
     s\<lparr>app_metrics := (app_metrics s)
        \<lparr>mt_requests_total := incr (mt_requests_total (app_metrics s)),
         mt_asset_requests := (if starts_with ''/boot/'' uri then incr (mt_asset_requests (app_metrics s))
                               else mt_asset_requests (app_metrics s))\<rparr>\<rparr>"

definition count_response :: "response \<Rightarrow> app_state \<Rightarrow> app_state" where
  "count_response r s =
     (if rs_status r = 404
      then s\<lparr>app_metrics := (app_metrics s)\<lparr>mt_not_found := incr (mt_not_found (app_metrics s))\<rparr>\<rparr>
      else s)"

definition count_requests :: "string \<Rightarrow> (app_state \<Rightarrow> app_state \<times> response) \<Rightarrow> app_state \<Rightarrow> app_state \<times> response" where
  "count_requests uri handler s =
     (case handler (count_request uri s) of (s', r) \<Rightarrow> (count_response r s', r))"

definition count_refused :: "app_state \<Rightarrow> app_state" where
  "count_refused s = s\<lparr>app_metrics := (app_metrics s)\<lparr>mt_refused := incr (mt_refused (app_metrics s))\<rparr>\<rparr>"

section \<open>Reading\<close>

definition health :: response where
  "health = \<lparr>rs_status = 200, rs_body = ''ok'' @ [LF]\<rparr>"

definition readyz :: "(string \<Rightarrow> bool) \<Rightarrow> response" where
  "readyz exists =
     (let missing = filter (\<lambda>n. \<not> exists n) REQUIRED_ASSETS
      in if missing = [] then \<lparr>rs_status = 200, rs_body = ''ready'' @ [LF]\<rparr>
         else \<lparr>rs_status = 503, rs_body = ''missing boot assets: '' @ join '', '' missing @ [LF]\<rparr>)"

definition metrics_handler :: "string \<Rightarrow> app_state \<Rightarrow> response" where
  "metrics_handler version s =
     \<lparr>rs_status = 200,
      rs_body = metrics_render version (app_metrics s) (phase_counts (app_boot s)) (counts (app_hosts s))\<rparr>"

section \<open>The boot script\<close>

definition claim_for ::
  "registry_api \<Rightarrow> mac option \<Rightarrow> string option \<Rightarrow> app_state \<Rightarrow> app_state \<times> (string + claim_response)" where
  "claim_for api m golden s =
     (case app_claim_client s of
        None \<Rightarrow> (s, Inl ''claims are not configured'')
      | Some client \<Rightarrow>
          (case Option.bind m (map_of (app_claims s)) of
             Some existing \<Rightarrow> (s, Inr existing)
           | None \<Rightarrow>
               (case claim api client m golden of
                  Inl e \<Rightarrow> (s, Inl e)
                | Inr c \<Rightarrow>
                    (case m of
                       Some addr \<Rightarrow> (s\<lparr>app_claims := AList.update addr c (app_claims s)\<rparr>, Inr c)
                     | None \<Rightarrow> (s, Inr c)))))"

definition plan_with_claim :: "claim_response option \<Rightarrow> boot_plan \<Rightarrow> boot_plan" where
  "plan_with_claim granted plan0 =
     (let plan1 = (case Option.bind granted cr_attach of
                     Some a \<Rightarrow> plan0\<lparr>bp_portal := Some (at_address a), bp_portal_port := at_port a,
                                     bp_nqn := Some (at_target a), bp_nsid := at_nsid a\<rparr>
                   | None \<Rightarrow> plan0)
      in (case granted of
            Some c \<Rightarrow> plan1\<lparr>bp_volume := Some (cr_volume_name c)\<rparr>
          | None \<Rightarrow> plan1))"

text \<open>The end of the handler: the plan, the script and the version that was served.\<close>

definition serve_script ::
  "mac option \<Rightarrow> host_record option \<Rightarrow> claim_response option \<Rightarrow> app_state \<Rightarrow> app_state \<times> response" where
  "serve_script m record granted s =
     (let plan = plan_with_claim granted (resolve (app_cfg s) m record);
          s1 = (case (m, as_version (app_assets s)) of
                  (Some addr, Some version) \<Rightarrow> s\<lparr>app_boot := set_pallet_version addr version (app_boot s)\<rparr>
                | _ \<Rightarrow> s)
      in (s1, \<lparr>rs_status = 200, rs_body = render (app_cfg s) plan\<rparr>))"

definition observe_opt :: "u64 \<Rightarrow> mac option \<Rightarrow> phase \<Rightarrow> string option \<Rightarrow> app_state \<Rightarrow> app_state" where
  "observe_opt now m ph detail s =
     (case m of Some addr \<Rightarrow> s\<lparr>app_boot := observe now addr ph detail (app_boot s)\<rparr> | None \<Rightarrow> s)"

definition no_record_body :: string where
  "no_record_body =
     ''#!ipxe'' @ [LF] @ ''# this machine has no host record; refusing to boot it'' @ [LF] @ ''shell'' @ [LF]"

definition offline_body :: "string \<Rightarrow> string" where
  "offline_body name =
     ''#!ipxe'' @ [LF] @ ''# '' @ name @ '' is marked offline (spec.online=false); not booting it'' @ [LF]
       @ ''shell'' @ [LF]"

text \<open>A machine that may boot: \<open>t1\<close> and \<open>t2\<close> are the clock when the request and when a failure of its
  claim are recorded.\<close>

definition boot_admitted ::
  "registry_api \<Rightarrow> u64 \<Rightarrow> u64 \<Rightarrow> mac option \<Rightarrow> host_record option \<Rightarrow> app_state \<Rightarrow> app_state \<times> response" where
  "boot_admitted api t1 t2 m record s0 =
     (let s = observe_opt t1 m ScriptFetched None s0
      in if claims_enabled (app_cfg s)
         then (case claim_for api m (Option.bind record hr_stack) s of
                 (s1, Inr c) \<Rightarrow> serve_script m record (Some c) s1
               | (s1, Inl err) \<Rightarrow>
                   (observe_opt t2 m Failed (Some (''claim failed: '' @ err))
                      (s1\<lparr>app_metrics := (app_metrics s1)
                          \<lparr>mt_claim_failures := incr (mt_claim_failures (app_metrics s1))\<rparr>\<rparr>),
                    \<lparr>rs_status = 503,
                     rs_body = ''#!ipxe'' @ [LF] @ ''# could not claim a root volume: '' @ err @ [LF] @ ''shell'' @ [LF]\<rparr>))
         else serve_script m record None s)"

definition boot_identified ::
  "registry_api \<Rightarrow> u64 \<Rightarrow> u64 \<Rightarrow> mac option \<Rightarrow> app_state \<Rightarrow> app_state \<times> response" where
  "boot_identified api t1 t2 m s =
     (let record = Option.bind m (lookup (app_hosts s))
      in if record = None \<and> cfg_unknown_hosts (app_cfg s) = Deny
         then (count_refused s, \<lparr>rs_status = 403, rs_body = no_record_body\<rparr>)
         else (case record of
           Some r \<Rightarrow>
             if \<not> hr_online r
             then (count_refused s, \<lparr>rs_status = 403, rs_body = offline_body (hr_name r)\<rparr>)
             else boot_admitted api t1 t2 m record s
         | None \<Rightarrow> boot_admitted api t1 t2 m record s))"

definition boot_script ::
  "registry_api \<Rightarrow> u64 \<Rightarrow> u64 \<Rightarrow> string option \<Rightarrow> app_state \<Rightarrow> app_state \<times> response" where
  "boot_script api t1 t2 mac_query s0 =
     (let s = s0\<lparr>app_metrics := (app_metrics s0)
               \<lparr>mt_boot_script_requests := incr (mt_boot_script_requests (app_metrics s0))\<rparr>\<rparr>
      in (case map_option mac_parse mac_query of
            Some (Inr m) \<Rightarrow> boot_identified api t1 t2 (Some m) s
          | Some (Inl err) \<Rightarrow>
              (count_refused s,
               \<lparr>rs_status = 400,
                rs_body = ''#!ipxe'' @ [LF] @ ''# malformed mac: '' @ mac_error_display err @ [LF] @ ''shell'' @ [LF]\<rparr>)
          | None \<Rightarrow> boot_identified api t1 t2 None s))"

section \<open>Reports\<close>

definition parse_phase :: "string \<Rightarrow> phase option" where
  "parse_phase raw =
     (let t = replace_char (CHR ''_'') (CHR ''-'') (lowercase (trim raw))
      in if t = ''script-fetched'' then Some ScriptFetched
         else if t = ''assets-fetched'' then Some AssetsFetched
         else if t = ''root-attached'' then Some RootAttached
         else if t = ''running'' then Some Running
         else if t = ''assimilating'' then Some Assimilating
         else if t = ''local'' then Some Local
         else if t = ''failed'' then Some Failed
         else None)"

record report_request =
  rq_mac :: string
  rq_phase :: string
  rq_detail :: "string option"

definition bad_mac :: "mac_parse_error \<Rightarrow> response" where
  "bad_mac err = \<lparr>rs_status = 400, rs_body = ''bad mac: '' @ mac_error_display err @ [LF]\<rparr>"

definition recorded :: response where
  "recorded = \<lparr>rs_status = 202, rs_body = ''recorded'' @ [LF]\<rparr>"

text \<open>\<open>dbg\<close> is the \<open>{:?}\<close> form of a string.\<close>

definition report :: "(string \<Rightarrow> string) \<Rightarrow> u64 \<Rightarrow> report_request \<Rightarrow> app_state \<Rightarrow> app_state \<times> response" where
  "report dbg now req s =
     (case mac_parse (rq_mac req) of
        Inl err \<Rightarrow> (s, bad_mac err)
      | Inr m \<Rightarrow>
          (case parse_phase (rq_phase req) of
             None \<Rightarrow> (s, \<lparr>rs_status = 400, rs_body = ''unknown phase '' @ dbg (rq_phase req) @ [LF]\<rparr>)
           | Some ph \<Rightarrow> (s\<lparr>app_boot := observe now m ph (rq_detail req) (app_boot s)\<rparr>, recorded)))"

definition inventory :: "u64 \<Rightarrow> string \<Rightarrow> hardware_inventory \<Rightarrow> app_state \<Rightarrow> app_state \<times> response" where
  "inventory now mac_text hw s =
     (case mac_parse mac_text of
        Inl err \<Rightarrow> (s, bad_mac err)
      | Inr m \<Rightarrow> (s\<lparr>app_boot := set_inventory now m hw (app_boot s)\<rparr>, recorded))"

section \<open>The management surface\<close>

definition hosts_list :: "app_state \<Rightarrow> host_counts \<times> host_record list" where
  "hosts_list s = (counts (app_hosts s), records (app_hosts s))"

definition hosts_reload ::
  "(string \<Rightarrow> host_record list option) \<Rightarrow> host_file \<Rightarrow> app_state \<Rightarrow> app_state \<times> (reload_error + nat)" where
  "hosts_reload parse file s =
     (case reload parse file (app_hosts s) of (h, r) \<Rightarrow> (s\<lparr>app_hosts := h\<rparr>, r))"

definition state_dump :: "app_state \<Rightarrow> host_state list" where
  "state_dump s = snapshot (app_boot s)"

text \<open>The listing of the asset directory: the regular files whose metadata can be read, up to the
  first entry that cannot be listed, by name.\<close>

definition boot_listing :: "(string \<times> u64 option) option list option \<Rightarrow> (string \<times> u64) list option" where
  "boot_listing entries =
     map_option (\<lambda>es. sort_key fst (hm_collect
        (List.map_filter (\<lambda>(n, len). map_option (Pair n) len) (map the (takeWhile (\<lambda>e. e \<noteq> None) es))))) entries"

section \<open>Histories of the server\<close>

text \<open>A request, a change of the pallet's status, or a change the watch delivers.\<close>

datatype app_event =
    BootScript registry_api u64 u64 "string option"
  | Report "string \<Rightarrow> string" u64 report_request
  | InventoryReport u64 string hardware_inventory
  | HostsReload "string \<Rightarrow> host_record list option" host_file
  | SetAssets asset_status
  | KubeListed "host_record list"
  | KubeApplied host_record
  | KubeRemoved mac

definition on_hosts :: "(host_store \<Rightarrow> host_store) \<Rightarrow> app_state \<Rightarrow> app_state" where
  "on_hosts f s = s\<lparr>app_hosts := f (app_hosts s)\<rparr>"

fun app_step :: "app_state \<Rightarrow> app_event \<Rightarrow> app_state" where
  "app_step s (BootScript api t1 t2 q) = fst (boot_script api t1 t2 q s)"
| "app_step s (Report dbg now req) = fst (report dbg now req s)"
| "app_step s (InventoryReport now m hw) = fst (inventory now m hw s)"
| "app_step s (HostsReload parse file) = fst (hosts_reload parse file s)"
| "app_step s (SetAssets status) = set_asset_status status s"
| "app_step s (KubeListed rs) = on_hosts (set_kube_records rs) s"
| "app_step s (KubeApplied r) = on_hosts (apply_kube_record r) s"
| "app_step s (KubeRemoved m) = on_hosts (remove_kube_record m) s"

definition app_inv :: "app_state \<Rightarrow> bool" where
  "app_inv s \<longleftrightarrow> bs_inv (app_boot s) \<and> store_wf (app_hosts s)
     \<and> (\<forall>c \<in> snd ` set (app_claims s). is_attachable c)"

lemma store_wf_watch [wf_intros]:
  "store_wf h \<Longrightarrow> store_wf (set_kube_records rs h)"
  "store_wf h \<Longrightarrow> store_wf (apply_kube_record r h)"
  "store_wf h \<Longrightarrow> store_wf (remove_kube_record m h)"
  by (simp_all add: store_wf_def set_kube_records_def apply_kube_record_def remove_kube_record_def
      layer_wf_update layer_wf_delete)

lemma app_inv_observe [wf_intros]: "app_inv s \<Longrightarrow> app_inv (observe_opt t m ph d s)"
  by (auto simp: app_inv_def observe_opt_def intro: wf_intros split: option.split)

lemma app_inv_metrics [simp]: "app_inv (s\<lparr>app_metrics := x\<rparr>) = app_inv s"
  by (simp add: app_inv_def)

lemma app_inv_count_refused [simp]: "app_inv (count_refused s) = app_inv s"
  by (simp add: count_refused_def)

lemma app_inv_serve [wf_intros]: "app_inv s \<Longrightarrow> app_inv (fst (serve_script m record c s))"
  by (auto simp: app_inv_def serve_script_def Let_def intro: wf_intros split: option.split)

lemma claims_after_update: "(a, b) \<in> set (AList.update k v l) \<Longrightarrow> b = v \<or> (a, b) \<in> set l"
  by (induction l) (auto split: if_splits)

lemma app_inv_claim_for [wf_intros]: "app_inv s \<Longrightarrow> app_inv (fst (claim_for api m g s))"
  by (fastforce simp: app_inv_def claim_for_def dest: claims_after_update claim_attachable split: option.split sum.split)

lemma app_inv_admitted [wf_intros]: "app_inv s \<Longrightarrow> app_inv (fst (boot_admitted api t1 t2 m record s))"
  using app_inv_claim_for [OF app_inv_observe, of s api m "Option.bind record hr_stack" t1 m ScriptFetched None]
  by (auto simp: boot_admitted_def Let_def split: prod.split sum.split intro!: wf_intros)

lemma app_inv_identified [wf_intros]: "app_inv s \<Longrightarrow> app_inv (fst (boot_identified api t1 t2 m s))"
  by (auto simp: boot_identified_def Let_def split: option.split intro!: wf_intros)

lemma app_inv_boot_script [wf_intros]: "app_inv s \<Longrightarrow> app_inv (fst (boot_script api t1 t2 q s))"
  by (auto simp: boot_script_def Let_def split: option.split sum.split intro!: wf_intros)

interpretation app: invariant_system app_step app_inv
proof
  fix s e assume s: "app_inv s"
  show "app_inv (app_step s e)"
  proof (cases e)
    case (Report dbg now req)
    with s show ?thesis by (auto simp: report_def app_inv_def intro: wf_intros split: sum.split option.split)
  next
    case (InventoryReport now m hw)
    with s show ?thesis by (auto simp: inventory_def app_inv_def intro: wf_intros split: sum.split)
  next
    case (HostsReload parse hf)
    with s store_wf_reload [of "app_hosts s" parse hf] show ?thesis
      by (auto simp: hosts_reload_def app_inv_def split: prod.split)
  next
    case (BootScript api t1 t2 q)
    with s show ?thesis by (simp add: app_inv_boot_script)
  qed (use s in \<open>auto simp: set_asset_status_def on_hosts_def app_inv_def intro!: wf_intros\<close>)
qed

section \<open>Claims are made once\<close>

definition claim_graph :: "app_state \<Rightarrow> (mac \<times> claim_response) set" where
  "claim_graph s = {(m, c). map_of (app_claims s) m = Some c}"

lemma claim_graph_claim_for: "claim_graph s \<subseteq> claim_graph (fst (claim_for api m g s))"
  by (auto simp: claim_graph_def claim_for_def update_conv' split: option.split sum.split)

lemma claims_observe [simp]: "app_claims (observe_opt t m ph d s) = app_claims s"
  by (simp add: observe_opt_def split: option.split)

lemma claims_serve [simp]: "app_claims (fst (serve_script m record c s)) = app_claims s"
  by (simp add: serve_script_def Let_def split: option.split)

lemma claim_graph_cong: "app_claims s = app_claims s' \<Longrightarrow> claim_graph s = claim_graph s'"
  by (simp add: claim_graph_def)

lemma claim_graph_admitted: "claim_graph s \<subseteq> claim_graph (fst (boot_admitted api t1 t2 m record s))"
proof -
  let ?s = "observe_opt t1 m ScriptFetched None s"
  obtain s1 r where cf: "claim_for api m (Option.bind record hr_stack) ?s = (s1, r)" by fastforce
  have "claim_graph s = claim_graph ?s" by (rule claim_graph_cong) simp
  also have "\<dots> \<subseteq> claim_graph s1" using claim_graph_claim_for [of ?s api m "Option.bind record hr_stack"] cf by simp
  finally show ?thesis
    using cf by (auto simp: boot_admitted_def Let_def claim_graph_def split: sum.split)
qed

lemma claim_graph_identified: "claim_graph s \<subseteq> claim_graph (fst (boot_identified api t1 t2 m s))"
  using claim_graph_admitted [of s api t1 t2 m "Option.bind m (lookup (app_hosts s))"]
  by (auto simp: boot_identified_def Let_def count_refused_def claim_graph_def split: option.split)

lemma claim_graph_boot_script: "claim_graph s \<subseteq> claim_graph (fst (boot_script api t1 t2 q s))"
proof -
  let ?s = "s\<lparr>app_metrics := (app_metrics s)\<lparr>mt_boot_script_requests := incr (mt_boot_script_requests (app_metrics s))\<rparr>\<rparr>"
  have "claim_graph s = claim_graph ?s" "claim_graph ?s = claim_graph (count_refused ?s)"
    by (rule claim_graph_cong, simp add: count_refused_def)+
  then show ?thesis
    using claim_graph_identified [of ?s api t1 t2]
    by (simp add: boot_script_def Let_def split: option.split sum.split)
qed

lemma claim_graph_step: "claim_graph s \<subseteq> claim_graph (app_step s e)"
proof (cases e)
  case (BootScript api t1 t2 q)
  then show ?thesis by (simp add: claim_graph_boot_script)
qed (auto simp: claim_graph_def report_def inventory_def hosts_reload_def set_asset_status_def on_hosts_def
    split: sum.split option.split prod.split)

interpretation claims_made: forward_system app_step claim_graph
  by unfold_locales (rule claim_graph_step)

section \<open>Properties\<close>

text \<open>After every history of requests and watch events, from a server that starts with no claims and
  no tracked hosts, the tracker is within its bounds, the records are well formed, and every
  claim the server keeps can be booted from.\<close>

theorem server_invariant:
  "app_inv (foldl app_step (app_new cfg empty_store client assets) es)"
  by (rule app.inv_run)
    (simp add: app_inv_def app_new_def bs_inv_def bs_wf_empty empty_store_def store_wf_empty)

text \<open>C30: A host is given one volume: once it has a claim, it has that claim after every later history,
  and asking again answers with it without consulting the registry.\<close>

theorem claim_is_kept:
  assumes "claim_for api (Some m) golden s = (s', Inr c)"
  shows "map_of (app_claims (foldl app_step s' es)) m = Some c
    \<and> (app_claim_client (foldl app_step s' es) \<noteq> None \<longrightarrow>
        claim_for api' (Some m) golden' (foldl app_step s' es) = (foldl app_step s' es, Inr c))"
proof -
  have "(m, c) \<in> claim_graph s'"
    using assms by (auto simp: claim_graph_def claim_for_def update_conv' split: option.splits sum.splits)
  then have "(m, c) \<in> claim_graph (foldl app_step s' es)"
    using claims_made.rank_run by blast
  then show ?thesis by (auto simp: claim_graph_def claim_for_def)
qed

definition demo_claim :: claim_response where
  "demo_claim =
     \<lparr>cr_id = ''c1'', cr_golden = ''g'', cr_template = ''t'', cr_state = ''ready'', cr_volume_name = ''v1'',
      cr_attach = Some \<lparr>at_protocol = ''nvme-tcp'', at_address = ''10.0.0.1'', at_port = 4431,
        at_target = ''nqn.x'', at_nsid = Some 1, at_disk_add = None\<rparr>\<rparr>"

definition demo_api :: registry_api where
  "demo_api = \<lparr>api_post = (\<lambda>_ _ _. Reply True ''200 OK'' ''{}''), api_parse = (\<lambda>_. Some demo_claim)\<rparr>"

definition demo_cfg :: config where
  "demo_cfg = default_config\<lparr>cfg_claim := True, cfg_registry := Some ''http://r'', cfg_golden := Some ''g''\<rparr>"

definition demo_app :: app_state where
  "demo_app = app_new demo_cfg empty_store (Some (claim_client_new ''http://r'' ''g'')) asset_status_default"

lemma demo_claimed:
  "claim_for demo_api (Some m) None demo_app = (demo_app\<lparr>app_claims := [(m, demo_claim)]\<rparr>, Inr demo_claim)"
  by (simp add: claim_for_def demo_app_def app_new_def claim_client_new_def claim_def demo_api_def
      is_attachable_def demo_claim_def)

theorem claim_is_kept_witness:
  "map_of (app_claims (foldl app_step (demo_app\<lparr>app_claims := [(Mac 1 2 3 4 5 6, demo_claim)]\<rparr>)
      [BootScript demo_api 1 2 None])) (Mac 1 2 3 4 5 6) = Some demo_claim"
  using claim_is_kept [OF demo_claimed] by blast

definition named :: "string option \<Rightarrow> mac_parse_error + mac option" where
  "named q = (case q of None \<Rightarrow> Inr None | Some t \<Rightarrow> map_sum id Some (mac_parse t))"

definition may_boot :: "app_state \<Rightarrow> mac option \<Rightarrow> bool" where
  "may_boot s m =
     (case Option.bind m (lookup (app_hosts s)) of
        None \<Rightarrow> cfg_unknown_hosts (app_cfg s) \<noteq> Deny
      | Some r \<Rightarrow> hr_online r)"

lemma admitted_status: "rs_status (snd (boot_admitted api t1 t2 m record s)) \<in> {200, 503}"
  by (auto simp: boot_admitted_def Let_def serve_script_def split: prod.split sum.split)

text \<open>Who is refused: a request is answered 400 exactly when it names a machine by something that is
  not an address, and 403 exactly when the machine (or a request without one) has no record
  under the deny policy, or has a record that parks it.\<close>

theorem who_is_refused:
  "(rs_status (snd (boot_script api t1 t2 q s)) = 400) = (\<exists>e. named q = Inl e)
   \<and> (rs_status (snd (boot_script api t1 t2 q s)) = 403) = (\<exists>m. named q = Inr m \<and> \<not> may_boot s m)"
proof -
  have "rs_status (snd (boot_identified api t1 t2 m s')) =
      (if may_boot s' m then rs_status (snd (boot_admitted api t1 t2 m (Option.bind m (lookup (app_hosts s'))) s')) else 403)" for m s'
    by (auto simp: boot_identified_def may_boot_def Let_def split: option.split)
  then have *: "rs_status (snd (boot_identified api t1 t2 m s')) \<noteq> 400"
    "rs_status (snd (boot_identified api t1 t2 m s')) = 403 \<longleftrightarrow> \<not> may_boot s' m" for m s'
    using admitted_status [of api t1 t2 m "Option.bind m (lookup (app_hosts s'))" s'] by auto
  have "may_boot (s\<lparr>app_metrics := x\<rparr>) m = may_boot s m" for x m
    by (simp add: may_boot_def split: option.split)
  with * show ?thesis
    by (auto simp: boot_script_def named_def Let_def split: option.split sum.split)
qed

text \<open>A refused request touches neither the tracker, the claims nor the records: it only counts.\<close>

theorem refusal_only_counts:
  assumes "boot_script api t1 t2 q s = (s', r)" "rs_status r \<in> {400, 403}"
  shows "s'\<lparr>app_metrics := app_metrics s\<rparr> = s
    \<and> app_metrics s' = (app_metrics s)\<lparr>mt_boot_script_requests := mt_boot_script_requests (app_metrics s) + 1,
        mt_refused := mt_refused (app_metrics s) + 1\<rparr>"
proof -
  have "fst (boot_identified api t1 t2 m s0) = count_refused s0"
    if "rs_status (snd (boot_identified api t1 t2 m s0)) \<in> {400, 403}" for m s0
    using that admitted_status [of api t1 t2 m "Option.bind m (lookup (app_hosts s0))" s0]
    by (auto simp: boot_identified_def Let_def split: option.splits if_splits)
  then have "s' = count_refused (s\<lparr>app_metrics := (app_metrics s)
      \<lparr>mt_boot_script_requests := incr (mt_boot_script_requests (app_metrics s))\<rparr>\<rparr>)"
    using assms by (auto simp: boot_script_def Let_def split: option.splits sum.splits) (metis fst_conv snd_conv)+
  then show ?thesis by (simp add: count_refused_def incr_def)
qed

theorem refusal_only_counts_witness:
  "app_boot (fst (boot_script demo_api 1 2 (Some ''zz'') demo_app)) = app_boot demo_app"
proof -
  let ?r = "boot_script demo_api 1 2 (Some ''zz'') demo_app"
  have "mac_parse ''zz'' = Inl (NotHex CHR ''z'')" by code_simp
  then have "rs_status (snd ?r) = 400" by (simp add: boot_script_def)
  then have "(fst ?r)\<lparr>app_metrics := app_metrics demo_app\<rparr> = demo_app"
    using refusal_only_counts [of demo_api 1 2 "Some ''zz''" demo_app "fst ?r" "snd ?r"] by simp
  from arg_cong [OF this, of app_boot] show ?thesis by simp
qed

text \<open>A phase is accepted in any spelling of its name, in case, underscores and surrounding space, and
  nothing else is.\<close>

theorem phase_spellings:
  "parse_phase raw = Some ph \<longleftrightarrow> replace_char (CHR ''_'') (CHR ''-'') (lowercase (trim raw)) = slug ph"
  by (cases ph) (auto simp: parse_phase_def Let_def)

lemma parse_phase_slug: "parse_phase (slug ph) = Some ph"
  by (cases ph; hypsubst; code_simp)

text \<open>What a node reports in the canonical spellings is what the tracker observes.\<close>

theorem report_observed:
  "report dbg now \<lparr>rq_mac = mac_display m, rq_phase = slug ph, rq_detail = d\<rparr> s =
    (s\<lparr>app_boot := observe now m ph d (app_boot s)\<rparr>, recorded)"
  by (simp add: report_def mac_parse_display parse_phase_slug)

text \<open>The phase \<open>media-updated\<close> that the initramfs reports after it has written the boot media is
  not one of the server's: the report is refused.\<close>

theorem media_updated_refused:
  "report dbg now \<lparr>rq_mac = mac_display m, rq_phase = ''media-updated'', rq_detail = d\<rparr> s =
    (s, \<lparr>rs_status = 400, rs_body = ''unknown phase '' @ dbg ''media-updated'' @ [LF]\<rparr>)"
proof -
  have "parse_phase ''media-updated'' = None" by code_simp
  then show ?thesis by (simp add: report_def mac_parse_display)
qed

end
