(* ===== verification/Cmdline.thy ===== *)
theory Cmdline
  imports Interfaces
begin

text \<open>
  Kernel command line of the initramfs (\<open>crates/stormnetboot-init/src/cmdline.rs\<close>): the
  parameters a boot is given, the export layout computed from them, and the guard that keeps a
  flow-over away from the data slab. Reading a token is \<open>set_param\<close>, the parser folds it over
  the tokens. The lemmas give the parser's laws (what a token changes, what is ignored), the
  exact conditions of a network boot, the correspondence between exported volumes and device
  names, and which pairs of devices the guard recognises.
\<close>

section \<open>Parameters\<close>

record boot_params =
  p_portal :: "string option"
  p_port :: "u16 option"
  p_nqn :: "string option"
  p_nsid :: "u32 option"
  p_volume :: "string option"
  p_local_disk :: "string option"
  p_hostname :: "string option"
  p_role :: "string option"
  p_report_url :: "string option"
  p_mac :: "string option"
  p_slabs :: "string list"
  p_data_slab :: "string option"
  p_boothost :: "string option"
  p_tag :: "string option"
  p_namespace :: "string option"
  p_hostnqn :: "string option"
  p_meta :: "string option"
  p_image_store :: "string option"
  p_overlay :: "string option"
  p_writable :: "(string \<times> string option) list"
  p_mounts :: "(string \<times> string) list"
  p_media_dev :: "string option"

definition boot_params_default :: boot_params where
  "boot_params_default =
     \<lparr>p_portal = None, p_port = None, p_nqn = None, p_nsid = None, p_volume = None,
      p_local_disk = None, p_hostname = None, p_role = None, p_report_url = None, p_mac = None,
      p_slabs = [], p_data_slab = None, p_boothost = None, p_tag = None, p_namespace = None,
      p_hostnqn = None, p_meta = None, p_image_store = None, p_overlay = None, p_writable = [],
      p_mounts = [], p_media_dev = None\<rparr>"

definition parse_entry :: "string \<Rightarrow> string \<times> string option" where
  "parse_entry entry =
     (case split_once (CHR '':'') entry of
        Some (name, mnt) \<Rightarrow> if name \<noteq> [] \<and> mnt \<noteq> [] then (name, Some mnt) else (name, None)
      | None \<Rightarrow> (entry, None))"

definition parse_named_mounts :: "string \<Rightarrow> (string \<times> string option) list" where
  "parse_named_mounts value =
     map parse_entry (filter (\<lambda>e. e \<noteq> []) (split_by (\<lambda>c. c = CHR '','') value))"

text \<open>PXE's \<open>BOOTIF\<close>: the hardware-type prefix dropped, dashes to colons, lower case.\<close>

definition normalise_bootif :: "string \<Rightarrow> string" where
  "normalise_bootif value =
     (let trimmed = (case strip_prefix ''01-'' value of Some t \<Rightarrow> t | None \<Rightarrow> value)
      in lowercase (replace_char (CHR ''-'') (CHR '':'') trimmed))"

text \<open>The match on the key.\<close>

definition set_param :: "string \<Rightarrow> string \<Rightarrow> boot_params \<Rightarrow> boot_params" where
  "set_param key value p =
     (if key = ''rd.stormblock.portal'' then p\<lparr>p_portal := Some value\<rparr>
      else if key = ''rd.stormblock.port'' then p\<lparr>p_port := parse_word value\<rparr>
      else if key = ''rd.stormblock.nqn'' then p\<lparr>p_nqn := Some value\<rparr>
      else if key = ''rd.stormblock.nsid'' then p\<lparr>p_nsid := parse_word value\<rparr>
      else if key = ''stormblock.volume'' then p\<lparr>p_volume := Some value\<rparr>
      else if key = ''rd.stormblock.local-disk'' then p\<lparr>p_local_disk := Some value\<rparr>
      else if key = ''rd.stormblock.slab''
        then p\<lparr>p_slabs := p_slabs p @ filter (\<lambda>s. s \<noteq> []) (split_by (\<lambda>c. c = CHR '','') value)\<rparr>
      else if key = ''rd.stormblock.data-slab'' then p\<lparr>p_data_slab := Some value\<rparr>
      else if key = ''rd.stormblock.boothost'' then p\<lparr>p_boothost := Some value\<rparr>
      else if key = ''rd.stormblock.tag'' then p\<lparr>p_tag := Some value\<rparr>
      else if key = ''rd.stormblock.namespace'' then p\<lparr>p_namespace := Some value\<rparr>
      else if key = ''rd.stormblock.hostnqn'' then p\<lparr>p_hostnqn := Some value\<rparr>
      else if key = ''rd.stormblock.meta'' then p\<lparr>p_meta := Some value\<rparr>
      else if key = ''rd.stormblock.image-store'' then p\<lparr>p_image_store := Some value\<rparr>
      else if key = ''rd.stormblock.overlay'' then p\<lparr>p_overlay := Some value\<rparr>
      else if key = ''rd.stormblock.writable'' then p\<lparr>p_writable := parse_named_mounts value\<rparr>
      else if key = ''rd.stormblock.mount''
        then p\<lparr>p_mounts := List.map_filter (\<lambda>(n, m). map_option (\<lambda>x. (n, x)) m) (parse_named_mounts value)\<rparr>
      else if key = ''rd.stormnetboot.media'' then p\<lparr>p_media_dev := Some value\<rparr>
      else if key = ''storm.hostname'' then p\<lparr>p_hostname := Some value\<rparr>
      else if key = ''storm.role'' then p\<lparr>p_role := Some value\<rparr>
      else if key = ''storm.report'' then p\<lparr>p_report_url := Some value\<rparr>
      else if key = ''storm.mac'' \<or> key = ''BOOTIF'' then p\<lparr>p_mac := Some (normalise_bootif value)\<rparr>
      else p)"

definition apply_token :: "boot_params \<Rightarrow> string \<Rightarrow> boot_params" where
  "apply_token p token =
     (case split_once (CHR ''='') token of
        None \<Rightarrow> p
      | Some (key, value) \<Rightarrow> if value = [] then p else set_param key value p)"

definition boot_params_parse :: "string \<Rightarrow> boot_params" where
  "boot_params_parse cmdline = foldl apply_token boot_params_default (split_whitespace cmdline)"

section \<open>Questions asked of the parameters\<close>

definition nvme_uri :: "boot_params \<Rightarrow> string option" where
  "nvme_uri p =
     (case p_portal p of None \<Rightarrow> None | Some portal \<Rightarrow>
      (case p_port p of None \<Rightarrow> None | Some port \<Rightarrow>
      (case p_nqn p of None \<Rightarrow> None | Some nqn \<Rightarrow>
         let nsid = (case p_nsid p of Some n \<Rightarrow> n | None \<Rightarrow> 1)
         in Some (''nvme-tcp://'' @ portal @ '':'' @ show_word port @ ''/'' @ nqn @ ''?nsid='' @ show_word nsid))))"

definition boothost_claim :: "boot_params \<Rightarrow> (string \<times> string \<times> string) option" where
  "boothost_claim p =
     (case (p_boothost p, p_tag p) of
        (Some host, Some tag) \<Rightarrow> Some (host, tag, case p_namespace p of Some n \<Rightarrow> n | None \<Rightarrow> ''boothost'')
      | _ \<Rightarrow> None)"

definition is_network_boot :: "boot_params \<Rightarrow> bool" where
  "is_network_boot p \<longleftrightarrow> nvme_uri p \<noteq> None \<or> boothost_claim p \<noteq> None"

definition all_slabs :: "boot_params \<Rightarrow> string list" where
  "all_slabs p =
     (let slabs = (case nvme_uri p of Some uri \<Rightarrow> [uri] | None \<Rightarrow> []) @ p_slabs p
      in (case p_data_slab p of
            Some data \<Rightarrow> if data \<notin> set slabs then slabs @ [data] else slabs
          | None \<Rightarrow> slabs))"

definition missing :: "boot_params \<Rightarrow> string list" where
  "missing p =
     (if p_portal p = None then [''rd.stormblock.portal''] else [])
     @ (if p_port p = None then [''rd.stormblock.port''] else [])
     @ (if p_nqn p = None then [''rd.stormblock.nqn''] else [])
     @ (if p_boothost p \<noteq> None \<and> p_tag p = None then [''rd.stormblock.tag''] else [])"

section \<open>Exports\<close>

record export_plan =
  xp_writable_args :: "string list"
  xp_mount_map :: "(string \<times> string) list"
  xp_fstab_writable :: "(string \<times> string) list"
  xp_image_store :: "(string \<times> string) option"

definition IMAGE_STORE_MOUNT :: string where
  "IMAGE_STORE_MOUNT = ''/var/lib/stormcos/image-store''"

definition ublk :: "u32 \<Rightarrow> string" where
  "ublk idx = ''/dev/ublkb'' @ show_word idx"

fun plan_writable :: "(string \<times> string option) list \<Rightarrow> u32 \<Rightarrow> export_plan \<Rightarrow> u32 \<times> export_plan" where
  "plan_writable [] idx plan = (idx, plan)"
| "plan_writable ((name, mnt) # rest) idx plan =
     (let plan1 = plan\<lparr>xp_writable_args := xp_writable_args plan @ [name]\<rparr>;
          plan2 = (case mnt of
                     Some m \<Rightarrow> plan1\<lparr>xp_fstab_writable := xp_fstab_writable plan1 @ [(ublk idx, m)]\<rparr>
                   | None \<Rightarrow> plan1)
      in plan_writable rest (idx + 1) plan2)"

fun plan_mounts :: "(string \<times> string) list \<Rightarrow> u32 \<Rightarrow> export_plan \<Rightarrow> export_plan" where
  "plan_mounts [] idx plan = plan"
| "plan_mounts ((name, mnt) # rest) idx plan =
     plan_mounts rest (idx + 1)
       (plan\<lparr>xp_writable_args := xp_writable_args plan @ [name],
             xp_mount_map := xp_mount_map plan @ [(ublk idx, mnt)]\<rparr>)"

definition make_export_plan :: "boot_params \<Rightarrow> export_plan" where
  "make_export_plan p =
     (let plan0 = \<lparr>xp_writable_args = [], xp_mount_map = [], xp_fstab_writable = [], xp_image_store = None\<rparr>;
          (idx, plan1) = (if p_image_store p \<noteq> None
                          then (2, plan0\<lparr>xp_image_store := Some (''/dev/ublkb1'', IMAGE_STORE_MOUNT)\<rparr>)
                          else (1, plan0));
          (idx2, plan2) = plan_writable (p_writable p) idx plan1
      in plan_mounts (p_mounts p) idx2 plan2)"

section \<open>The guard of the data slab\<close>

text \<open>\<open>split_last c s\<close> is the text before and after the last \<open>c\<close> (\<open>rfind\<close>, \<open>rsplit\<close>).\<close>

definition split_last :: "char \<Rightarrow> string \<Rightarrow> (string \<times> string) option" where
  "split_last c s = map_option (\<lambda>(a, b). (rev b, rev a)) (split_once c (rev s))"

definition device_base :: "string \<Rightarrow> string" where
  "device_base path =
     (let name = (case split_last (CHR ''/'') path of Some (_, b) \<Rightarrow> b | None \<Rightarrow> path);
          prefix = take (length path - length name) path;
          plain = (if starts_with ''nvme'' name \<or> starts_with ''mmcblk'' name \<or> starts_with ''loop'' name
                   then path else prefix @ trim_end_matches is_digit name)
      in (case split_last (CHR ''p'') name of
            Some (head, digits) \<Rightarrow>
              if digits \<noteq> [] \<and> list_all is_digit digits \<and> head \<noteq> [] \<and> is_digit (last head)
              then prefix @ head else plain
          | None \<Rightarrow> plain))"

definition check_local_disk :: "boot_params \<Rightarrow> string + unit" where
  "check_local_disk p =
     (case (p_local_disk p, p_data_slab p) of
        (Some disk, Some data) \<Rightarrow>
          if device_base disk = device_base data
          then Inl (''refusing flow-over onto '' @ disk @ '': it holds the data slab '' @ data
                    @ '', and formatting it would destroy this node'' @ [CHR 0x27] @ ''s identity'')
          else Inr ()
      | _ \<Rightarrow> Inr ())"

section \<open>What the parser reads\<close>

text \<open>The last non-empty value given for a key.\<close>

definition token_value :: "string \<Rightarrow> string \<Rightarrow> string option" where
  "token_value key token =
     (case split_once (CHR ''='') token of
        Some (k, v) \<Rightarrow> if k = key \<and> v \<noteq> [] then Some v else None
      | None \<Rightarrow> None)"

definition last_value :: "string \<Rightarrow> string list \<Rightarrow> string option" where
  "last_value key tokens =
     foldl (\<lambda>acc t. case token_value key t of Some v \<Rightarrow> Some v | None \<Rightarrow> acc) None tokens"

definition values_of :: "string \<Rightarrow> string list \<Rightarrow> string list" where
  "values_of key tokens = List.map_filter (token_value key) tokens"

lemma last_value_snoc [simp]:
  "last_value key [] = None"
  "last_value key (ts @ [t]) = (case token_value key t of Some v \<Rightarrow> Some v | None \<Rightarrow> last_value key ts)"
  by (simp_all add: last_value_def split: option.split)

text \<open>A field that one key sets, whatever the others do.\<close>

lemma field_of_key:
  assumes "\<And>p k v. f (set_param k v p) = (if k = key then g v else f p)"
  shows "f (foldl apply_token p ts) = (case last_value key ts of Some v \<Rightarrow> g v | None \<Rightarrow> f p)"
  by (induction ts rule: rev_induct)
    (auto simp: apply_token_def token_value_def assms split: option.splits)

lemma set_param_fields:
  "p_portal (set_param k v p) = (if k = ''rd.stormblock.portal'' then Some v else p_portal p)"
  "p_port (set_param k v p) = (if k = ''rd.stormblock.port'' then parse_word v else p_port p)"
  "p_nqn (set_param k v p) = (if k = ''rd.stormblock.nqn'' then Some v else p_nqn p)"
  "p_nsid (set_param k v p) = (if k = ''rd.stormblock.nsid'' then parse_word v else p_nsid p)"
  "p_volume (set_param k v p) = (if k = ''stormblock.volume'' then Some v else p_volume p)"
  "p_local_disk (set_param k v p) = (if k = ''rd.stormblock.local-disk'' then Some v else p_local_disk p)"
  "p_data_slab (set_param k v p) = (if k = ''rd.stormblock.data-slab'' then Some v else p_data_slab p)"
  "p_boothost (set_param k v p) = (if k = ''rd.stormblock.boothost'' then Some v else p_boothost p)"
  "p_tag (set_param k v p) = (if k = ''rd.stormblock.tag'' then Some v else p_tag p)"
  "p_hostname (set_param k v p) = (if k = ''storm.hostname'' then Some v else p_hostname p)"
  "p_role (set_param k v p) = (if k = ''storm.role'' then Some v else p_role p)"
  "p_report_url (set_param k v p) = (if k = ''storm.report'' then Some v else p_report_url p)"
  "p_media_dev (set_param k v p) = (if k = ''rd.stormnetboot.media'' then Some v else p_media_dev p)"
  "p_writable (set_param k v p) = (if k = ''rd.stormblock.writable'' then parse_named_mounts v else p_writable p)"
  "p_slabs (set_param k v p) = (if k = ''rd.stormblock.slab''
     then p_slabs p @ filter (\<lambda>s. s \<noteq> []) (split_by (\<lambda>c. c = CHR '','') v) else p_slabs p)"
  unfolding set_param_def by simp_all

lemma slabs_of_tokens:
  "p_slabs (foldl apply_token p ts) =
     p_slabs p @ concat (map (\<lambda>v. filter (\<lambda>s. s \<noteq> []) (split_by (\<lambda>c. c = CHR '','') v))
                          (values_of ''rd.stormblock.slab'' ts))"
  by (induction ts rule: rev_induct)
    (auto simp: values_of_def map_filter_def apply_token_def token_value_def set_param_fields split: option.splits)

text \<open>What a boot is told: each parameter is the last non-empty value given for its key, on the
  whole command line; the port and the namespace id are that value read as a number of their
  width (and absent when it is not one); slabs accumulate over all their occurrences; every
  token that is not a known key with a value is ignored.\<close>

theorem parse_reads_last_value:
  "p_portal (boot_params_parse s) = last_value ''rd.stormblock.portal'' (split_whitespace s)
   \<and> p_port (boot_params_parse s) = Option.bind (last_value ''rd.stormblock.port'' (split_whitespace s)) parse_word
   \<and> p_nqn (boot_params_parse s) = last_value ''rd.stormblock.nqn'' (split_whitespace s)
   \<and> p_nsid (boot_params_parse s) = Option.bind (last_value ''rd.stormblock.nsid'' (split_whitespace s)) parse_word
   \<and> p_volume (boot_params_parse s) = last_value ''stormblock.volume'' (split_whitespace s)
   \<and> p_local_disk (boot_params_parse s) = last_value ''rd.stormblock.local-disk'' (split_whitespace s)
   \<and> p_data_slab (boot_params_parse s) = last_value ''rd.stormblock.data-slab'' (split_whitespace s)
   \<and> p_boothost (boot_params_parse s) = last_value ''rd.stormblock.boothost'' (split_whitespace s)
   \<and> p_tag (boot_params_parse s) = last_value ''rd.stormblock.tag'' (split_whitespace s)
   \<and> p_hostname (boot_params_parse s) = last_value ''storm.hostname'' (split_whitespace s)
   \<and> p_slabs (boot_params_parse s) =
       concat (map (\<lambda>v. filter (\<lambda>x. x \<noteq> []) (split_by (\<lambda>c. c = CHR '','') v))
         (values_of ''rd.stormblock.slab'' (split_whitespace s)))"
  unfolding boot_params_parse_def
  using field_of_key [of p_portal, OF set_param_fields(1)] field_of_key [of p_port, OF set_param_fields(2)]
    field_of_key [of p_nqn, OF set_param_fields(3)] field_of_key [of p_nsid, OF set_param_fields(4)]
    field_of_key [of p_volume, OF set_param_fields(5)] field_of_key [of p_local_disk, OF set_param_fields(6)]
    field_of_key [of p_data_slab, OF set_param_fields(7)] field_of_key [of p_boothost, OF set_param_fields(8)]
    field_of_key [of p_tag, OF set_param_fields(9)] field_of_key [of p_hostname, OF set_param_fields(10)]
  by (simp add: slabs_of_tokens boot_params_default_def split: option.split)

text \<open>Text appended to a command line is read after it.\<close>

lemma parse_append:
  "boot_params_parse (s @ CHR '' '' # t) = foldl apply_token (boot_params_parse s) (split_whitespace t)"
  by (simp add: boot_params_parse_def split_whitespace_append)

lemma apply_token_param:
  "CHR ''='' \<notin> set key \<Longrightarrow> value \<noteq> [] \<Longrightarrow> apply_token p (key @ CHR ''='' # value) = set_param key value p"
  by (simp add: apply_token_def split_once_append)

section \<open>Network boots\<close>

text \<open>A remote root can be named exactly when none of its three parts is reported missing, and a
  claim can be made of a named appliance exactly when the identity is not.\<close>

theorem missing_explains:
  "(nvme_uri p = None) = (\<not> set (missing p) \<inter> {''rd.stormblock.portal'', ''rd.stormblock.port'', ''rd.stormblock.nqn''} = {})
   \<and> (p_boothost p \<noteq> None \<and> boothost_claim p = None) = (''rd.stormblock.tag'' \<in> set (missing p))"
  by (auto simp: nvme_uri_def missing_def boothost_claim_def Let_def split: option.splits)

text \<open>The slabs that are attached: the remote root, the named ones and the data slab.\<close>

lemma all_slabs_set:
  "set (all_slabs p) = set_option (nvme_uri p) \<union> set (p_slabs p) \<union> set_option (p_data_slab p)"
  by (auto simp: all_slabs_def Let_def split: option.splits)

section \<open>Exports and their devices\<close>

definition first_index :: "boot_params \<Rightarrow> u32" where
  "first_index p = (if p_image_store p \<noteq> None then 2 else 1)"

text \<open>The device on which the engine puts the \<open>k\<close>-th exported volume.\<close>

definition device_of :: "boot_params \<Rightarrow> nat \<Rightarrow> string" where
  "device_of p k = ublk (first_index p + of_nat k)"

definition indexed :: "'a list \<Rightarrow> (nat \<times> 'a) list" where
  "indexed xs = zip [0..<length xs] xs"

lemma indexed_simps [simp]:
  "indexed [] = []"
  "indexed (x # xs) = (0, x) # map (\<lambda>(k, y). (Suc k, y)) (indexed xs)"
  by (auto simp: indexed_def map_Suc_upt [symmetric] zip_map1 upt_conv_Cons simp del: upt_Suc)

lemma plan_writable_eq:
  "plan_writable ws idx plan =
    (idx + of_nat (length ws),
     plan\<lparr>xp_writable_args := xp_writable_args plan @ map fst ws,
          xp_fstab_writable := xp_fstab_writable plan
            @ List.map_filter (\<lambda>(k, _, mnt). map_option (Pair (ublk (idx + of_nat k))) mnt) (indexed ws)\<rparr>)"
proof (induction ws idx plan rule: plan_writable.induct)
  case (2 name mnt rest idx plan)
  then show ?case
    by (simp add: Let_def map_filter_def filter_map comp_def case_prod_beta add.assoc split: option.split)
qed (simp add: map_filter_def)

lemma plan_mounts_eq:
  "plan_mounts ms idx plan =
    plan\<lparr>xp_writable_args := xp_writable_args plan @ map fst ms,
         xp_mount_map := xp_mount_map plan @ map (\<lambda>(k, _, mnt). (ublk (idx + of_nat k), mnt)) (indexed ms)\<rparr>"
proof (induction ms idx plan rule: plan_mounts.induct)
  case (2 name mnt rest idx plan)
  then show ?case by (simp add: case_prod_beta comp_def add.assoc)
qed simp

text \<open>The order of the volumes handed to the engine and the devices the mounts use come from one
  numbering: the writable volumes and then the mounts are exported in order, and the \<open>k\<close>-th of
  them is mounted (by this program or through the real root's table) from the \<open>k\<close>-th device
  after the root and the image store.\<close>

theorem export_plan_devices:
  "xp_writable_args (make_export_plan p) = map fst (p_writable p) @ map fst (p_mounts p)
   \<and> xp_fstab_writable (make_export_plan p) =
       List.map_filter (\<lambda>(k, _, mnt). map_option (Pair (device_of p k)) mnt) (indexed (p_writable p))
   \<and> xp_mount_map (make_export_plan p) =
       map (\<lambda>(k, _, mnt). (device_of p (length (p_writable p) + k), mnt)) (indexed (p_mounts p))
   \<and> xp_image_store (make_export_plan p) =
       (if p_image_store p = None then None else Some (''/dev/ublkb1'', IMAGE_STORE_MOUNT))"
  by (simp add: make_export_plan_def Let_def plan_writable_eq plan_mounts_eq device_of_def first_index_def
      add.assoc)

lemma show_nat_inject: "show_nat m = show_nat n \<longleftrightarrow> m = n"
  by (metis dec_value_show_nat option.inject)

lemma ublk_inject: "ublk i = ublk j \<longleftrightarrow> i = j"
  by (simp add: ublk_def show_word_def show_nat_inject unsigned_word_eqI [of i j] word_unat_eq_iff)


definition sample_params :: boot_params where
  "sample_params =
     boot_params_default\<lparr>p_image_store := Some ''img'', p_writable := [(''a'', Some ''/a''), (''b'', None)],
       p_mounts := [(''c'', ''/c'')]\<rparr>"


section \<open>What the guard recognises\<close>

text \<open>The name the kernel gives the \<open>n\<close>-th partition of a disk.\<close>

definition partition_of :: "string \<Rightarrow> nat \<Rightarrow> string" where
  "partition_of disk n = (if is_digit (last disk) then disk @ CHR ''p'' # show_nat n else disk @ show_nat n)"

lemma split_last_append [simp]: "c \<notin> set b \<Longrightarrow> split_last c (a @ c # b) = Some (a, b)"
  using split_once_append [of c "rev b" "rev a"] by (simp add: split_last_def)

lemma split_last_notin: "c \<notin> set b \<Longrightarrow> split_last c b = None"
  using split_once_notin [of c "rev b"] by (simp add: split_last_def)

lemma split_last_Some: "split_last c s = Some (a, b) \<Longrightarrow> s = a @ c # b \<and> c \<notin> set b"
proof -
  assume "split_last c s = Some (a, b)"
  then have "split_once c (rev s) = Some (rev b, rev a)" by (auto simp: split_last_def)
  from split_once_Some [OF this] have "rev s = rev b @ c # rev a" and c: "c \<notin> set b" by simp_all
  from arg_cong [OF this(1), of rev] c show ?thesis by simp
qed

lemma digits_lack:
  "list_all is_digit b \<Longrightarrow> \<not> is_digit c \<Longrightarrow> c \<notin> set b"
  by (auto simp: list_all_iff)

lemma show_nat_all_digits: "list_all is_digit (show_nat n)"
  by (simp add: list_all_iff show_nat_digits)

lemma not_digit_p [simp]: "\<not> is_digit (CHR ''p'')" "\<not> is_digit (CHR ''/'')"
  by (simp_all add: is_digit_def)

text \<open>\<open>/dev/nvme0n1p2\<close> to \<open>/dev/nvme0n1\<close>: the partition scheme of names that end in a digit.\<close>

lemma device_base_p_partition:
  assumes "CHR ''/'' \<notin> set name" "name \<noteq> []" "is_digit (last name)"
  shows "device_base (dir @ CHR ''/'' # name @ CHR ''p'' # show_nat n) = dir @ CHR ''/'' # name"
proof -
  have p: "CHR ''p'' \<notin> set (show_nat n)" "CHR ''/'' \<notin> set (show_nat n)"
    using show_nat_all_digits digits_lack by simp_all
  then have "split_last (CHR ''/'') (dir @ CHR ''/'' # name @ CHR ''p'' # show_nat n) = Some (dir, name @ CHR ''p'' # show_nat n)"
    using assms(1) split_last_append [of "CHR ''/''" "name @ CHR ''p'' # show_nat n" dir] by simp
  with p assms(2,3) show ?thesis
    by (simp add: device_base_def Let_def show_nat_all_digits)
qed

lemma trim_end_digits:
  "\<forall>c \<in> set name. \<not> is_digit c \<Longrightarrow> list_all is_digit d \<Longrightarrow> trim_end_matches is_digit (name @ d) = name"
  by (cases "rev name") (auto simp: trim_end_matches_def dropWhile_append list_all_iff
      dropWhile_eq_Nil_conv [THEN iffD2] dest: arg_cong [of _ _ rev])

text \<open>\<open>/dev/sda2\<close> to \<open>/dev/sda\<close>: the scheme of names without digits.\<close>

lemma device_base_plain_partition:
  assumes "CHR ''/'' \<notin> set name" "\<forall>c \<in> set name. \<not> is_digit c" "list_all is_digit d"
    "\<not> starts_with ''nvme'' (name @ d)" "\<not> starts_with ''mmcblk'' (name @ d)" "\<not> starts_with ''loop'' (name @ d)"
  shows "device_base (dir @ CHR ''/'' # name @ d) = dir @ CHR ''/'' # name"
proof -
  have sl: "split_last (CHR ''/'') (dir @ CHR ''/'' # name @ d) = Some (dir, name @ d)"
    using assms(1) digits_lack [OF assms(3), of "CHR ''/''"] split_last_append [of "CHR ''/''" "name @ d" dir] by simp
  have "\<not> is_digit (last h)" if "split_last (CHR ''p'') (name @ d) = Some (h, t)" "h \<noteq> []" for h t
  proof -
    have eq: "name @ d = h @ CHR ''p'' # t" using split_last_Some [OF that(1)] by simp
    have "CHR ''p'' \<notin> set d" using digits_lack [OF assms(3)] by simp
    with eq obtain r where "name = h @ CHR ''p'' # r"
      by (auto simp: append_eq_append_conv2 Cons_eq_append_conv append_eq_Cons_conv)
    with that(2) assms(2) show ?thesis by simp
  qed
  then show ?thesis
    using assms(4-6)
    by (auto simp: device_base_def Let_def sl trim_end_digits [OF assms(2,3)] split: option.split)
qed

text \<open>A disk the guard knows: a name that ends in a digit and is one of the whole devices, or a name
  without digits that is not one of those families.\<close>

definition whole_family :: "string \<Rightarrow> bool" where
  "whole_family name \<longleftrightarrow> starts_with ''nvme'' name \<or> starts_with ''mmcblk'' name \<or> starts_with ''loop'' name"

definition known_disk :: "string \<Rightarrow> string \<Rightarrow> bool" where
  "known_disk dir name \<longleftrightarrow> name \<noteq> [] \<and> CHR ''/'' \<notin> set name \<and>
     (if is_digit (last name) then device_base (dir @ CHR ''/'' # name) = dir @ CHR ''/'' # name
      else list_all (\<lambda>c. \<not> is_digit c) name \<and> \<not> whole_family name)"

lemma starts_with_digits:
  assumes "starts_with pre (name @ d)" "list_all is_digit d" "list_all (\<lambda>c. \<not> is_digit c) pre"
  shows "starts_with pre name"
proof (cases "length pre \<le> length name")
  case True
  with assms(1) show ?thesis by (simp add: starts_with_def)
next
  case False
  with assms(1) have pre: "name @ take (length pre - length name) d = pre" by (simp add: starts_with_def)
  with assms(3) have "\<forall>c \<in> set (take (length pre - length name) d). \<not> is_digit c"
    by (metis list_all_append list_all_iff)
  then have "take (length pre - length name) d = []"
    using assms(2) by (metis last_in_set in_set_takeD list_all_iff)
  with pre have "name = pre" by simp
  then show ?thesis by (simp add: starts_with_def)
qed

lemma whole_family_digits:
  "list_all is_digit d \<Longrightarrow> whole_family (name @ d) \<Longrightarrow> whole_family name"
  by (auto simp: whole_family_def is_digit_def intro: starts_with_digits)

lemma known_disk_base:
  assumes "known_disk dir name"
  shows "device_base (dir @ CHR ''/'' # name) = dir @ CHR ''/'' # name"
    "device_base (partition_of (dir @ CHR ''/'' # name) n) = dir @ CHR ''/'' # name"
proof -
  show "device_base (dir @ CHR ''/'' # name) = dir @ CHR ''/'' # name"
    using assms device_base_plain_partition [of name "[]" dir]
    by (auto simp: known_disk_def whole_family_def list_all_iff split: if_splits)
  show "device_base (partition_of (dir @ CHR ''/'' # name) n) = dir @ CHR ''/'' # name"
    using assms device_base_p_partition [of name dir n] whole_family_digits [OF show_nat_all_digits, of name n]
      device_base_plain_partition [of name "show_nat n" dir] show_nat_all_digits [of n]
    by (auto simp: known_disk_def whole_family_def partition_of_def list_all_iff split: if_splits)
qed


lemma known_disk_samples:
  "known_disk ''/dev'' ''nvme0n1'' \<and> known_disk ''/dev'' ''sda''"
  by (simp add: known_disk_def whole_family_def device_base_def split_last_def Let_def is_digit_def
      starts_with_def trim_end_matches_def)


text \<open>Other whole devices whose names end in a digit are taken for partitions: the guard lets a
  flow-over format \<open>/dev/md0\<close> although its first partition is the data slab.\<close>

theorem guard_misses_md:
  "check_local_disk (boot_params_default\<lparr>p_local_disk := Some ''/dev/md0'',
     p_data_slab := Some (partition_of ''/dev/md0'' 1)\<rparr>) = Inr ()"
  by (simp add: check_local_disk_def boot_params_default_def partition_of_def device_base_def
      split_last_def Let_def is_digit_def starts_with_def trim_end_matches_def show_nat.simps)

end
