(* ===== verification/Media.thy ===== *)
theory Media
  imports Cmdline
begin

text \<open>
  Boot media refresh (\<open>crates/stormnetboot-init/src/media.rs\<close>): comparing the digest stamped on the
  EFI partition with the one the mounted root asks for, and rewriting the partition when they
  differ. The partition's three files are the state; each file operation is done or stops half
  way, leaving a part of what it was writing, which stands for an error and for a power cut
  alike (a rename is all or nothing). The system's own error text is left out of the messages. The lemmas show that the stamp reads back, that an
  interruption never leaves an image the machine cannot boot or a stamp that claims an image
  that is not there, and that an interrupted refresh is finished by the next one.
\<close>

section \<open>The stamp file\<close>

definition PAYLOAD_DIR :: string where
  "PAYLOAD_DIR = ''usr/lib/stormcos/boot-media''"

definition PAYLOAD_CONF :: string where
  "PAYLOAD_CONF = ''media.conf''"

definition ESP_MOUNT :: string where
  "ESP_MOUNT = ''/run/esp''"

definition ESP_UKI :: string where
  "ESP_UKI = ''EFI/BOOT/BOOTX64.EFI''"

definition ESP_CONF :: string where
  "ESP_CONF = ''stormnetboot/media.conf''"

text \<open>One line of the file: a non-empty value of the key \<open>pallet\<close>.\<close>

definition pallet_of_line :: "string \<Rightarrow> string option" where
  "pallet_of_line line0 =
     (let line = trim line0
      in if line = [] \<or> hd line = CHR ''#'' then None
         else (case split_once (CHR ''='') line of
                 None \<Rightarrow> None
               | Some (key, value) \<Rightarrow>
                   if trim key = ''pallet'' \<and> trim value \<noteq> [] then Some (trim value) else None))"

definition read_pallet :: "string \<Rightarrow> string option" where
  "read_pallet txt = first_some pallet_of_line (lines txt)"

definition conf_text :: "string \<Rightarrow> string" where
  "conf_text wanted =
     ''# written by stormnetboot-init; the digest of the UKI in '' @ ESP_UKI @ [LF]
     @ ''pallet='' @ wanted @ [LF]"

text \<open>The first twelve bytes of a digest; slicing inside a character would panic.\<close>

definition char_boundary :: "string \<Rightarrow> nat \<Rightarrow> bool" where
  "char_boundary s i \<longleftrightarrow> i = length s \<or> (i < length s \<and> \<not> (128 \<le> code_of (s ! i) \<and> code_of (s ! i) < 192))"

definition short :: "string \<Rightarrow> string option" where
  "short digest =
     (let bare = (case strip_prefix ''sha256:'' digest of Some b \<Rightarrow> b | None \<Rightarrow> digest)
      in if 12 < length bare
         then (if char_boundary bare 12 then Some (take 12 bare @ ''...'') else None)
         else Some bare)"

section \<open>Installing\<close>

record esp =
  esp_live :: "u8 list option"
  esp_staged :: "u8 list option"
  esp_conf :: "string option"

datatype esp_op = CreateDirs | CopyStaged | SyncStaged | RenameLive | WriteConf | SyncConf

text \<open>An operation is done, or stops: with that many bytes written, or before it began.\<close>

datatype op_outcome = Done | Stopped "nat option"

definition esp_done :: "u8 list \<Rightarrow> string \<Rightarrow> esp_op \<Rightarrow> esp \<Rightarrow> esp" where
  "esp_done uki wanted op e =
     (case op of
        CopyStaged \<Rightarrow> e\<lparr>esp_staged := Some uki\<rparr>
      | RenameLive \<Rightarrow> e\<lparr>esp_live := esp_staged e, esp_staged := None\<rparr>
      | WriteConf \<Rightarrow> e\<lparr>esp_conf := Some (conf_text wanted)\<rparr>
      | _ \<Rightarrow> e)"

definition esp_stopped :: "u8 list \<Rightarrow> string \<Rightarrow> esp_op \<Rightarrow> nat option \<Rightarrow> esp \<Rightarrow> esp" where
  "esp_stopped uki wanted op written e =
     (case (op, written) of
        (CopyStaged, Some k) \<Rightarrow> e\<lparr>esp_staged := Some (take k uki)\<rparr>
      | (WriteConf, Some k) \<Rightarrow> e\<lparr>esp_conf := Some (take k (conf_text wanted))\<rparr>
      | _ \<Rightarrow> e)"

fun run_ops :: "(esp_op \<Rightarrow> op_outcome) \<Rightarrow> u8 list \<Rightarrow> string \<Rightarrow> esp_op list \<Rightarrow> esp \<Rightarrow> esp \<times> bool" where
  "run_ops outcome uki wanted [] e = (e, True)"
| "run_ops outcome uki wanted (op # ops) e =
     (case outcome op of
        Done \<Rightarrow> run_ops outcome uki wanted ops (esp_done uki wanted op e)
      | Stopped written \<Rightarrow> (esp_stopped uki wanted op written e, False))"

definition install :: "(esp_op \<Rightarrow> op_outcome) \<Rightarrow> u8 list \<Rightarrow> string \<Rightarrow> esp \<Rightarrow> esp \<times> bool" where
  "install outcome uki wanted e =
     run_ops outcome uki wanted [CreateDirs, CopyStaged, SyncStaged, RenameLive, WriteConf, SyncConf] e"

section \<open>A pass\<close>

datatype text_file = Absent | Unreadable | TextFile string

definition file_pallet :: "text_file \<Rightarrow> string option" where
  "file_pallet f = (case f of TextFile t \<Rightarrow> read_pallet t | _ \<Rightarrow> None)"

text \<open>What the pass finds: the payload in the root (\<open>None\<close> when the image is not there), whether the
  partition mounts, and how the operations of an installation turn out.\<close>

record media_env =
  mv_uki :: "u8 list option"
  mv_conf :: text_file
  mv_mounts :: bool
  mv_op :: "esp_op \<Rightarrow> op_outcome"

datatype media_outcome =
    Disabled
  | Current string
  | Updated string string
  | Skipped string

definition rewrite_error :: "string \<Rightarrow> string" where
  "rewrite_error device = ''rewriting '' @ ESP_UKI @ '' on '' @ device @ '' failed''"

definition media_run :: "media_env \<Rightarrow> boot_params \<Rightarrow> esp \<Rightarrow> esp \<times> media_outcome" where
  "media_run env p e =
     (case p_media_dev p of
        None \<Rightarrow> (e, Disabled)
      | Some device \<Rightarrow>
          (case mv_uki env of
             None \<Rightarrow> (e, Skipped (''golden carries no '' @ PAYLOAD_DIR @ '' payload''))
           | Some uki \<Rightarrow>
               if mv_conf env = Absent then (e, Skipped (''golden carries no '' @ PAYLOAD_DIR @ '' payload''))
               else (case file_pallet (mv_conf env) of
                  None \<Rightarrow> (e, Skipped (PAYLOAD_DIR @ ''/'' @ PAYLOAD_CONF @ '' names no pallet digest''))
                | Some wanted \<Rightarrow>
                    if \<not> mv_mounts env
                    then (e, Skipped (''could not mount '' @ device @ '' as vfat on '' @ ESP_MOUNT))
                    else (case esp_conf e of
                       None \<Rightarrow> (e, Skipped (device @ '' carries no '' @ ESP_CONF
                                           @ ''; not stormnetboot media, refusing to write''))
                     | Some conf \<Rightarrow>
                         (let installed = (case read_pallet conf of Some v \<Rightarrow> v | None \<Rightarrow> ''unknown'')
                          in if installed = wanted then (e, Current wanted)
                             else (case install (mv_op env) uki wanted e of
                                     (e', ok) \<Rightarrow>
                                       (e', if ok then Updated installed wanted
                                            else Skipped (rewrite_error device))))))))"

text \<open>What is said of the outcome on the console (\<open>None\<close>: the pass panicked), and what is reported.\<close>

definition outcome_message :: "media_outcome \<Rightarrow> string option" where
  "outcome_message r =
     (case r of
        Disabled \<Rightarrow> Some []
      | Current digest \<Rightarrow> map_option (\<lambda>s. ''boot media current ('' @ s @ '')'') (short digest)
      | Updated from to \<Rightarrow>
          (case (short from, short to) of
             (Some a, Some b) \<Rightarrow> Some (''boot media updated '' @ a @ '' -> '' @ b @ ''; next boot runs it'')
           | _ \<Rightarrow> None)
      | Skipped why \<Rightarrow> Some (''boot media not refreshed: '' @ why))"

definition outcome_report :: "media_outcome \<Rightarrow> (string \<times> string option) list" where
  "outcome_report r =
     (case r of
        Updated from to \<Rightarrow>
          (case (short from, short to) of
             (Some a, Some b) \<Rightarrow> [(''media-updated'', Some (a @ '' -> '' @ b))]
           | _ \<Rightarrow> [])
      | _ \<Rightarrow> [])"

section \<open>The stamp reads back\<close>

definition stamp_value :: "string \<Rightarrow> bool" where
  "stamp_value v \<longleftrightarrow> v \<noteq> [] \<and> trim v = v \<and> LF \<notin> set v"

lemma lines_no_LF: "l \<in> set (lines txt) \<Longrightarrow> LF \<notin> set l"
proof -
  let ?ps = "split_by (\<lambda>c. c = LF) txt"
  assume l: "l \<in> set (lines txt)"
  have no: "LF \<notin> set q" if "q \<in> set ?ps" for q using split_by_pieces [OF that, of LF] by auto
  have lst: "last ?ps \<in> set ?ps" by (rule last_in_set) (rule split_by_ne)
  have but: "\<And>q. q \<in> set (butlast ?ps) \<Longrightarrow> q \<in> set ?ps" by (rule in_set_butlastD)
  have strip: "set (strip_cr q) \<subseteq> set q" for q
    by (auto simp: strip_cr_def split: if_splits dest: in_set_butlastD)
  from l consider (piece) q where "q \<in> set (butlast ?ps)" "l = strip_cr q" | (tail) "l = last ?ps"
    by (auto simp: lines_def Let_def split: if_splits)
  then show ?thesis
  proof cases
    case piece
    then show ?thesis using no [OF but [OF piece(1)]] strip [of q] by auto
  next
    case tail
    then show ?thesis using no [OF lst] by simp
  qed
qed

lemma read_pallet_value: "read_pallet txt = Some v \<Longrightarrow> stamp_value v"
proof -
  assume "read_pallet txt = Some v"
  then obtain l where l: "l \<in> set (lines txt)" "pallet_of_line l = Some v"
    using first_some_Some [of pallet_of_line "lines txt" v] by (auto simp: read_pallet_def)
  then obtain key val where s: "split_once (CHR ''='') (trim l) = Some (key, val)"
    and v: "v = trim val" "trim val \<noteq> []"
    by (auto simp: pallet_of_line_def Let_def split: if_splits option.splits)
  have "set v \<subseteq> set l"
    using split_once_Some [OF s] set_trim [of val] set_trim [of l] v(1) by auto
  with lines_no_LF [OF l(1)] v show ?thesis by (auto simp: stamp_value_def)
qed

lemma lines_two:
  assumes "LF \<notin> set a" "LF \<notin> set b"
  shows "lines (a @ LF # b @ [LF]) = [strip_cr a, strip_cr b]"
proof -
  have "split_by (\<lambda>c. c = LF) (a @ LF # (b @ LF # [])) = a # split_by (\<lambda>c. c = LF) (b @ LF # [])"
    by (rule split_by_append) (use assms in auto)
  also have "split_by (\<lambda>c. c = LF) (b @ LF # []) = b # split_by (\<lambda>c. c = LF) []"
    by (rule split_by_append) (use assms in auto)
  finally show ?thesis by (simp add: lines_def)
qed

lemma strip_cr_id: "s = [] \<or> last s \<noteq> CR \<Longrightarrow> strip_cr s = s"
  by (auto simp: strip_cr_def)

lemma read_conf_text: "stamp_value v \<Longrightarrow> read_pallet (conf_text v) = Some v"
proof -
  assume v: "stamp_value v"
  let ?a = "''# written by stormnetboot-init; the digest of the UKI in '' @ ESP_UKI"
  have ne: "v \<noteq> []" and tr: "trim v = v" and lf: "LF \<notin> set v" using v by (simp_all add: stamp_value_def)
  have lv: "\<not> is_ws (last v)" using last_trim [of v] ne tr by simp
  have "lines (conf_text v) = [strip_cr ?a, strip_cr (''pallet='' @ v)]"
    using lines_two [of ?a "''pallet='' @ v"] lf by (simp add: conf_text_def ESP_UKI_def)
  moreover have "strip_cr ?a = ?a" by (rule strip_cr_id) (simp add: ESP_UKI_def)
  moreover have "strip_cr (''pallet='' @ v) = ''pallet='' @ v"
    using lv ne by (intro strip_cr_id) (auto simp: is_ws_def)
  moreover have "pallet_of_line ?a = None"
    by (simp add: pallet_of_line_def ESP_UKI_def trim_id is_ws_def)
  moreover have "trim (''pallet='' @ v) = ''pallet='' @ v"
    using lv ne by (intro trim_id) (simp add: is_ws_def)
  moreover have "split_once (CHR ''='') (''pallet='' @ v) = Some (''pallet'', v)" by simp
  moreover have "trim ''pallet'' = ''pallet''" by (rule trim_id) (simp add: is_ws_def)
  ultimately show ?thesis using ne tr
    by (simp add: read_pallet_def pallet_of_line_def Let_def)
qed

section \<open>Interruptions\<close>

definition esp_stamp :: "esp \<Rightarrow> string option" where
  "esp_stamp e = Option.bind (esp_conf e) read_pallet"

lemmas esp_ops = install_def esp_done_def esp_stopped_def

lemma install_completes: "install outcome uki wanted e = (e', True) \<Longrightarrow>
    e' = e\<lparr>esp_live := Some uki, esp_staged := None, esp_conf := Some (conf_text wanted)\<rparr>"
  by (auto simp: esp_ops split: op_outcome.splits option.splits)

lemma install_interrupted:
  assumes "install outcome uki wanted e = (e', ok)"
  shows "(esp_live e' = esp_live e \<and> esp_conf e' = esp_conf e)
       \<or> (esp_live e' = Some uki
          \<and> (esp_conf e' = esp_conf e \<or> (\<exists>k. esp_conf e' = Some (take k (conf_text wanted)))))"
  using assms by (auto simp: esp_ops split: op_outcome.splits option.splits intro: exI [of _ "length (conf_text wanted)"])

text \<open>A pass that installs is an installation over a partition whose stamp differs; every other pass
  leaves the partition alone.\<close>

definition pass_wanted :: "media_env \<Rightarrow> (u8 list \<times> string) option" where
  "pass_wanted env =
     (case (mv_uki env, file_pallet (mv_conf env)) of
        (Some uki, Some wanted) \<Rightarrow> if mv_mounts env then Some (uki, wanted) else None
      | _ \<Rightarrow> None)"

definition stamp_or_unknown :: "esp \<Rightarrow> string" where
  "stamp_or_unknown e = (case esp_stamp e of Some v \<Rightarrow> v | None \<Rightarrow> ''unknown'')"

lemma file_pallet_Absent [simp]: "file_pallet Absent = None" by (simp add: file_pallet_def)

lemma media_run_pass:
  assumes "p_media_dev p = Some device" "pass_wanted env = Some (uki, wanted)" "esp_conf e = Some conf"
  shows "media_run env p e =
     (if stamp_or_unknown e = wanted then (e, Current wanted)
      else (case install (mv_op env) uki wanted e of
              (e', ok) \<Rightarrow> (e', if ok then Updated (stamp_or_unknown e) wanted else Skipped (rewrite_error device))))"
  using assms
  by (auto simp: media_run_def pass_wanted_def stamp_or_unknown_def esp_stamp_def Let_def
      split: option.splits if_splits prod.split)

lemma media_run_effect:
  assumes "media_run env p e = (e', r)"
  obtains "e' = e" "\<And>x y. r \<noteq> Updated x y" "\<And>w. r = Current w \<Longrightarrow> stamp_or_unknown e = w"
  | uki wanted ok where "pass_wanted env = Some (uki, wanted)" "esp_conf e \<noteq> None"
      "stamp_or_unknown e \<noteq> wanted" "install (mv_op env) uki wanted e = (e', ok)"
      "r = Updated (stamp_or_unknown e) wanted \<longleftrightarrow> ok" "\<And>w. r \<noteq> Current w"
proof -
  consider (same) "e' = e" "\<And>x y. r \<noteq> Updated x y" "\<And>w. r = Current w \<Longrightarrow> stamp_or_unknown e = w"
    | (inst) uki wanted ok where "pass_wanted env = Some (uki, wanted)" "esp_conf e \<noteq> None"
      "stamp_or_unknown e \<noteq> wanted" "install (mv_op env) uki wanted e = (e', ok)"
      "r = Updated (stamp_or_unknown e) wanted \<longleftrightarrow> ok" "\<And>w. r \<noteq> Current w"
    using assms
    by (auto simp: media_run_def pass_wanted_def stamp_or_unknown_def esp_stamp_def Let_def
        split: option.splits prod.splits bool.splits if_splits)
  then show ?thesis using that by cases auto
qed


definition demo_media :: "(esp_op \<Rightarrow> op_outcome) \<Rightarrow> u8 list \<Rightarrow> string \<Rightarrow> media_env" where
  "demo_media ops uki wanted =
     \<lparr>mv_uki = Some uki, mv_conf = TextFile (conf_text wanted), mv_mounts = True, mv_op = ops\<rparr>"

definition demo_media_params :: boot_params where
  "demo_media_params = boot_params_default\<lparr>p_media_dev := Some ''/dev/sda1''\<rparr>"

definition demo_esp :: "u8 list \<Rightarrow> string \<Rightarrow> esp" where
  "demo_esp live stamped = \<lparr>esp_live = Some live, esp_staged = None, esp_conf = Some (conf_text stamped)\<rparr>"

definition cut_before_stamp :: "esp_op \<Rightarrow> op_outcome" where
  "cut_before_stamp op = (if op = WriteConf then Stopped None else Done)"

lemma stamp_ab: "stamp_value ''a''" "stamp_value ''b''" "stamp_value ''unknown'' "
  by (simp_all add: stamp_value_def trim_id is_ws_def)

lemmas demo_media_simps = demo_media_def demo_media_params_def demo_esp_def cut_before_stamp_def
  pass_wanted_def stamp_or_unknown_def esp_stamp_def file_pallet_def

lemma demo_pass:
  assumes "stamp_value a" "stamp_value b"
  shows "media_run (demo_media ops uki b) demo_media_params (demo_esp live a) =
     (if a = b then (demo_esp live a, Current b)
      else (case install ops uki b (demo_esp live a) of
              (e', ok) \<Rightarrow> (e', if ok then Updated a b else Skipped (rewrite_error ''/dev/sda1''))))"
proof -
  have "stamp_or_unknown (demo_esp live a) = a"
    by (simp add: demo_media_simps read_conf_text [OF assms(1)])
  moreover have "pass_wanted (demo_media ops uki b) = Some (uki, b)"
    by (simp add: demo_media_simps read_conf_text [OF assms(2)])
  moreover have "p_media_dev demo_media_params = Some ''/dev/sda1''" "mv_op (demo_media ops uki b) = ops"
    "esp_conf (demo_esp live a) = Some (conf_text a)"
    by (simp_all add: demo_media_simps)
  ultimately show ?thesis
    using media_run_pass [of demo_media_params "''/dev/sda1''" "demo_media ops uki b" uki b
      "demo_esp live a" "conf_text a"] by (simp split: prod.split)
qed

lemma demo_media_cut:
  "media_run (demo_media cut_before_stamp [2] ''b'') demo_media_params (demo_esp [1] ''a'')
   = (demo_esp [2] ''a'', Skipped (rewrite_error ''/dev/sda1''))"
  by (subst demo_pass [OF stamp_ab(1,2)]) (simp add: demo_esp_def cut_before_stamp_def esp_ops)


section \<open>Convergence\<close>

lemma install_all_done:
  "(\<And>op. outcome op = Done) \<Longrightarrow> install outcome uki wanted e =
     (e\<lparr>esp_live := Some uki, esp_staged := None, esp_conf := Some (conf_text wanted)\<rparr>, True)"
  by (simp add: esp_ops)

lemma file_pallet_value: "file_pallet f = Some v \<Longrightarrow> stamp_value v"
  by (auto simp: file_pallet_def read_pallet_value split: text_file.splits)


lemma demo_media_again:
  "media_run (demo_media (\<lambda>_. Done) [2] ''b'') demo_media_params (demo_esp [2] ''a'')
   = (demo_esp [2] ''b'', Updated ''a'' ''b'')"
  by (subst demo_pass [OF stamp_ab(1,2)]) (simp add: demo_esp_def cut_before_stamp_def esp_ops)


text \<open>The stamp can name an image that is not there: a pass from image 1 (stamp a) to image 2 (stamp
  b) is cut after the image is renamed into place; the root is then set back to image 1; the
  next pass reads the old stamp, finds what it wants and leaves image 2 in place, and so does
  every pass after it.\<close>

theorem stale_stamp_hides_rollback:
  "media_run (demo_media cut_before_stamp [2] ''b'') demo_media_params (demo_esp [1] ''a'')
     = (demo_esp [2] ''a'', Skipped (rewrite_error ''/dev/sda1''))
   \<and> media_run (demo_media (\<lambda>_. Done) [1] ''a'') demo_media_params (demo_esp [2] ''a'')
     = (demo_esp [2] ''a'', Current ''a'')"
proof -
  have "media_run (demo_media (\<lambda>_. Done) [1] ''a'') demo_media_params (demo_esp [2] ''a'')
     = (demo_esp [2] ''a'', Current ''a'')"
    by (simp add: demo_pass [OF stamp_ab(1,1)])
  then show ?thesis using demo_media_cut by simp
qed

section \<open>Digests on the console\<close>

text \<open>A digest of ASCII characters is never cut inside one.\<close>

lemma short_of_ascii:
  assumes "list_all (\<lambda>c. code_of c < 128) d"
  shows "short d \<noteq> None"
proof -
  have "char_boundary (drop n d) 12" if "12 < length (drop n d)" for n
  proof -
    have "drop n d ! 12 \<in> set d" using that by (meson in_set_dropD nth_mem)
    then have "code_of (drop n d ! 12) < 128" using assms by (auto simp: list_all_iff)
    then show ?thesis using that by (simp add: char_boundary_def)
  qed
  from this [of 7] this [of 0] show ?thesis
    by (auto simp: short_def Let_def strip_prefix_def numeral_eq_Suc split: option.splits if_splits)
qed

end
