(* ===== verification/Report.thy ===== *)
theory Report
  imports Interfaces
begin

text \<open>
  Progress reports of the initramfs (\<open>crates/stormnetboot-init/src/report.rs\<close>): the split of the
  boot server's address, the hand-written JSON body and the request. The network is an argument:
  what a connection to an address does with the bytes of a request. The lemmas show that the
  body is one line that a JSON string reader takes back to what was put in, control characters
  apart, and where a request goes.
\<close>

record reporter =
  rp_url :: "string option"
  rp_mac :: "string option"

datatype report_error = UnsupportedScheme string | NoHost string | CannotResolve string | IoError

definition split_url :: "string \<Rightarrow> report_error + (string \<times> string)" where
  "split_url url =
     (case strip_prefix ''http://'' url of
        None \<Rightarrow> Inl (UnsupportedScheme url)
      | Some rest \<Rightarrow>
          (let authority = hd (split_by (\<lambda>c. c = CHR ''/'') rest)
           in if authority = [] then Inl (NoHost url)
              else Inr (if CHR '':'' \<in> set authority then authority else authority @ '':80'', authority)))"

definition escape_char :: "char \<Rightarrow> string" where
  "escape_char c =
     (if c = DQUOTE then [BSLASH, DQUOTE]
      else if c = BSLASH then [BSLASH, BSLASH]
      else if c = LF then [BSLASH, CHR ''n'']
      else if c = CR then [BSLASH, CHR ''r'']
      else if c = TAB then [BSLASH, CHR ''t'']
      else if code_of c < 32 then '' ''
      else [c])"

definition escape :: "string \<Rightarrow> string" where
  "escape s = concat (map escape_char s)"

definition quoted :: "string \<Rightarrow> string" where
  "quoted s = [DQUOTE] @ escape s @ [DQUOTE]"

definition field_text :: "string \<Rightarrow> string \<Rightarrow> string" where
  "field_text key v = [DQUOTE] @ key @ [DQUOTE] @ '':'' @ quoted v"

definition build_body :: "string \<Rightarrow> string \<Rightarrow> string option \<Rightarrow> string" where
  "build_body mac phase detail =
     ''{'' @ field_text ''mac'' mac @ '','' @ field_text ''phase'' phase
     @ (case detail of Some d \<Rightarrow> '','' @ field_text ''detail'' d | None \<Rightarrow> [])
     @ ''}''"

definition crlf :: string where
  "crlf = [CR, LF]"

definition request_text :: "string \<Rightarrow> string \<Rightarrow> string" where
  "request_text host body =
     ''POST /api/v1/report HTTP/1.1'' @ crlf @ ''Host: '' @ host @ crlf
     @ ''Content-Type: application/json'' @ crlf @ ''Content-Length: '' @ show_nat (length body) @ crlf
     @ ''Connection: close'' @ crlf @ crlf @ body"

text \<open>The network: the addresses a name resolves to, and whether the bytes could be sent.\<close>

record network =
  nw_resolve :: "string \<Rightarrow> string list option"
  nw_send :: "string \<Rightarrow> string \<Rightarrow> bool"

text \<open>The request that is sent, if one is: where to, and its text.\<close>

definition try_post :: "network \<Rightarrow> reporter \<Rightarrow> string \<Rightarrow> string option \<Rightarrow> report_error + (string \<times> string) option" where
  "try_post nw rp phase detail =
     (case (rp_url rp, rp_mac rp) of
        (Some url, Some mac) \<Rightarrow>
          (case split_url url of
             Inl e \<Rightarrow> Inl e
           | Inr (host_port, host_header) \<Rightarrow>
               (let txt = request_text host_header (build_body mac phase detail)
                in case nw_resolve nw host_port of
                     None \<Rightarrow> Inl IoError
                   | Some [] \<Rightarrow> Inl (CannotResolve host_port)
                   | Some (addr # _) \<Rightarrow> if nw_send nw addr txt then Inr (Some (addr, txt)) else Inl IoError))
      | _ \<Rightarrow> Inr None)"

section \<open>Reading a body back\<close>

text \<open>The reader of a JSON string (after its opening quote): escapes of the kind written above; a raw
  control character is not JSON.\<close>

fun json_string :: "string \<Rightarrow> (string \<times> string) option" where
  "json_string [] = None"
| "json_string (c # s) =
     (if c = DQUOTE then Some ([], s)
      else if c = BSLASH then
        (case s of
           [] \<Rightarrow> None
         | e # s' \<Rightarrow>
             (case (if e = CHR ''n'' then Some LF else if e = CHR ''r'' then Some CR
                    else if e = CHR ''t'' then Some TAB
                    else if e = DQUOTE \<or> e = BSLASH then Some e else None) of
                None \<Rightarrow> None
              | Some x \<Rightarrow> map_option (\<lambda>(v, r). (x # v, r)) (json_string s')))
      else if code_of c < 32 then None
      else map_option (\<lambda>(v, r). (c # v, r)) (json_string s))"

text \<open>What survives: every control character but the three with an escape becomes a space.\<close>

definition blank_controls :: "string \<Rightarrow> string" where
  "blank_controls s = map (\<lambda>c. if code_of c < 32 \<and> c \<notin> {LF, CR, TAB} then CHR '' '' else c) s"

lemma json_string_escape:
  "json_string (escape s @ DQUOTE # rest) = Some (blank_controls s, rest)"
  by (induction s) (auto simp: escape_def escape_char_def blank_controls_def)

definition json_field :: "string \<Rightarrow> string \<Rightarrow> (string \<times> string) option" where
  "json_field key s = Option.bind (strip_prefix ([DQUOTE] @ key @ [DQUOTE] @ '':'' @ [DQUOTE]) s) json_string"

text \<open>The reader of the whole body: three fields in the order they are written, the last optional.\<close>

definition read_body :: "string \<Rightarrow> (string \<times> string \<times> string option) option" where
  "read_body s =
     Option.bind (strip_prefix ''{'' s) (\<lambda>s1.
     Option.bind (json_field ''mac'' s1) (\<lambda>(mac, s2).
     Option.bind (strip_prefix '','' s2) (\<lambda>s3.
     Option.bind (json_field ''phase'' s3) (\<lambda>(phase, s4).
       if s4 = ''}'' then Some (mac, phase, None)
       else Option.bind (strip_prefix '','' s4) (\<lambda>s5.
            Option.bind (json_field ''detail'' s5) (\<lambda>(detail, s6).
              if s6 = ''}'' then Some (mac, phase, Some detail) else None))))))"

lemma json_field_text:
  "json_field key (field_text key v @ rest) = Some (blank_controls v, rest)"
proof -
  have "strip_prefix ([DQUOTE] @ key @ [DQUOTE] @ '':'' @ [DQUOTE])
      (([DQUOTE] @ key @ [DQUOTE] @ '':'' @ [DQUOTE]) @ (escape v @ DQUOTE # rest)) = Some (escape v @ DQUOTE # rest)"
    by (rule strip_prefix_append)
  then show ?thesis by (simp add: json_field_def field_text_def quoted_def json_string_escape)
qed

lemma strip_one: "strip_prefix [c] (c # s) = Some s"
  by (simp add: strip_prefix_def starts_with_def)

lemma body_read:
  "read_body (build_body mac phase detail) =
     Some (blank_controls mac, blank_controls phase, map_option blank_controls detail)"
  by (cases detail) (simp_all add: read_body_def build_body_def json_field_text strip_one)

section \<open>Properties\<close>

lemma escape_char_one_line: "LF \<notin> set (escape_char c)"
  unfolding escape_char_def by (simp split: if_split)

lemma escape_one_line: "LF \<notin> set (escape s)"
  using escape_char_one_line by (simp add: escape_def)

text \<open>C35: Whatever the address, the phase and the detail hold, quotes, backslashes, newlines and control
  characters included, the body is one line, and reading its fields gives them back with the
  other control characters blanked.\<close>

theorem body_reads_back:
  "read_body (build_body mac phase detail) =
     Some (blank_controls mac, blank_controls phase, map_option blank_controls detail)
   \<and> LF \<notin> set (build_body mac phase detail)"
proof
  show "read_body (build_body mac phase detail) =
     Some (blank_controls mac, blank_controls phase, map_option blank_controls detail)"
    by (rule body_read)
  show "LF \<notin> set (build_body mac phase detail)"
    using escape_one_line
    by (auto simp: build_body_def field_text_def quoted_def split: option.split)
qed

text \<open>A reporter without an address to report to, or without an identity, sends nothing.\<close>

lemma reporter_inert: "rp_url rp = None \<or> rp_mac rp = None \<Longrightarrow> try_post nw rp phase detail = Inr None"
  by (auto simp: try_post_def split: option.split)

lemma split_url_port: "split_url url = Inr (c, h) \<Longrightarrow> CHR '':'' \<in> set c \<and> CHR ''/'' \<notin> set h \<and> h \<noteq> []"
  by (auto simp: split_url_def Let_def split: option.splits if_splits
      dest!: split_by_pieces [OF hd_in_set [OF split_by_ne]])

end
