(* ===== verification/Steps.thy ===== *)
theory Steps
  imports Media Report
begin

text \<open>
  The boot sequence (\<open>crates/stormnetboot-init/src/steps.rs\<close>) and the initramfs' \<open>main.rs\<close>.
  Everything the sequence does is an action, and its state is the list of the actions done so
  far; what the machine answers (the result of a command, whether a path exists, the content of
  a file, how much time has passed) is an argument, a function of that list. A step either goes
  on with a value or stops: with an error, with a panic, or by handing the machine over to the
  new root's init. What is proved of
  the sequence is in \<open>Boot_Sequence\<close>.
\<close>

section \<open>Actions and the machine\<close>

datatype action =
    Console string string
  | Eprint string
  | Exec string "string list" "(string \<times> string) list"
  | Spawn string "string list" "(string \<times> string) list"
  | KillEngine
  | MkDir string
  | WriteFile string string
  | AppendLine string string
  | CopyFile string string
  | Sleep nat
  | MediaPass esp
  | PhaseReport string "string option"
  | Posted string string

type_synonym trace = "action list"

datatype cmd_result = CannotRun string | Exited bool string string

datatype write_result = Written | OpenFailed string | WriteFailed string

text \<open>Time is read against a start: the sleeps in between have passed, and some more. The first
  argument of \<open>wd_lag\<close> tells the readings made between two actions apart.\<close>

record world =
  wd_cmd :: "trace \<Rightarrow> cmd_result"
  wd_exists :: "trace \<Rightarrow> string \<Rightarrow> bool"
  wd_read :: "trace \<Rightarrow> string \<Rightarrow> string option"
  wd_list :: "trace \<Rightarrow> string \<Rightarrow> string list option"
  wd_write :: "trace \<Rightarrow> write_result"
  wd_lag :: "nat \<Rightarrow> trace \<Rightarrow> trace \<Rightarrow> nat"
  wd_net :: "trace \<Rightarrow> network"
  wd_media :: "trace \<Rightarrow> media_env \<times> esp"

datatype stop = BootError string | Panicked | HandedOver string

type_synonym 'a io = "trace \<Rightarrow> trace \<times> (stop + 'a)"

definition return_io :: "'a \<Rightarrow> 'a io" where
  "return_io x tr = (tr, Inr x)"

definition stop_io :: "stop \<Rightarrow> 'a io" where
  "stop_io e tr = (tr, Inl e)"

definition bind_io :: "'a io \<Rightarrow> ('a \<Rightarrow> 'b io) \<Rightarrow> 'b io" where
  "bind_io m f tr = (case m tr of (tr', Inl e) \<Rightarrow> (tr', Inl e) | (tr', Inr x) \<Rightarrow> f x tr')"

definition then_io :: "'a io \<Rightarrow> 'b io \<Rightarrow> 'b io" where
  "then_io m m' = bind_io m (\<lambda>_. m')"

definition act :: "action \<Rightarrow> unit io" where
  "act a tr = (tr @ [a], Inr ())"

definition ask :: "(trace \<Rightarrow> 'a) \<Rightarrow> 'a io" where
  "ask f tr = (tr, Inr (f tr))"

fun each_io :: "('a \<Rightarrow> unit io) \<Rightarrow> 'a list \<Rightarrow> unit io" where
  "each_io f [] = return_io ()"
| "each_io f (x # xs) = then_io (f x) (each_io f xs)"

text \<open>\<open>anyhow\<close>'s context: what was being done, before the error.\<close>

definition in_context :: "string \<Rightarrow> 'a io \<Rightarrow> 'a io" where
  "in_context c m tr =
     (case m tr of
        (tr', Inl (BootError e)) \<Rightarrow> (tr', Inl (BootError (c @ '': '' @ e)))
      | r \<Rightarrow> r)"

definition bail :: "string \<Rightarrow> 'a io" where
  "bail msg = stop_io (BootError msg)"

definition exec :: "world \<Rightarrow> string \<Rightarrow> string list \<Rightarrow> (string \<times> string) list \<Rightarrow> cmd_result io" where
  "exec w prog args env = then_io (act (Exec prog args env)) (ask (wd_cmd w))"

fun succeeded :: "cmd_result \<Rightarrow> bool" where
  "succeeded (CannotRun _) = False"
| "succeeded (Exited ok _ _) = ok"

definition first_word :: "string \<Rightarrow> string option" where
  "first_word s = (case split_whitespace s of [] \<Rightarrow> None | x # _ \<Rightarrow> Some x)"

definition stamp :: "world \<Rightarrow> string \<Rightarrow> unit io" where
  "stamp w msg =
     bind_io (ask (\<lambda>tr. Option.bind (wd_read w tr ''/proc/uptime'') first_word))
       (\<lambda>up. act (Console (case up of Some u \<Rightarrow> u | None \<Rightarrow> ''?'') msg))"

definition tracing_warn :: "string \<Rightarrow> unit io" where
  "tracing_warn msg = act (Eprint (''stormnetboot-init: warning: '' @ msg))"

definition reporter_phase :: "world \<Rightarrow> reporter \<Rightarrow> string \<Rightarrow> string option \<Rightarrow> unit io" where
  "reporter_phase w rp ph detail =
     then_io (act (PhaseReport ph detail))
       (bind_io (ask (\<lambda>tr. try_post (wd_net w tr) rp ph detail))
         (\<lambda>r. case r of
                Inl _ \<Rightarrow> act (Eprint (''stormnetboot-init: report '' @ ph @ '' failed''))
              | Inr (Some (addr, txt)) \<Rightarrow> act (Posted addr txt)
              | Inr None \<Rightarrow> return_io ()))"

section \<open>Preparation\<close>

definition STORMBLOCK :: string where "STORMBLOCK = ''/usr/sbin/stormblock''"
definition ROOT_DEV :: string where "ROOT_DEV = ''/dev/ublkb0''"
definition SYSROOT :: string where "SYSROOT = ''/sysroot''"

definition REQUIRED_MODULES :: "string list" where
  "REQUIRED_MODULES = [''nvme_tcp'', ''ublk_drv'', ''erofs'', ''overlay'', ''ext4'', ''xfs'', ''vfat'']"

definition DEVICE_TIMEOUT :: nat where "DEVICE_TIMEOUT = 60000"

definition is_mounted :: "world \<Rightarrow> string \<Rightarrow> trace \<Rightarrow> bool" where
  "is_mounted w target tr =
     (case wd_read w tr ''/proc/mounts'' of
        None \<Rightarrow> False
      | Some m \<Rightarrow> list_ex (\<lambda>l. nth_opt 1 (split_by (\<lambda>c. c = CHR '' '') l) = Some target) (lines m))"

definition mount_pseudo :: "world \<Rightarrow> string \<times> string \<times> string \<Rightarrow> unit io" where
  "mount_pseudo w = (\<lambda>(src, target, fstype).
     then_io (act (MkDir target))
       (bind_io (ask (is_mounted w target)) (\<lambda>mounted.
          if mounted then return_io ()
          else bind_io (exec w ''/bin/mount'' [''-t'', fstype, src, target] []) (\<lambda>r.
            case r of
              Exited ok code _ \<Rightarrow> if ok then return_io ()
                else tracing_warn (''mounting '' @ target @ '' exited '' @ code)
            | CannotRun err \<Rightarrow> tracing_warn (''mounting '' @ target @ '' failed: '' @ err)))))"

definition mount_pseudo_filesystems :: "world \<Rightarrow> unit io" where
  "mount_pseudo_filesystems w =
     each_io (mount_pseudo w)
       [(''proc'', ''/proc'', ''proc''), (''sysfs'', ''/sys'', ''sysfs''),
        (''devtmpfs'', ''/dev'', ''devtmpfs''), (''tmpfs'', ''/run'', ''tmpfs'')]"

definition load_modules :: "world \<Rightarrow> unit io" where
  "load_modules w =
     then_io (each_io (\<lambda>m. then_io (exec w ''/usr/sbin/modprobe'' [''-q'', m] []) (return_io ())) REQUIRED_MODULES)
       (bind_io (ask (\<lambda>tr. wd_exists w tr ''/proc/sys/kernel/io_uring_disabled'')) (\<lambda>off.
         then_io (if off then act (WriteFile ''/proc/sys/kernel/io_uring_disabled'' ''0'') else return_io ())
           (bind_io (ask (\<lambda>tr. wd_exists w tr ''/dev/ublk-control'')) (\<lambda>ctl.
             if ctl then return_io ()
             else tracing_warn ''/dev/ublk-control missing: ublk_drv did not load, root will not appear''))))"

definition first_ethernet :: "world \<Rightarrow> trace \<Rightarrow> string option" where
  "first_ethernet w tr =
     (case wd_list w tr ''/sys/class/net'' of
        None \<Rightarrow> None
      | Some names \<Rightarrow>
          (case sort (filter (\<lambda>n. n \<noteq> ''lo'' \<and> \<not> starts_with ''veth'' n) names) of
             [] \<Rightarrow> None
           | n # _ \<Rightarrow> Some n))"

definition bring_up_network :: "world \<Rightarrow> boot_params \<Rightarrow> unit io" where
  "bring_up_network w p =
     then_io (stamp w ''bringing up network'')
     (then_io (exec w ''/bin/ip'' [''link'', ''set'', ''lo'', ''up''] [])
     (bind_io (ask (first_ethernet w)) (\<lambda>found.
       case found of
         None \<Rightarrow> bail ''no ethernet interface found''
       | Some iface \<Rightarrow>
           then_io (exec w ''/bin/ip'' [''link'', ''set'', iface, ''up''] [])
           (bind_io (exec w ''/sbin/udhcpc''
               [''-i'', iface, ''-s'', ''/usr/share/udhcpc/default.script'', ''-q'', ''-n'', ''-t'', ''10''] []) (\<lambda>r.
             then_io (if succeeded r then stamp w (''network up on '' @ iface)
                      else tracing_warn (''DHCP did not complete on '' @ iface @ ''; continuing in case ip= configured it''))
               (case p_portal p of
                  Some portal \<Rightarrow> stamp w (''portal '' @ portal @ '' is the root source'')
                | None \<Rightarrow> return_io ()))))))"

section \<open>The root slab\<close>

text \<open>A line of \<open>stormblock slab list\<close> that names a slab.\<close>

definition is_slab_line :: "string \<Rightarrow> bool" where
  "is_slab_line line =
     (case split_once_str '': slab '' line of
        None \<Rightarrow> False
      | Some (_, rest) \<Rightarrow>
          (let ident = takeWhile (\<lambda>c. c \<noteq> CHR '' '') rest
           in length ident = 36 \<and> list_all (\<lambda>c. is_hexdigit c \<or> c = CHR ''-'') ident))"

definition is_slab :: "world \<Rightarrow> string \<Rightarrow> bool io" where
  "is_slab w dev =
     bind_io (ask (\<lambda>tr. wd_exists w tr dev)) (\<lambda>there.
       if \<not> there then return_io False
       else bind_io (exec w STORMBLOCK [''slab'', ''list'', dev] []) (\<lambda>r.
         case r of
           CannotRun _ \<Rightarrow> return_io False
         | Exited ok _ out \<Rightarrow> return_io (ok \<and> list_ex is_slab_line (lines out))))"

definition host_env :: "string option \<Rightarrow> (string \<times> string) list" where
  "host_env nqn = (case nqn of Some v \<Rightarrow> [(''STORMBLOCK_HOST_NQN'', v)] | None \<Rightarrow> [])"

definition boot_claim :: "world \<Rightarrow> string \<Rightarrow> string \<Rightarrow> string \<Rightarrow> string option \<Rightarrow> string io" where
  "boot_claim w boothost tag namespace hostnqn =
     bind_io (exec w STORMBLOCK
         ([''boot-claim'', ''--boothost'', boothost, ''--tag'', tag]
          @ (if namespace \<noteq> ''boothost'' then [''--namespace'', namespace] else []))
         (host_env hostnqn)) (\<lambda>r.
       case r of
         CannotRun err \<Rightarrow> bail (''running stormblock boot-claim: '' @ err)
       | Exited ok _ out \<Rightarrow>
           if \<not> ok then bail (''no image is assigned to '' @ tag @ '' on '' @ boothost @ '' (boot-claim failed)'')
           else if trim out = [] then bail (''boot-claim for '' @ tag @ '' returned no attach URI'')
           else return_io (trim out))"

definition is_remote :: "string \<Rightarrow> bool" where
  "is_remote slab \<longleftrightarrow> split_once_str ''://'' slab \<noteq> None"

text \<open>The named slabs that survive.\<close>

fun trusted_slabs :: "world \<Rightarrow> string \<Rightarrow> string list \<Rightarrow> string list io" where
  "trusted_slabs w boothost [] = return_io []"
| "trusted_slabs w boothost (slab # rest) =
     bind_io (if is_remote slab then return_io True else is_slab w slab) (\<lambda>good.
       if good then bind_io (trusted_slabs w boothost rest) (\<lambda>slabs. return_io (slab # slabs))
       else then_io (stamp w (slab @ '' is not a slab - asking '' @ boothost @ '' instead''))
              (trusted_slabs w boothost rest))"

definition resolve_slabs :: "world \<Rightarrow> boot_params \<Rightarrow> string list io" where
  "resolve_slabs w p =
     (case boothost_claim p of
        None \<Rightarrow> return_io (all_slabs p)
      | Some (boothost, tag, namespace) \<Rightarrow>
          bind_io (trusted_slabs w boothost (p_slabs p)) (\<lambda>named.
          bind_io (if named \<noteq> [] then return_io named
                   else then_io (stamp w (''asking '' @ boothost @ '' which image '' @ tag @ '' boots''))
                     (bind_io (boot_claim w boothost tag namespace (p_hostnqn p)) (\<lambda>uri.
                        then_io (stamp w (''claimed root: '' @ uri)) (return_io [uri])))) (\<lambda>slabs.
          return_io (case p_data_slab p of
                       Some data \<Rightarrow> if data \<notin> set slabs then slabs @ [data] else slabs
                     | None \<Rightarrow> slabs))))"

section \<open>The engine\<close>

definition opt_flag :: "string \<Rightarrow> string option \<Rightarrow> string list" where
  "opt_flag f v = (case v of Some x \<Rightarrow> [f, x] | None \<Rightarrow> [])"

definition engine_args :: "boot_params \<Rightarrow> string list \<Rightarrow> export_plan \<Rightarrow> string list" where
  "engine_args p slabs plan =
     [''boot-local''] @ concat (map (\<lambda>s. [''--slab'', s]) slabs)
     @ opt_flag ''--meta'' (p_meta p) @ opt_flag ''--image-store'' (p_image_store p)
     @ opt_flag ''--volume'' (p_volume p) @ opt_flag ''--local-disk'' (p_local_disk p)
     @ concat (map (\<lambda>n. [''--writable'', n]) (xp_writable_args plan))"

definition start_engine :: "world \<Rightarrow> boot_params \<Rightarrow> string list \<Rightarrow> export_plan \<Rightarrow> unit io" where
  "start_engine w p slabs plan =
     (if slabs = [] then bail ''no slab to boot from''
      else then_io (stamp w (''starting engine on '' @ join '', '' slabs))
        (then_io (case p_data_slab p of
                    Some data \<Rightarrow> stamp w (''data slab '' @ data @ '' carries node identity; never formatted'')
                  | None \<Rightarrow> return_io ())
          (then_io (act (Spawn STORMBLOCK (engine_args p slabs plan) (host_env (p_hostnqn p))))
            (bind_io (ask (wd_cmd w)) (\<lambda>r.
               case r of
                 CannotRun err \<Rightarrow> bail (''spawning '' @ STORMBLOCK @ '': '' @ err)
               | Exited _ _ _ \<Rightarrow> return_io ())))))"

section \<open>Waiting\<close>

fun slept :: "trace \<Rightarrow> nat" where
  "slept [] = 0"
| "slept (Sleep ms # tr) = ms + slept tr"
| "slept (_ # tr) = slept tr"

lemma slept_append [simp]: "slept (a @ b) = slept a + slept b"
  by (induction a rule: slept.induct) auto

definition elapsed :: "world \<Rightarrow> nat \<Rightarrow> trace \<Rightarrow> trace \<Rightarrow> nat" where
  "elapsed w k start tr = (slept tr - slept start) + wd_lag w k start tr"

function wait_block_from :: "world \<Rightarrow> string \<Rightarrow> nat \<Rightarrow> trace \<Rightarrow> bool io" where
  "wait_block_from w dev timeout start tr =
     (if wd_exists w tr dev then (tr, Inr True)
      else if timeout \<le> elapsed w 0 start tr then (tr, Inr False)
      else wait_block_from w dev timeout start (tr @ [Sleep 200]))"
  by pat_completeness auto
termination
  by (relation "measure (\<lambda>(w, dev, timeout, start, tr). timeout + slept start - slept tr)")
    (auto simp: elapsed_def)

declare wait_block_from.simps [simp del]

definition wait_for_block :: "world \<Rightarrow> string \<Rightarrow> nat \<Rightarrow> bool io" where
  "wait_for_block w dev timeout tr = wait_block_from w dev timeout tr tr"

function wait_device_from :: "world \<Rightarrow> string \<Rightarrow> nat \<Rightarrow> trace \<Rightarrow> bool \<Rightarrow> bool io" where
  "wait_device_from w path timeout start announced tr =
     (if elapsed w 0 start tr < timeout
      then (if wd_exists w tr path then (tr, Inr True)
            else if \<not> announced \<and> 5000 < elapsed w 1 start tr
            then wait_device_from w path timeout start True
                   (fst (stamp w (''still waiting for '' @ path) tr) @ [Sleep 200])
            else wait_device_from w path timeout start announced (tr @ [Sleep 200]))
      else (tr, Inr False))"
  by pat_completeness auto
termination
  by (relation "measure (\<lambda>(w, path, timeout, start, announced, tr). timeout + slept start - slept tr)")
    (auto simp: elapsed_def stamp_def bind_io_def ask_def act_def)

declare wait_device_from.simps [simp del]

definition show_names :: "string list \<Rightarrow> string" where
  "show_names names = ''['' @ join '', '' (map (\<lambda>n. [DQUOTE] @ n @ [DQUOTE]) names) @ '']''"

definition wait_for_device :: "world \<Rightarrow> string \<Rightarrow> nat \<Rightarrow> unit io" where
  "wait_for_device w path timeout =
     bind_io (\<lambda>tr. wait_device_from w path timeout tr False tr) (\<lambda>there.
       if there then return_io ()
       else bind_io (ask (\<lambda>tr. wd_list w tr ''/dev'')) (\<lambda>names.
         bail (path @ '' did not appear within '' @ show_nat (timeout div 1000) @ ''s; ublk devices present: ''
           @ show_names (filter (starts_with ''ublk'') (case names of Some ns \<Rightarrow> ns | None \<Rightarrow> [])))))"

section \<open>Mounting\<close>

definition mount_cmd :: "world \<Rightarrow> string list \<Rightarrow> bool io" where
  "mount_cmd w args = bind_io (exec w ''/bin/mount'' args []) (\<lambda>r. return_io (succeeded r))"

text \<open>The first of the argument lists that mounts.\<close>

fun mount_first :: "world \<Rightarrow> string list list \<Rightarrow> bool io" where
  "mount_first w [] = return_io False"
| "mount_first w (args # rest) =
     bind_io (mount_cmd w args) (\<lambda>ok. if ok then return_io True else mount_first w rest)"

definition mount_fs :: "world \<Rightarrow> string \<Rightarrow> string \<Rightarrow> bool io" where
  "mount_fs w dev mnt =
     mount_first w [[''-t'', ''erofs'', ''-o'', ''ro'', dev, mnt], [''-t'', ''ext4'', dev, mnt], [dev, mnt]]"

definition mount_overlay_root :: "world \<Rightarrow> string \<Rightarrow> unit io" where
  "mount_overlay_root w overlay =
     (let LOWER = ''/run/stormblock/lower''; RW = ''/run/stormblock/rw'';
          upper = RW @ ''/upper''; work = RW @ ''/work''
      in then_io (each_io (\<lambda>d. act (MkDir d)) [SYSROOT, LOWER, RW])
        (bind_io (mount_fs w ROOT_DEV LOWER) (\<lambda>lower_ok.
          if \<not> lower_ok then bail (''overlay: could not mount lower '' @ ROOT_DEV)
          else then_io
            (case strip_prefix ''tmpfs'' overlay of
               Some rest \<Rightarrow>
                 (let size = (case strip_prefix '':'' rest of Some s \<Rightarrow> s | None \<Rightarrow> ''512m'')
                  in bind_io (mount_cmd w [''-t'', ''tmpfs'', ''-o'', ''size='' @ size, ''tmpfs'', RW]) (\<lambda>ok.
                       if ok then return_io ()
                       else bail (''overlay: could not mount tmpfs upper (size='' @ size @ '')'')))
             | None \<Rightarrow>
                 then_io (wait_for_block w overlay 15000)
                   (bind_io (mount_cmd w [overlay, RW]) (\<lambda>ok.
                      if ok then return_io () else bail (''overlay: could not mount upper '' @ overlay))))
            (then_io (each_io (\<lambda>d. act (MkDir d)) [upper, work])
              (bind_io (mount_cmd w [''-t'', ''overlay'', ''overlay'', ''-o'',
                  ''lowerdir='' @ LOWER @ '',upperdir='' @ upper @ '',workdir='' @ work, SYSROOT]) (\<lambda>ok.
                 if \<not> ok then bail (''overlay: could not mount overlay root on '' @ SYSROOT)
                 else stamp w (''overlay root: lower='' @ ROOT_DEV @ '' upper='' @ overlay)))))))"

definition mount_root :: "world \<Rightarrow> boot_params \<Rightarrow> unit io" where
  "mount_root w p =
     (case p_overlay p of
        Some overlay \<Rightarrow> mount_overlay_root w overlay
      | None \<Rightarrow>
          then_io (act (MkDir SYSROOT))
            (bind_io (mount_fs w ROOT_DEV SYSROOT) (\<lambda>ok.
               if ok then stamp w (''mounted root '' @ ROOT_DEV @ '' on '' @ SYSROOT)
               else bail (''could not mount '' @ ROOT_DEV @ '' on '' @ SYSROOT @ '' as erofs, ext4 or auto''))))"

section \<open>Exports and identity\<close>

definition append_fstab :: "world \<Rightarrow> string \<Rightarrow> unit io" where
  "append_fstab w line =
     (let path = SYSROOT @ ''/etc/fstab''
      in then_io (act (AppendLine path line))
        (bind_io (ask (wd_write w)) (\<lambda>r.
           case r of
             Written \<Rightarrow> return_io ()
           | WriteFailed err \<Rightarrow> tracing_warn (''could not append to '' @ path @ '': '' @ err)
           | OpenFailed err \<Rightarrow> tracing_warn (''could not open '' @ path @ '': '' @ err))))"

definition apply_mount :: "world \<Rightarrow> string \<times> string \<Rightarrow> unit io" where
  "apply_mount w = (\<lambda>(dev, mnt).
     bind_io (wait_for_block w dev 15000) (\<lambda>there.
       if \<not> there then tracing_warn (dev @ '' never appeared; '' @ mnt @ '' will be empty'')
       else then_io (act (MkDir (SYSROOT @ mnt)))
         (bind_io (mount_cmd w [dev, SYSROOT @ mnt]) (\<lambda>ok.
            if ok then stamp w (''mounted '' @ dev @ '' -> '' @ mnt)
            else tracing_warn (dev @ '' would not mount at '' @ mnt)))))"

definition apply_writable :: "world \<Rightarrow> string \<times> string \<Rightarrow> unit io" where
  "apply_writable w = (\<lambda>(dev, mnt).
     bind_io (wait_for_block w dev 15000) (\<lambda>there.
       if there
       then then_io (append_fstab w (dev @ '' '' @ mnt @ '' xfs defaults,x-systemd.makefs,x-systemd.growfs,nofail 0 0''))
              (stamp w (''writable '' @ dev @ '' -> '' @ mnt))
       else tracing_warn (dev @ '' never appeared; '' @ mnt @ '' falls back to overlay'')))"

definition apply_image_store :: "world \<Rightarrow> string \<times> string \<Rightarrow> unit io" where
  "apply_image_store w = (\<lambda>(dev, mnt).
     bind_io (wait_for_block w dev 15000) (\<lambda>there.
       if there
       then then_io (act (MkDir (SYSROOT @ mnt)))
              (then_io (append_fstab w (dev @ '' '' @ mnt @ '' erofs ro,nofail 0 0''))
                (stamp w (''image-store '' @ dev @ '' -> '' @ mnt @ '' (ro)'')))
       else tracing_warn (''image-store '' @ dev @ '' never appeared'')))"

definition apply_exports :: "world \<Rightarrow> export_plan \<Rightarrow> unit io" where
  "apply_exports w plan =
     then_io (each_io (apply_mount w) (xp_mount_map plan))
       (then_io (each_io (apply_writable w) (xp_fstab_writable plan))
         (case xp_image_store plan of Some dm \<Rightarrow> apply_image_store w dm | None \<Rightarrow> return_io ()))"

definition write_or_warn :: "world \<Rightarrow> string \<Rightarrow> string \<Rightarrow> string \<Rightarrow> unit io" where
  "write_or_warn w path txt what =
     then_io (act (WriteFile path txt))
       (bind_io (ask (wd_write w)) (\<lambda>r.
          case r of
            Written \<Rightarrow> return_io ()
          | WriteFailed err \<Rightarrow> tracing_warn (''could not write '' @ what @ '': '' @ err)
          | OpenFailed err \<Rightarrow> tracing_warn (''could not write '' @ what @ '': '' @ err)))"

definition write_identity :: "world \<Rightarrow> boot_params \<Rightarrow> unit io" where
  "write_identity w p =
     then_io (case p_hostname p of
                Some h \<Rightarrow> write_or_warn w (SYSROOT @ ''/etc/hostname'') (h @ [LF]) (SYSROOT @ ''/etc/hostname'')
              | None \<Rightarrow> return_io ())
     (then_io (case p_role p of
                Some role \<Rightarrow> then_io (act (MkDir (SYSROOT @ ''/etc/storm'')))
                  (write_or_warn w (SYSROOT @ ''/etc/storm'' @ ''/role'') (role @ [LF]) ''role'')
              | None \<Rightarrow> return_io ())
     (bind_io (ask (\<lambda>tr. wd_exists w tr ''/etc/resolv.conf'')) (\<lambda>there.
        if there then act (CopyFile ''/etc/resolv.conf'' (SYSROOT @ ''/etc/resolv.conf'')) else return_io ())))"

section \<open>The handover\<close>

definition move_mount :: "world \<Rightarrow> string \<Rightarrow> unit io" where
  "move_mount w point =
     then_io (act (MkDir (SYSROOT @ point)))
       (then_io (exec w ''/bin/mount'' [''--move'', point, SYSROOT @ point] []) (return_io ()))"

definition find_path :: "(string \<Rightarrow> bool) \<Rightarrow> string list \<Rightarrow> string option" where
  "find_path there paths = List.find there paths"

definition exec_init :: "world \<Rightarrow> string \<Rightarrow> unit io" where
  "exec_init w init =
     bind_io (exec w ''/sbin/switch_root'' [SYSROOT, init] []) (\<lambda>r.
       case r of
         CannotRun err \<Rightarrow> bail (''switch_root failed: '' @ err)
       | Exited _ _ _ \<Rightarrow> stop_io (HandedOver init))"

definition switch_root :: "world \<Rightarrow> unit io" where
  "switch_root w =
     then_io (each_io (move_mount w) [''/proc'', ''/sys'', ''/dev'', ''/run''])
       (bind_io (ask (\<lambda>tr. find_path (\<lambda>i. wd_exists w tr (SYSROOT @ i))
                               [''/sbin/init'', ''/usr/lib/systemd/systemd''])) (\<lambda>found.
         case found of
           None \<Rightarrow> bail ''no init found in the new root''
         | Some init \<Rightarrow> then_io (stamp w (''switch_root into '' @ init)) (exec_init w init)))"

text \<open>The refresh of the boot media: the pass, the unmount, and what is said of it.\<close>

definition media_refresh :: "world \<Rightarrow> boot_params \<Rightarrow> reporter \<Rightarrow> unit io" where
  "media_refresh w p rp =
     bind_io (ask (\<lambda>tr. media_run (fst (wd_media w tr)) p (snd (wd_media w tr)))) (\<lambda>(e, outcome).
       then_io (act (MediaPass e))
       (then_io (exec w ''/bin/umount'' [ESP_MOUNT] [])
       (case outcome_message outcome of
          None \<Rightarrow> stop_io Panicked
        | Some msg \<Rightarrow>
            then_io (if msg = [] then return_io () else stamp w msg)
              (each_io (\<lambda>(ph, detail). reporter_phase w rp ph detail) (outcome_report outcome)))))"

section \<open>The sequence\<close>

definition device_or_kill :: "world \<Rightarrow> unit io" where
  "device_or_kill w tr =
     (case wait_for_device w ROOT_DEV DEVICE_TIMEOUT tr of
        (tr', Inl e) \<Rightarrow> (tr' @ [KillEngine], Inl e)
      | (tr', Inr x) \<Rightarrow> (tr', Inr x))"

definition attach_root :: "world \<Rightarrow> boot_params \<Rightarrow> export_plan \<Rightarrow> unit io" where
  "attach_root w p plan =
     bind_io (in_context ''resolving the root slab'' (resolve_slabs w p)) (\<lambda>slabs.
     then_io (in_context ''starting stormblock'' (start_engine w p slabs plan))
             (device_or_kill w))"

definition no_root_source :: "boot_params \<Rightarrow> string" where
  "no_root_source p = ''no root source on the command line: missing '' @ join '', '' (missing p)
     @ '' (and no rd.stormblock.slab for a local boot)''"

definition root_source :: "world \<Rightarrow> boot_params \<Rightarrow> unit io" where
  "root_source w p =
     (if is_network_boot p then bring_up_network w p
      else if p_slabs p = [] then bail (no_root_source p)
      else return_io ())"

definition announce_flow_over :: "world \<Rightarrow> boot_params \<Rightarrow> reporter \<Rightarrow> unit io" where
  "announce_flow_over w p rp =
     (if p_local_disk p \<noteq> None then reporter_phase w rp ''assimilating'' (Some ''flow-over started'')
      else return_io ())"

text \<open>From the attached root to the handover, and the whole.\<close>

definition enter_root :: "world \<Rightarrow> boot_params \<Rightarrow> reporter \<Rightarrow> export_plan \<Rightarrow> unit io" where
  "enter_root w p rp plan =
     then_io (stamp w ''root device present'')
     (then_io (mount_root w p)
     (then_io (apply_exports w plan)
     (then_io (write_identity w p)
     (then_io (media_refresh w p rp)
     (then_io (reporter_phase w rp ''running'' None)
     (then_io (announce_flow_over w p rp)
              (switch_root w)))))))"

definition run :: "world \<Rightarrow> boot_params \<Rightarrow> reporter \<Rightarrow> unit io" where
  "run w p rp =
     then_io (stamp w ''stormnetboot-init starting'')
     (then_io (mount_pseudo_filesystems w)
     (then_io (load_modules w)
     (case check_local_disk p of
        Inl err \<Rightarrow> bail err
      | Inr _ \<Rightarrow>
          then_io (root_source w p)
          (then_io (reporter_phase w rp ''assets-fetched'' None)
          (let plan = make_export_plan p
           in then_io (attach_root w p plan)
              (then_io (reporter_phase w rp ''root-attached'' None)
                       (enter_root w p rp plan)))))))"

section \<open>The console\<close>

text \<open>The two loops never end; their first \<open>fuel\<close> rounds, \<open>Inr ()\<close> when they go on.\<close>

fun hold :: "nat \<Rightarrow> string \<Rightarrow> u64 \<Rightarrow> unit io" where
  "hold 0 why n = return_io ()"
| "hold (Suc fuel) why n =
     then_io (act (Eprint (''stormnetboot-init: HELD ('' @ show_word n @ ''m): '' @ why)))
     (then_io (act (AppendLine ''/dev/kmsg'' (''stormnetboot-init: HELD: '' @ why)))
     (then_io (act (Sleep 60000)) (hold fuel why (n + 1))))"

fun shell_loop :: "world \<Rightarrow> nat \<Rightarrow> string \<Rightarrow> unit io" where
  "shell_loop w 0 shell = return_io ()"
| "shell_loop w (Suc fuel) shell =
     bind_io (exec w shell [] []) (\<lambda>r.
       case r of
         Exited _ code _ \<Rightarrow>
           then_io (act (Eprint (''stormnetboot-init: shell exited ('' @ code @ ''); starting another'')))
           (then_io (act (Sleep 500)) (shell_loop w fuel shell))
       | CannotRun err \<Rightarrow> hold fuel (''cannot start '' @ shell @ '': '' @ err) 0)"

definition emergency_shell :: "world \<Rightarrow> nat \<Rightarrow> unit io" where
  "emergency_shell w fuel =
     then_io (act (Eprint ''stormnetboot-init: dropping to a shell; the boot cannot continue''))
     (then_io (act (Eprint ''stormnetboot-init: this shell is PID 1's child; exiting it starts another''))
     (bind_io (ask (\<lambda>tr. find_path (wd_exists w tr) [''/bin/sh'', ''/bin/busybox'', ''/bin/ash''])) (\<lambda>found.
        case found of
          None \<Rightarrow> hold fuel (''no shell in this initramfs - nothing left to hand you. ''
                    @ ''This is a build fault: busybox should be at /bin/sh'') 0
        | Some shell \<Rightarrow> shell_loop w fuel shell)))"

definition init_main :: "world \<Rightarrow> nat \<Rightarrow> unit io" where
  "init_main w fuel tr =
     (case wd_read w tr ''/proc/cmdline'' of
        None \<Rightarrow> then_io (act (Eprint ''stormnetboot-init: cannot read /proc/cmdline'')) (emergency_shell w fuel) tr
      | Some cmdline \<Rightarrow>
          (let p = boot_params_parse cmdline;
               rp = \<lparr>rp_url = p_report_url p, rp_mac = p_mac p\<rparr>
           in case run w p rp tr of
                (tr', Inr _) \<Rightarrow>
                  then_io (act (Eprint ''stormnetboot-init: boot finished without switch_root; nothing left to do''))
                    (emergency_shell w fuel) tr'
              | (tr', Inl (BootError err)) \<Rightarrow>
                  then_io (act (Eprint (''stormnetboot-init: '' @ err)))
                  (then_io (act (Eprint (''stormnetboot-init: cmdline was: '' @ cmdline)))
                  (then_io (reporter_phase w rp ''failed'' (Some err)) (emergency_shell w fuel))) tr'
              | (tr', Inl stopped) \<Rightarrow> (tr', Inl stopped)))"

end
