(* ===== verification/Boot_Sequence.thy ===== *)
theory Boot_Sequence
  imports Steps "HOL-Library.Sublist"
begin

text \<open>
  What the boot sequence of \<open>Steps\<close> does. Rules for each way of composing steps say which kinds of
  action a step may add (\<open>plain\<close>), that it always goes on (\<open>smooth\<close>), which reports it makes
  (\<open>script\<close>) and what a handover rests on (\<open>hands\<close>); the properties of the sequence are
  obtained by applying them to its text: what is attached and on what evidence, that no wait is
  endless, the order of the reports, that nothing is started when the guard of the data slab
  refuses, and that a failure holds the console.
\<close>

section \<open>What a step may do\<close>

text \<open>A step that only adds actions of a kind, and does not hand over.\<close>

named_theorems plain_rules "steps that add actions of a kind only"
named_theorems smooth_rules "steps that always go on"

definition plain :: "(action \<Rightarrow> bool) \<Rightarrow> 'a io \<Rightarrow> bool" where
  "plain P m \<longleftrightarrow> (\<forall>tr. \<exists>new. fst (m tr) = tr @ new \<and> list_all P new \<and> (\<forall>i. snd (m tr) \<noteq> Inl (HandedOver i)))"

definition smooth :: "'a io \<Rightarrow> bool" where
  "smooth m \<longleftrightarrow> (\<forall>tr. \<exists>x. snd (m tr) = Inr x)"

lemmas io_defs = return_io_def stop_io_def ask_def act_def bail_def

lemma plainI:
  "(\<And>tr. \<exists>new. fst (m tr) = tr @ new \<and> list_all P new \<and> (\<forall>i. snd (m tr) \<noteq> Inl (HandedOver i))) \<Longrightarrow> plain P m"
  by (simp add: plain_def)

lemma plainE:
  assumes "plain P m" "m tr = (tr', r)"
  obtains new where "tr' = tr @ new" "list_all P new" "\<And>i. r \<noteq> Inl (HandedOver i)"
  using assms unfolding plain_def by (metis fst_conv snd_conv)

lemma plain_basic [plain_rules]:
  "plain P (return_io x)" "plain P (ask f)" "plain P (bail e)" "plain P (stop_io Panicked)"
  by (simp_all add: plain_def io_defs)

lemma plain_act: "P a \<Longrightarrow> plain P (act a)"
  by (simp add: plain_def io_defs)

lemma plain_bind [plain_rules]:
  assumes "plain P m" "\<And>x. plain P (f x)"
  shows "plain P (bind_io m f)"
proof (rule plainI)
  fix tr
  obtain tr1 r where m: "m tr = (tr1, r)" by fastforce
  obtain new where n: "tr1 = tr @ new" "list_all P new" "\<And>i. r \<noteq> Inl (HandedOver i)"
    using plainE [OF assms(1) m] by blast
  show "\<exists>new. fst (bind_io m f tr) = tr @ new \<and> list_all P new
      \<and> (\<forall>i. snd (bind_io m f tr) \<noteq> Inl (HandedOver i))"
  proof (cases r)
    case (Inl e)
    then show ?thesis using m n by (auto simp: bind_io_def)
  next
    case (Inr x)
    obtain tr2 r2 where f: "f x tr1 = (tr2, r2)" by fastforce
    obtain new2 where "tr2 = tr1 @ new2" "list_all P new2" "\<And>i. r2 \<noteq> Inl (HandedOver i)"
      using plainE [OF assms(2) f] by blast
    then show ?thesis using m n f Inr by (auto simp: bind_io_def)
  qed
qed

lemma plain_then [plain_rules]: "plain P m \<Longrightarrow> plain P m' \<Longrightarrow> plain P (then_io m m')"
  by (simp add: then_io_def plain_bind)

lemma plain_each [plain_rules]: "(\<And>x. plain P (f x)) \<Longrightarrow> plain P (each_io f xs)"
  by (induction xs) (auto intro: plain_rules)

lemma plain_if [plain_rules]: "plain P a \<Longrightarrow> plain P b \<Longrightarrow> plain P (if c then a else b)"
  by simp

lemma plain_option [plain_rules]:
  "plain P a \<Longrightarrow> (\<And>x. plain P (f x)) \<Longrightarrow> plain P (case v of None \<Rightarrow> a | Some x \<Rightarrow> f x)"
  by (simp split: option.split)

lemma plain_cmd_result [plain_rules]:
  "(\<And>e. plain P (f e)) \<Longrightarrow> (\<And>ok c out. plain P (g ok c out)) \<Longrightarrow>
     plain P (case r of CannotRun e \<Rightarrow> f e | Exited ok c out \<Rightarrow> g ok c out)"
  by (simp split: cmd_result.split)

lemma plain_write_result [plain_rules]:
  "plain P a \<Longrightarrow> (\<And>e. plain P (f e)) \<Longrightarrow> (\<And>e. plain P (g e)) \<Longrightarrow>
     plain P (case r of Written \<Rightarrow> a | OpenFailed e \<Rightarrow> f e | WriteFailed e \<Rightarrow> g e)"
  by (simp split: write_result.split)

lemma plain_context [plain_rules]: "plain P m \<Longrightarrow> plain P (in_context c m)"
proof (rule plainI)
  fix tr assume "plain P m"
  moreover obtain tr' r where m: "m tr = (tr', r)" by fastforce
  ultimately obtain new where "tr' = tr @ new" "list_all P new" "\<And>i. r \<noteq> Inl (HandedOver i)"
    using plainE by metis
  then show "\<exists>new. fst (in_context c m tr) = tr @ new \<and> list_all P new
      \<and> (\<forall>i. snd (in_context c m tr) \<noteq> Inl (HandedOver i))"
    using m by (auto simp: in_context_def split: sum.splits stop.splits)
qed

lemma plain_mono: "plain P m \<Longrightarrow> (\<And>a. P a \<Longrightarrow> Q a) \<Longrightarrow> plain Q m"
  unfolding plain_def by (meson list_all_iff)

lemma smooth_basic [smooth_rules]: "smooth (return_io x)" "smooth (ask f)" "smooth (act a)"
  by (simp_all add: smooth_def io_defs)

lemma smooth_bind [smooth_rules]: "smooth m \<Longrightarrow> (\<And>x. smooth (f x)) \<Longrightarrow> smooth (bind_io m f)"
proof -
  assume m: "smooth m" and f: "\<And>x. smooth (f x)"
  have "\<exists>x. snd (bind_io m f tr) = Inr x" for tr
  proof -
    obtain tr' x where "m tr = (tr', Inr x)" using m unfolding smooth_def by (metis prod.collapse)
    then show ?thesis using f [of x] by (simp add: smooth_def bind_io_def)
  qed
  then show ?thesis by (simp add: smooth_def)
qed

lemma smooth_then [smooth_rules]: "smooth m \<Longrightarrow> smooth m' \<Longrightarrow> smooth (then_io m m')"
  by (simp add: then_io_def smooth_bind)

lemma smooth_each [smooth_rules]: "(\<And>x. smooth (f x)) \<Longrightarrow> smooth (each_io f xs)"
  by (induction xs) (auto intro: smooth_rules)

lemma smooth_cases [smooth_rules]:
  "smooth a \<Longrightarrow> smooth b \<Longrightarrow> smooth (if c then a else b)"
  "smooth a \<Longrightarrow> (\<And>x. smooth (f x)) \<Longrightarrow> smooth (case v of None \<Rightarrow> a | Some x \<Rightarrow> f x)"
  "(\<And>e. smooth (f' e)) \<Longrightarrow> (\<And>ok c out. smooth (g ok c out)) \<Longrightarrow>
     smooth (case r of CannotRun e \<Rightarrow> f' e | Exited ok c out \<Rightarrow> g ok c out)"
  "smooth a \<Longrightarrow> (\<And>e. smooth (f'' e)) \<Longrightarrow> (\<And>e. smooth (g'' e)) \<Longrightarrow>
     smooth (case q of Written \<Rightarrow> a | OpenFailed e \<Rightarrow> f'' e | WriteFailed e \<Rightarrow> g'' e)"
  by (simp_all split: option.split cmd_result.split write_result.split)

section \<open>Waits end\<close>

lemma wait_block_result:
  "\<exists>n. fst (wait_block_from w dev timeout start tr) = tr @ replicate n (Sleep 200)
     \<and> (slept tr + 200 * n < timeout + slept start + 200 \<or> n = 0)
     \<and> (\<forall>k<n. \<not> wd_exists w (tr @ replicate k (Sleep 200)) dev)
     \<and> snd (wait_block_from w dev timeout start tr)
         = Inr (wd_exists w (tr @ replicate n (Sleep 200)) dev)"
proof (induction w dev timeout start tr rule: wait_block_from.induct)
  case (1 w dev timeout start tr)
  show ?case
  proof (cases "wd_exists w tr dev \<or> timeout \<le> elapsed w 0 start tr")
    case True
    then show ?thesis
      by (intro exI [of _ 0]) (auto simp: wait_block_from.simps [of w dev timeout start tr])
  next
    case False
    then have step: "wait_block_from w dev timeout start tr = wait_block_from w dev timeout start (tr @ [Sleep 200])"
      by (simp add: wait_block_from.simps [of w dev timeout start tr])
    from False have lt: "slept tr < timeout + slept start" by (auto simp: elapsed_def)
    from 1 False obtain n where n: "fst (wait_block_from w dev timeout start (tr @ [Sleep 200]))
          = (tr @ [Sleep 200]) @ replicate n (Sleep 200)"
        "slept (tr @ [Sleep 200]) + 200 * n < timeout + slept start + 200 \<or> n = 0"
        "\<forall>k<n. \<not> wd_exists w ((tr @ [Sleep 200]) @ replicate k (Sleep 200)) dev"
        "snd (wait_block_from w dev timeout start (tr @ [Sleep 200]))
          = Inr (wd_exists w ((tr @ [Sleep 200]) @ replicate n (Sleep 200)) dev)"
      by auto
    have "\<not> wd_exists w (tr @ replicate k (Sleep 200)) dev" if "k < Suc n" for k
      using that n(3) False by (cases k) auto
    moreover have "slept tr + 200 * Suc n < timeout + slept start + 200"
      using n(2) lt by auto
    ultimately show ?thesis using n step by (intro exI [of _ "Suc n"]) auto
  qed
qed

lemma plain_sleeps: "(\<And>ms. P (Sleep ms)) \<Longrightarrow> plain P (wait_for_block w dev timeout)"
proof (rule plainI)
  fix tr assume "\<And>ms. P (Sleep ms)"
  then show "\<exists>new. fst (wait_for_block w dev timeout tr) = tr @ new \<and> list_all P new
      \<and> (\<forall>i. snd (wait_for_block w dev timeout tr) \<noteq> Inl (HandedOver i))"
    using wait_block_result [of w dev timeout tr tr] by (auto simp: wait_for_block_def list_all_iff)
qed

lemma smooth_wait [smooth_rules]: "smooth (wait_for_block w dev timeout)"
  using wait_block_result by (fastforce simp: smooth_def wait_for_block_def)

text \<open>C33: The wait for a block device always ends, after at most one sleep of 200 ms more than the
  timeout holds; it says whether the device is there at that moment, and it gives up on none that
  was there at an earlier look.\<close>

theorem block_wait_is_bounded:
  "\<exists>n \<le> (timeout + 199) div 200.
     wait_for_block w dev timeout tr
       = (tr @ replicate n (Sleep 200), Inr (wd_exists w (tr @ replicate n (Sleep 200)) dev))
     \<and> (\<forall>k<n. \<not> wd_exists w (tr @ replicate k (Sleep 200)) dev)"
proof -
  obtain n where n: "fst (wait_block_from w dev timeout tr tr) = tr @ replicate n (Sleep 200)"
      "slept tr + 200 * n < timeout + slept tr + 200 \<or> n = 0"
      "\<forall>k<n. \<not> wd_exists w (tr @ replicate k (Sleep 200)) dev"
      "snd (wait_block_from w dev timeout tr tr) = Inr (wd_exists w (tr @ replicate n (Sleep 200)) dev)"
    using wait_block_result [of w dev timeout tr tr] by blast
  then have "n \<le> (timeout + 199) div 200" by auto
  then show ?thesis using n by (intro exI [of _ n]) (auto simp: wait_for_block_def prod_eq_iff)
qed

lemma device_wait_result:
  assumes "P (Sleep 200)" "\<And>u m. P (Console u m)"
  shows "\<exists>new there. wait_device_from w path timeout start announced tr = (tr @ new, Inr there)
     \<and> list_all P new \<and> (there \<longrightarrow> wd_exists w (tr @ new) path)"
proof (induction w path timeout start announced tr rule: wait_device_from.induct)
  case (1 w path timeout start announced tr)
  define msg where "msg = ''still waiting for '' @ path"
  obtain u where st: "stamp w msg tr = (tr @ [Console u msg], Inr ())"
    by (auto simp: stamp_def bind_io_def io_defs)
  note eq = wait_device_from.simps [of w path timeout start announced tr, folded msg_def]
  note 1 = 1 [folded msg_def]
  consider "\<not> elapsed w 0 start tr < timeout" | "elapsed w 0 start tr < timeout" "wd_exists w tr path"
    | (call) "elapsed w 0 start tr < timeout" "\<not> wd_exists w tr path" "\<not> announced \<and> 5000 < elapsed w 1 start tr"
    | (go) "elapsed w 0 start tr < timeout" "\<not> wd_exists w tr path" "\<not> (\<not> announced \<and> 5000 < elapsed w 1 start tr)"
    by blast
  then show ?case
  proof cases
    case call
    then obtain new there where "wait_device_from w path timeout start True
          ((tr @ [Console u msg]) @ [Sleep 200])
        = (((tr @ [Console u msg]) @ [Sleep 200]) @ new, Inr there)"
        "list_all P new"
        "there \<longrightarrow> wd_exists w (((tr @ [Console u msg]) @ [Sleep 200]) @ new) path"
      using 1(1) st by auto
    moreover have "wait_device_from w path timeout start announced tr
        = wait_device_from w path timeout start True ((tr @ [Console u msg]) @ [Sleep 200])"
      by (subst eq) (use call st in \<open>simp only: if_True if_False fst_conv simp_thms\<close>)
    ultimately show ?thesis using assms
      by (intro exI [of _ "[Console u msg, Sleep 200] @ new"] exI [of _ there]) simp
  next
    case go
    then obtain new there where "wait_device_from w path timeout start announced (tr @ [Sleep 200])
        = ((tr @ [Sleep 200]) @ new, Inr there)" "list_all P new"
        "there \<longrightarrow> wd_exists w ((tr @ [Sleep 200]) @ new) path"
      using 1(2) by auto
    moreover have "wait_device_from w path timeout start announced tr
        = wait_device_from w path timeout start announced (tr @ [Sleep 200])"
      by (subst eq) (use go in \<open>simp only: if_True if_False\<close>)
    ultimately show ?thesis using assms
      by (intro exI [of _ "Sleep 200 # new"] exI [of _ there]) simp
  qed (use eq in \<open>auto intro!: exI [of _ "[]"]\<close>)
qed

section \<open>Housekeeping\<close>

text \<open>The kinds of action that every step but the probing of slabs, the start of the engine and the
  reports may do.\<close>

locale housekeeping =
  fixes P :: "action \<Rightarrow> bool"
  assumes quiet: "P (Console u m)" "P (Eprint m)" "P (MkDir d)" "P (WriteFile f t)" "P (AppendLine f t)"
      "P (CopyFile f t)" "P (Sleep ms)"
    and tools: "prog \<noteq> STORMBLOCK \<Longrightarrow> P (Exec prog args env)"
begin

lemma plain_quiet [plain_rules]: "plain P (stamp w msg)" "plain P (tracing_warn msg)"
  "plain P (act (MkDir d))" "plain P (act (WriteFile f t))" "plain P (act (AppendLine f t))"
  "plain P (act (CopyFile f t))" "plain P (act (Sleep ms))" "plain P (act (Eprint m))"
  unfolding stamp_def tracing_warn_def by (intro plain_rules plain_act quiet)+

lemma plain_exec: "prog \<noteq> STORMBLOCK \<Longrightarrow> plain P (exec w prog args env)"
  unfolding exec_def by (intro plain_rules plain_act tools)

lemma plain_mount_cmd [plain_rules]: "plain P (mount_cmd w args)"
  unfolding mount_cmd_def by (intro plain_rules plain_exec) (simp add: STORMBLOCK_def)

lemma plain_mount_first [plain_rules]: "plain P (mount_first w argss)"
  by (induction argss) (auto intro!: plain_rules)

lemma plain_wait [plain_rules]: "plain P (wait_for_block w dev timeout)"
  by (rule plain_sleeps) (rule quiet)

lemma plain_wait_device: "plain P (wait_for_device w path timeout)"
proof -
  have "plain P (\<lambda>tr. wait_device_from w path timeout tr False tr)"
  proof (rule plainI)
    fix tr
    show "\<exists>new. fst (wait_device_from w path timeout tr False tr) = tr @ new \<and> list_all P new
        \<and> (\<forall>i. snd (wait_device_from w path timeout tr False tr) \<noteq> Inl (HandedOver i))"
      using device_wait_result [of P w path timeout tr False tr, OF quiet(7) quiet(1)] by auto
  qed
  then show ?thesis unfolding wait_for_device_def by (intro plain_rules)
qed

lemma plain_preparation [plain_rules]:
  "plain P (mount_pseudo_filesystems w)" "plain P (load_modules w)" "plain P (bring_up_network w p)"
  unfolding mount_pseudo_filesystems_def mount_pseudo_def load_modules_def bring_up_network_def
  by (auto simp: STORMBLOCK_def split_beta intro!: plain_rules plain_exec)

lemma plain_root [plain_rules]: "plain P (mount_root w p)"
  unfolding mount_root_def mount_overlay_root_def Let_def mount_fs_def
  by (intro plain_rules)

lemma plain_exports [plain_rules]: "plain P (apply_exports w plan)"
  unfolding apply_exports_def apply_mount_def apply_writable_def apply_image_store_def append_fstab_def Let_def
  by (auto simp: split_beta intro!: plain_rules)

lemma plain_identity [plain_rules]: "plain P (write_identity w p)"
  unfolding write_identity_def write_or_warn_def by (intro plain_rules)

end

text \<open>With the probing of slabs, and with the engine.\<close>

locale probing = housekeeping +
  assumes probes: "P (Exec STORMBLOCK args env)"
begin

lemma plain_probe: "plain P (exec w STORMBLOCK args env)"
  unfolding exec_def by (intro plain_rules plain_act probes)

lemma plain_is_slab [plain_rules]: "plain P (is_slab w dev)"
  unfolding is_slab_def by (intro plain_rules plain_probe)

lemma plain_trusted [plain_rules]: "plain P (trusted_slabs w boothost slabs)"
  by (induction slabs) (auto intro!: plain_rules)

lemma plain_resolve [plain_rules]: "plain P (resolve_slabs w p)"
  unfolding resolve_slabs_def boot_claim_def
  by (auto split: option.split intro!: plain_rules plain_probe)

end

locale with_engine = probing +
  assumes starts: "P (Spawn prog args env)" "P KillEngine"
begin

lemma plain_start [plain_rules]: "plain P (start_engine w p slabs plan)"
  unfolding start_engine_def by (intro plain_rules plain_act starts)

lemma plain_device_or_kill: "plain P (device_or_kill w)"
proof (rule plainI)
  fix tr
  obtain tr' r where m: "wait_for_device w ROOT_DEV DEVICE_TIMEOUT tr = (tr', r)" by fastforce
  obtain new where "tr' = tr @ new" "list_all P new" "\<And>i. r \<noteq> Inl (HandedOver i)"
    using plainE [OF plain_wait_device m] by metis
  then show "\<exists>new. fst (device_or_kill w tr) = tr @ new \<and> list_all P new
      \<and> (\<forall>i. snd (device_or_kill w tr) \<noteq> Inl (HandedOver i))"
    using m starts(2) by (cases r) (auto simp: device_or_kill_def)
qed

lemma plain_attach [plain_rules]: "plain P (attach_root w p plan)"
  unfolding attach_root_def by (intro plain_rules plain_device_or_kill)

end

definition engine_action :: "action \<Rightarrow> bool" where
  "engine_action a =
     (case a of Spawn prog _ _ \<Rightarrow> True | Exec prog _ _ \<Rightarrow> prog = STORMBLOCK | _ \<Rightarrow> False)"

definition report_action :: "action \<Rightarrow> bool" where
  "report_action a = (case a of PhaseReport _ _ \<Rightarrow> True | Posted _ _ \<Rightarrow> True | _ \<Rightarrow> False)"

definition is_spawn :: "action \<Rightarrow> bool" where
  "is_spawn a = (case a of Spawn _ _ _ \<Rightarrow> True | _ \<Rightarrow> False)"

interpretation no_engine: housekeeping "\<lambda>a. \<not> engine_action a \<and> \<not> report_action a"
  by unfold_locales (auto simp: engine_action_def report_action_def)

interpretation no_report: with_engine "\<lambda>a. \<not> report_action a"
  by unfold_locales (auto simp: report_action_def)

interpretation no_spawn: probing "\<lambda>a. \<not> is_spawn a"
  by unfold_locales (auto simp: is_spawn_def)

section \<open>The order of the reports\<close>

definition phases :: "trace \<Rightarrow> string list" where
  "phases tr = List.map_filter (\<lambda>a. case a of PhaseReport ph _ \<Rightarrow> Some ph | _ \<Rightarrow> None) tr"

lemma phases_simps [simp]:
  "phases [] = []" "phases (a @ b) = phases a @ phases b"
  "phases (PhaseReport ph d # tr) = ph # phases tr"
  by (simp_all add: phases_def map_filter_def)

lemma phases_none: "list_all (\<lambda>a. \<not> report_action a) new \<Longrightarrow> phases new = []"
  by (induction new) (auto simp: phases_def map_filter_def report_action_def split: action.splits)

text \<open>The reports a step makes when it hands over are one of the scripts; when it stops before, the
  start of one.\<close>

definition script :: "'a io \<Rightarrow> string list set \<Rightarrow> bool" where
  "script m L \<longleftrightarrow> (\<forall>tr. \<exists>new l. fst (m tr) = tr @ new \<and> l \<in> L \<and> prefix (phases new) l
      \<and> ((\<exists>i. snd (m tr) = Inl (HandedOver i)) \<longrightarrow> phases new \<in> L))"

lemma scriptE:
  assumes "script m L" "m tr = (tr', r)"
  obtains new l where "tr' = tr @ new" "l \<in> L" "prefix (phases new) l"
    "(\<exists>i. r = Inl (HandedOver i)) \<longrightarrow> phases new \<in> L"
  using assms unfolding script_def by (metis fst_conv snd_conv)

lemma script_after:
  assumes "plain (\<lambda>a. \<not> report_action a) m" "\<And>x. script (f x) L"
  shows "script (bind_io m f) L"
  unfolding script_def
proof
  fix tr
  obtain tr1 r where m: "m tr = (tr1, r)" by fastforce
  obtain new where n: "tr1 = tr @ new" "list_all (\<lambda>a. \<not> report_action a) new" "\<And>i. r \<noteq> Inl (HandedOver i)"
    using plainE [OF assms(1) m] by metis
  have ph: "phases new = []" by (rule phases_none [OF n(2)])
  show "\<exists>new l. fst (bind_io m f tr) = tr @ new \<and> l \<in> L \<and> prefix (phases new) l
      \<and> ((\<exists>i. snd (bind_io m f tr) = Inl (HandedOver i)) \<longrightarrow> phases new \<in> L)"
  proof (cases r)
    case (Inl e)
    obtain l where "l \<in> L" using assms(2) unfolding script_def by blast
    then show ?thesis using m n ph Inl by (intro exI [of _ new] exI [of _ l]) (auto simp: bind_io_def)
  next
    case (Inr x)
    obtain tr2 r2 where f: "f x tr1 = (tr2, r2)" by fastforce
    obtain new2 l where "tr2 = tr1 @ new2" "l \<in> L" "prefix (phases new2) l"
        "(\<exists>i. r2 = Inl (HandedOver i)) \<longrightarrow> phases new2 \<in> L"
      using scriptE [OF assms(2) f] by metis
    then show ?thesis using m n ph Inr f
      by (intro exI [of _ "new @ new2"] exI [of _ l]) (auto simp: bind_io_def)
  qed
qed

lemma script_then: "plain (\<lambda>a. \<not> report_action a) m \<Longrightarrow> script m' L \<Longrightarrow> script (then_io m m') L"
  by (simp add: then_io_def script_after)

lemma reporter_adds:
  "\<exists>rest. reporter_phase w rp ph d tr = (tr @ PhaseReport ph d # rest, Inr ()) \<and> phases rest = []
     \<and> list_all (\<lambda>a. \<not> engine_action a) rest"
  by (auto simp: reporter_phase_def then_io_def bind_io_def io_defs phases_def map_filter_def engine_action_def
      split: sum.split option.split prod.split)

lemma script_report:
  assumes "script m L"
  shows "script (then_io (reporter_phase w rp ph d) m) ((#) ph ` L)"
  unfolding script_def
proof
  fix tr
  obtain rest where r: "reporter_phase w rp ph d tr = (tr @ PhaseReport ph d # rest, Inr ())" "phases rest = []"
    using reporter_adds by blast
  obtain tr2 r2 where m: "m (tr @ PhaseReport ph d # rest) = (tr2, r2)" by fastforce
  obtain new l where n: "tr2 = (tr @ PhaseReport ph d # rest) @ new" "l \<in> L" "prefix (phases new) l"
      "(\<exists>i. r2 = Inl (HandedOver i)) \<longrightarrow> phases new \<in> L"
    using scriptE [OF assms m] by metis
  then show "\<exists>new l. fst (then_io (reporter_phase w rp ph d) m tr) = tr @ new \<and> l \<in> (#) ph ` L
      \<and> prefix (phases new) l
      \<and> ((\<exists>i. snd (then_io (reporter_phase w rp ph d) m tr) = Inl (HandedOver i)) \<longrightarrow> phases new \<in> (#) ph ` L)"
    using r m by (intro exI [of _ "PhaseReport ph d # rest @ new"] exI [of _ "ph # l"])
      (auto simp: then_io_def bind_io_def)
qed

lemma script_mono: "script m L \<Longrightarrow> L \<subseteq> L' \<Longrightarrow> script m L'"
  unfolding script_def by (meson subset_iff)

lemma script_option:
  "script a L \<Longrightarrow> (\<And>x. script (f x) L) \<Longrightarrow> script (case v of None \<Rightarrow> a | Some x \<Rightarrow> f x) L"
  by (simp split: option.split)

lemma script_sum:
  "(\<And>e. script (g e) L) \<Longrightarrow> (\<And>x. script (f x) L) \<Longrightarrow> script (case v of Inl e \<Rightarrow> g e | Inr x \<Rightarrow> f x) L"
  by (simp split: sum.split)

lemma script_prod: "(\<And>a b. script (f a b) L) \<Longrightarrow> script (case x of (a, b) \<Rightarrow> f a b) L"
  by (simp split: prod.split)

lemma then_prod: "then_io (case x of (a, b) \<Rightarrow> f a b) c = (case x of (a, b) \<Rightarrow> then_io (f a b) c)"
  by (simp split: prod.split)

lemma then_assoc: "then_io (then_io a b) c = then_io a (then_io b c)"
  by (auto simp: then_io_def bind_io_def fun_eq_iff split: prod.split sum.split)

lemma then_bind_assoc: "then_io (bind_io a f) c = bind_io a (\<lambda>x. then_io (f x) c)"
  by (auto simp: then_io_def bind_io_def fun_eq_iff split: prod.split sum.split)

lemma script_bail: "script (bail e) {[]}"
  by (auto simp: script_def io_defs)

lemma script_switch_root: "script (switch_root w) {[]}"
proof -
  have moves: "plain (\<lambda>a. \<not> report_action a) (each_io (move_mount w) xs)" for xs
    unfolding move_mount_def
    by (intro plain_rules no_report.plain_exec) (simp add: STORMBLOCK_def)
  have tail: "script (exec_init w i) {[]}" for i
    unfolding exec_init_def
    by (rule script_after [OF no_report.plain_exec])
      (auto simp: STORMBLOCK_def script_def io_defs split: cmd_result.split)
  show ?thesis
    unfolding switch_root_def
    by (intro script_then moves script_after plain_rules script_option script_bail tail)
qed

lemma script_media:
  assumes "script m L"
  shows "script (then_io (media_refresh w p rp) m) (L \<union> (#) ''media-updated'' ` L)"
    (is "script _ ?L")
proof -
  have L: "script m ?L" by (rule script_mono [OF assms]) simp
  have said: "script (then_io (each_io (\<lambda>(ph, detail). reporter_phase w rp ph detail) (outcome_report oc)) m) ?L" for oc
  proof (cases "outcome_report oc")
    case Nil
    then show ?thesis using script_then [OF plain_basic(1) L] by simp
  next
    case (Cons r rs)
    then obtain d where r: "outcome_report oc = [(''media-updated'', Some d)]"
      by (auto simp: outcome_report_def split: media_outcome.splits option.splits)
    have "script (then_io (reporter_phase w rp ''media-updated'' (Some d)) (then_io (return_io ()) m)) ?L"
      by (rule script_mono [OF script_report [OF script_then [OF plain_basic(1) assms]]]) simp
    then show ?thesis by (simp add: r then_assoc)
  qed
  have plain_m: "plain (\<lambda>a. \<not> report_action a) (act (MediaPass e))" for e
    by (rule plain_act) (simp add: report_action_def)
  have umount: "plain (\<lambda>a. \<not> report_action a) (exec w ''/bin/umount'' [ESP_MOUNT] [])"
    by (rule no_report.plain_exec) (simp add: STORMBLOCK_def)
  have tail: "script (then_io (case outcome_message oc of None \<Rightarrow> stop_io Panicked
        | Some msg \<Rightarrow> then_io (if msg = [] then return_io () else stamp w msg)
            (each_io (\<lambda>(ph, detail). reporter_phase w rp ph detail) (outcome_report oc))) m) ?L" for oc
  proof (cases "outcome_message oc")
    case None
    obtain l where "l \<in> ?L" using L unfolding script_def by blast
    then show ?thesis using None
      by (auto simp: script_def then_io_def bind_io_def io_defs intro!: exI [of _ l])
  next
    case (Some msg)
    then show ?thesis
      by (simp only: option.case then_assoc) (intro script_then plain_rules said)
  qed
  show ?thesis
    unfolding media_refresh_def then_bind_assoc then_prod then_assoc
    by (intro script_after [OF plain_basic(2)] script_prod script_then [OF plain_m] script_then [OF umount] tail)
qed

definition boot_scripts :: "boot_params \<Rightarrow> string list set" where
  "boot_scripts p =
     {[''assets-fetched'', ''root-attached''] @ media @ [''running''] @ assim | media assim.
        media \<in> {[], [''media-updated'']}
        \<and> assim = (if p_local_disk p \<noteq> None then [''assimilating''] else [])}"

lemma script_run: "script (run w p rp) (boot_scripts p)"
proof -
  define assim where "assim = (if p_local_disk p \<noteq> None then [''assimilating''] else [])"
  let ?M = "{[], [''media-updated'']}"
  have s1: "script (then_io (announce_flow_over w p rp) (switch_root w)) {assim}"
    using script_report [OF script_switch_root] script_then [OF plain_basic(1) script_switch_root]
    by (fastforce simp: assim_def announce_flow_over_def)
  have s2: "script (then_io (reporter_phase w rp ''running'' None)
      (then_io (announce_flow_over w p rp) (switch_root w))) {''running'' # assim}"
    using script_report [OF s1] by simp
  note s3 = script_media [OF s2, of w p rp]
  have s4: "script (enter_root w p rp (make_export_plan p))
      ({''running'' # assim} \<union> (#) ''media-updated'' ` {''running'' # assim})"
    unfolding enter_root_def by (intro script_then plain_rules s3)
  note s5 = script_report [OF s4, of w rp "''root-attached''" None]
  note s6 = script_then [OF no_report.plain_attach s5, of w p "make_export_plan p"]
  note s7 = script_report [OF s6, of w rp "''assets-fetched''" None]
  have eq: "(#) ''assets-fetched'' ` (#) ''root-attached'' `
      ({''running'' # assim} \<union> (#) ''media-updated'' ` {''running'' # assim}) = boot_scripts p"
    by (auto simp: boot_scripts_def assim_def)
  have bail: "script (bail e) (boot_scripts p)" for e :: string
    by (auto simp: script_def io_defs boot_scripts_def)
  have src: "plain (\<lambda>a. \<not> report_action a) (root_source w p)"
    unfolding root_source_def by (intro plain_rules)
  note s8 = script_then [OF src s7 [unfolded eq]]
  show ?thesis
    unfolding run_def Let_def
    by (intro script_then [OF no_report.plain_quiet(1)] script_then [OF no_report.plain_preparation(1)]
        script_then [OF no_report.plain_preparation(2)] script_sum bail s8)
qed

text \<open>C24: Whatever the machine answers, the reports of a boot come in the order the phases are reached:
  the assets, the root, then a refreshed boot medium if there was one, running, and the
  flow-over if a local disk was named. A boot that stops has made the reports of a beginning of
  that list; one that hands over has made all of them.\<close>

theorem reports_in_order:
  "(\<exists>l \<in> boot_scripts p. prefix (phases (fst (run w p rp []))) l)
   \<and> (case snd (run w p rp []) of
        Inl (HandedOver init) \<Rightarrow> phases (fst (run w p rp [])) \<in> boot_scripts p
      | _ \<Rightarrow> True)"
proof -
  obtain tr r where run: "run w p rp [] = (tr, r)" by fastforce
  obtain new l where "tr = [] @ new" "l \<in> boot_scripts p" "prefix (phases new) l"
      "(\<exists>i. r = Inl (HandedOver i)) \<longrightarrow> phases new \<in> boot_scripts p"
    using scriptE [OF script_run run] by metis
  then show ?thesis using run by (auto split: sum.split stop.split)
qed

section \<open>What a handover rests on\<close>

definition adds :: "(action \<Rightarrow> bool) \<Rightarrow> 'a io \<Rightarrow> bool" where
  "adds P m \<longleftrightarrow> (\<forall>tr. \<exists>new. fst (m tr) = tr @ new \<and> list_all P new)"

lemma addsE:
  assumes "adds P m" "m tr = (tr', r)"
  obtains new where "tr' = tr @ new" "list_all P new"
  using assms unfolding adds_def by (metis fst_conv)

lemma plain_adds: "plain P m \<Longrightarrow> adds P m"
  unfolding plain_def adds_def by blast

lemma adds_bind:
  assumes "adds P m" "\<And>x. adds P (f x)"
  shows "adds P (bind_io m f)"
  unfolding adds_def
proof
  fix tr
  obtain tr1 r where m: "m tr = (tr1, r)" by fastforce
  obtain new where n: "tr1 = tr @ new" "list_all P new" using addsE [OF assms(1) m] by metis
  show "\<exists>new. fst (bind_io m f tr) = tr @ new \<and> list_all P new"
  proof (cases r)
    case (Inr x)
    obtain tr2 r2 where f: "f x tr1 = (tr2, r2)" by fastforce
    obtain new2 where "tr2 = tr1 @ new2" "list_all P new2" using addsE [OF assms(2) f] by metis
    then show ?thesis using m n f Inr by (simp add: bind_io_def)
  qed (use m n in \<open>simp add: bind_io_def\<close>)
qed

lemma adds_then: "adds P m \<Longrightarrow> adds P m' \<Longrightarrow> adds P (then_io m m')"
  by (simp add: then_io_def adds_bind)

text \<open>A sequence that hands over has gone through its first step, unless that step hands over.\<close>

lemma bind_handed_over:
  assumes "plain P m" "bind_io m f tr = (tr', Inl (HandedOver i))"
  obtains tr1 new x where "m tr = (tr1, Inr x)" "tr1 = tr @ new" "list_all P new"
    "f x tr1 = (tr', Inl (HandedOver i))"
proof -
  obtain tr1 r where m: "m tr = (tr1, r)" by fastforce
  obtain new where n: "tr1 = tr @ new" "list_all P new" "\<And>i. r \<noteq> Inl (HandedOver i)"
    using plainE [OF assms(1) m] by metis
  show ?thesis
  proof (cases r)
    case (Inl e)
    then show ?thesis using m n assms(2) by (simp add: bind_io_def)
  next
    case (Inr x)
    then show ?thesis using that m n assms(2) by (simp add: bind_io_def)
  qed
qed

lemma then_handed_over:
  assumes "plain P m" "then_io m m' tr = (tr', Inl (HandedOver i))"
  obtains tr1 new x where "m tr = (tr1, Inr x)" "tr1 = tr @ new" "list_all P new"
    "m' tr1 = (tr', Inl (HandedOver i))"
  using bind_handed_over [OF assms(1) assms(2) [unfolded then_io_def]] by metis

lemma bind_Inr:
  "bind_io m f tr = (tr', Inr y) \<longleftrightarrow> (\<exists>tr1 x. m tr = (tr1, Inr x) \<and> f x tr1 = (tr', Inr y))"
  by (auto simp: bind_io_def split: prod.split sum.split)

lemma then_Inr:
  "then_io m m' tr = (tr', Inr y) \<longleftrightarrow> (\<exists>tr1 x. m tr = (tr1, Inr x) \<and> m' tr1 = (tr', Inr y))"
  by (auto simp: then_io_def bind_Inr)

lemma context_Inr: "in_context c m tr = (tr', Inr y) \<longleftrightarrow> m tr = (tr', Inr y)"
  by (auto simp: in_context_def split: prod.split sum.split stop.split)

lemma act_Inr: "act a tr = (tr', Inr y) \<longleftrightarrow> tr' = tr @ [a]"
  by (auto simp: io_defs)

lemma ask_Inr: "ask f tr = (tr', Inr y) \<longleftrightarrow> tr' = tr \<and> y = f tr"
  by (auto simp: io_defs)

lemma return_Inr: "return_io x tr = (tr', Inr y) \<longleftrightarrow> tr' = tr \<and> y = x"
  by (auto simp: io_defs)

lemma bail_not_Inr: "bail e tr \<noteq> (tr', Inr y)"
  by (simp add: io_defs)

lemmas io_inversion = bind_Inr then_Inr context_Inr act_Inr ask_Inr return_Inr bail_not_Inr

lemma plain_reporter [plain_rules]: "plain (\<lambda>a. \<not> is_spawn a) (reporter_phase w rp ph d)"
  unfolding reporter_phase_def
  by (auto simp: is_spawn_def split: sum.split option.split prod.split intro!: plain_rules plain_act)

lemma plain_media [plain_rules]: "plain (\<lambda>a. \<not> is_spawn a) (media_refresh w p rp)"
proof -
  have "plain (\<lambda>a. \<not> is_spawn a) (act (MediaPass e))" for e
    by (rule plain_act) (simp add: is_spawn_def)
  moreover have "plain (\<lambda>a. \<not> is_spawn a) (exec w ''/bin/umount'' [ESP_MOUNT] [])"
    by (rule no_spawn.plain_exec) (simp add: STORMBLOCK_def)
  ultimately show ?thesis
    unfolding media_refresh_def by (auto split: prod.split option.split intro!: plain_rules)
qed

lemma spawn_Inr:
  "bind_io (ask (wd_cmd w)) (\<lambda>r. case r of CannotRun err \<Rightarrow> bail (g err) | Exited _ _ _ \<Rightarrow> return_io ()) tr
     = (tr', Inr y) \<Longrightarrow> tr' = tr"
  by (cases "wd_cmd w tr") (auto simp: bind_io_def io_defs)

lemma start_engine_spawns:
  assumes "start_engine w p slabs plan tr = (tr', Inr y)"
  shows "slabs \<noteq> [] \<and> (\<exists>pre. tr' = tr @ pre @ [Spawn STORMBLOCK (engine_args p slabs plan) (host_env (p_hostnqn p))]
           \<and> list_all (\<lambda>a. \<not> is_spawn a) pre)"
proof -
  let ?data = "case p_data_slab p of
      Some data \<Rightarrow> stamp w (''data slab '' @ data @ '' carries node identity; never formatted'') | None \<Rightarrow> return_io ()"
  let ?start = "Spawn STORMBLOCK (engine_args p slabs plan) (host_env (p_hostnqn p))"
  have ne: "slabs \<noteq> []" using assms by (auto simp: start_engine_def bail_not_Inr)
  then obtain tr1 tr2 x z where a: "stamp w (''starting engine on '' @ join '', '' slabs) tr = (tr1, Inr x)"
      "?data tr1 = (tr2, Inr z)" and tr': "tr' = tr2 @ [?start]"
    using assms unfolding start_engine_def
    by (auto simp: then_Inr act_Inr dest!: spawn_Inr)
  obtain n1 where "tr1 = tr @ n1" "list_all (\<lambda>a. \<not> is_spawn a) n1"
    using plainE [OF no_spawn.plain_quiet(1) a(1)] by metis
  moreover have "plain (\<lambda>a. \<not> is_spawn a) ?data" by (intro plain_rules)
  then obtain n2 where "tr2 = tr1 @ n2" "list_all (\<lambda>a. \<not> is_spawn a) n2"
    using a(2) by (rule plainE) blast
  ultimately show ?thesis using ne tr' by (intro conjI exI [of _ "n1 @ n2"]) auto
qed

lemma device_present:
  assumes "wait_for_device w path timeout tr = (tr', Inr y)"
  shows "wd_exists w tr' path"
proof -
  obtain new there where "wait_device_from w path timeout tr False tr = (tr @ new, Inr there)"
      "there \<longrightarrow> wd_exists w (tr @ new) path"
    using device_wait_result [of "\<lambda>_. True" w path timeout tr False tr] by auto
  then show ?thesis using assms
    by (auto simp: wait_for_device_def bind_Inr return_Inr bail_not_Inr ask_Inr split: if_splits)
qed

lemma device_or_kill_Inr:
  "device_or_kill w tr = (tr', Inr y) \<longleftrightarrow> wait_for_device w ROOT_DEV DEVICE_TIMEOUT tr = (tr', Inr y)"
  by (auto simp: device_or_kill_def split: prod.split sum.split)

lemma attach_root_spawns:
  assumes "attach_root w p plan tr = (tr', Inr y)"
  obtains probed slabs where "resolve_slabs w p tr = (probed, Inr slabs)" "slabs \<noteq> []"
    "filter is_spawn tr' = filter is_spawn tr @ [Spawn STORMBLOCK (engine_args p slabs plan) (host_env (p_hostnqn p))]"
    "wd_exists w tr' ROOT_DEV" "prefix tr tr'"
proof -
  obtain probed slabs started x where r: "resolve_slabs w p tr = (probed, Inr slabs)"
      and s: "start_engine w p slabs plan probed = (started, Inr x)"
      and d: "wait_for_device w ROOT_DEV DEVICE_TIMEOUT started = (tr', Inr y)"
    using assms by (auto simp: attach_root_def io_inversion device_or_kill_Inr)
  obtain n1 where n1: "probed = tr @ n1" "list_all (\<lambda>a. \<not> is_spawn a) n1"
    using plainE [OF no_spawn.plain_resolve r] by metis
  obtain n3 where n3: "tr' = started @ n3" "list_all (\<lambda>a. \<not> is_spawn a) n3"
    using plainE [OF no_spawn.plain_wait_device d] by metis
  have none: "list_all (\<lambda>a. \<not> is_spawn a) xs \<Longrightarrow> filter is_spawn xs = []" for xs
    by (simp add: list_all_iff)
  show ?thesis
    using that [OF r] start_engine_spawns [OF s] n1 n3 device_present [OF d]
    by (auto simp: none is_spawn_def)
qed

text \<open>What holds of a handover, given the starts of the engine before the step.\<close>

definition hands :: "'a io \<Rightarrow> (action list \<Rightarrow> trace \<Rightarrow> string \<Rightarrow> bool) \<Rightarrow> bool" where
  "hands m Q \<longleftrightarrow> (\<forall>tr tr' i. m tr = (tr', Inl (HandedOver i)) \<longrightarrow> Q (filter is_spawn tr) tr' i)"

lemma no_spawns: "list_all (\<lambda>a. \<not> is_spawn a) xs \<Longrightarrow> filter is_spawn xs = []"
  by (simp add: list_all_iff)

lemma hands_then:
  assumes "plain (\<lambda>a. \<not> is_spawn a) m" "hands m' Q"
  shows "hands (then_io m m') Q"
  unfolding hands_def
proof (intro allI impI)
  fix tr tr' i assume "then_io m m' tr = (tr', Inl (HandedOver i))"
  then obtain new where "list_all (\<lambda>a. \<not> is_spawn a) new" "m' (tr @ new) = (tr', Inl (HandedOver i))"
    using then_handed_over [OF assms(1)] by metis
  moreover from this have "Q (filter is_spawn (tr @ new)) tr' i"
    using assms(2) unfolding hands_def by blast
  ultimately show "Q (filter is_spawn tr) tr' i" by (simp add: no_spawns)
qed

lemma hands_mono: "hands m Q \<Longrightarrow> (\<And>s tr i. Q s tr i \<Longrightarrow> Q' s tr i) \<Longrightarrow> hands m Q'"
  unfolding hands_def by blast

text \<open>The init that is run was seen in the new root, and running it is the last action.\<close>

definition enters :: "world \<Rightarrow> trace \<Rightarrow> string \<Rightarrow> bool" where
  "enters w tr init \<longleftrightarrow> (\<exists>seen rest. tr = seen @ rest @ [Exec ''/sbin/switch_root'' [SYSROOT, init] []]
     \<and> wd_exists w seen (SYSROOT @ init))"

lemma exec_init_hands:
  "exec_init w init tr = (tr', Inl (HandedOver i)) \<Longrightarrow>
     tr' = tr @ [Exec ''/sbin/switch_root'' [SYSROOT, init] []] \<and> i = init"
  by (cases "wd_cmd w (tr @ [Exec ''/sbin/switch_root'' [SYSROOT, init] []])")
    (auto simp: exec_init_def exec_def then_io_def bind_io_def io_defs)

lemma plain_moves: "plain (\<lambda>a. \<not> is_spawn a) (each_io (move_mount w) xs)"
  unfolding move_mount_def by (intro plain_rules no_spawn.plain_exec) (simp add: STORMBLOCK_def)

lemma find_path_Some: "find_path f xs = Some x \<Longrightarrow> f x \<and> x \<in> set xs"
  by (auto simp: find_path_def find_Some_iff)

lemma switch_root_hands: "hands (switch_root w) (\<lambda>s tr i. filter is_spawn tr = s \<and> enters w tr i)"
proof -
  let ?Q = "\<lambda>s tr i. filter is_spawn tr = s \<and> enters w tr i"
  let ?found = "ask (\<lambda>tr. find_path (\<lambda>i. wd_exists w tr (SYSROOT @ i)) [''/sbin/init'', ''/usr/lib/systemd/systemd''])"
  let ?enter = "\<lambda>found. case found of None \<Rightarrow> bail ''no init found in the new root''
      | Some init \<Rightarrow> then_io (stamp w (''switch_root into '' @ init)) (exec_init w init)"
  have "hands (bind_io ?found ?enter) ?Q"
    unfolding hands_def
  proof (intro allI impI)
    fix tr tr' i assume "bind_io ?found ?enter tr = (tr', Inl (HandedOver i))"
    then obtain init where
        init: "find_path (\<lambda>i. wd_exists w tr (SYSROOT @ i)) [''/sbin/init'', ''/usr/lib/systemd/systemd''] = Some init"
        and go: "then_io (stamp w (''switch_root into '' @ init)) (exec_init w init) tr = (tr', Inl (HandedOver i))"
      by (cases "find_path (\<lambda>i. wd_exists w tr (SYSROOT @ i)) [''/sbin/init'', ''/usr/lib/systemd/systemd'']")
        (auto simp: bind_io_def ask_def bail_def stop_io_def)
    have there: "wd_exists w tr (SYSROOT @ init)" using find_path_Some [OF init] by simp
    obtain new where n: "list_all (\<lambda>a. \<not> is_spawn a) new" "exec_init w init (tr @ new) = (tr', Inl (HandedOver i))"
      using then_handed_over [OF no_spawn.plain_quiet(1) go] by metis
    show "?Q (filter is_spawn tr) tr' i"
      using exec_init_hands [OF n(2)] n(1) there by (auto simp: no_spawns is_spawn_def enters_def)
  qed
  then show ?thesis unfolding switch_root_def by (rule hands_then [OF plain_moves])
qed

lemma enter_root_hands:
  "hands (enter_root w p rp plan) (\<lambda>s tr i. filter is_spawn tr = s \<and> enters w tr i)"
proof -
  have fl: "plain (\<lambda>a. \<not> is_spawn a) (announce_flow_over w p rp)"
    unfolding announce_flow_over_def by (intro plain_rules)
  show ?thesis unfolding enter_root_def by (intro hands_then plain_rules fl switch_root_hands)
qed

text \<open>The root was attached: the slabs were resolved, the engine was started on them, and the root
  device was there when the wait for it ended.\<close>

definition attached_on :: "world \<Rightarrow> boot_params \<Rightarrow> string list \<Rightarrow> trace \<Rightarrow> bool" where
  "attached_on w p slabs attached \<longleftrightarrow>
     slabs \<noteq> [] \<and> wd_exists w attached ROOT_DEV
     \<and> (\<exists>before probed. prefix before attached \<and> resolve_slabs w p before = (probed, Inr slabs))"

lemma attached_hands:
  assumes "hands m Q"
  shows "hands (then_io (attach_root w p plan) m) (\<lambda>s tr i. \<exists>slabs attached. attached_on w p slabs attached
    \<and> filter is_spawn attached = s @ [Spawn STORMBLOCK (engine_args p slabs plan) (host_env (p_hostnqn p))]
    \<and> m attached = (tr, Inl (HandedOver i)) \<and> Q (filter is_spawn attached) tr i)"
  unfolding hands_def
proof (intro allI impI)
  fix tr tr' i assume go: "then_io (attach_root w p plan) m tr = (tr', Inl (HandedOver i))"
  have "plain (\<lambda>_. True) (attach_root w p plan)"
    by (rule plain_mono [OF no_report.plain_attach]) simp
  then obtain attached x where a: "attach_root w p plan tr = (attached, Inr x)"
      and m: "m attached = (tr', Inl (HandedOver i))"
    using go by (rule then_handed_over)
  obtain probed slabs where "resolve_slabs w p tr = (probed, Inr slabs)" "slabs \<noteq> []"
    "filter is_spawn attached = filter is_spawn tr @ [Spawn STORMBLOCK (engine_args p slabs plan) (host_env (p_hostnqn p))]"
    "wd_exists w attached ROOT_DEV" "prefix tr attached"
    using a by (rule attach_root_spawns)
  then show "\<exists>slabs attached. attached_on w p slabs attached
    \<and> filter is_spawn attached = filter is_spawn tr @ [Spawn STORMBLOCK (engine_args p slabs plan) (host_env (p_hostnqn p))]
    \<and> m attached = (tr', Inl (HandedOver i)) \<and> Q (filter is_spawn attached) tr' i"
    using assms m unfolding attached_on_def hands_def by blast
qed

lemma run_hands:
  "hands (run w p rp) (\<lambda>s tr i. check_local_disk p = Inr () \<and> (is_network_boot p \<or> p_slabs p \<noteq> [])
     \<and> enters w tr i
     \<and> (\<exists>slabs attached. attached_on w p slabs attached
          \<and> filter is_spawn tr
              = s @ [Spawn STORMBLOCK (engine_args p slabs (make_export_plan p)) (host_env (p_hostnqn p))]))"
proof -
  let ?Q = "\<lambda>s tr i. check_local_disk p = Inr () \<and> (is_network_boot p \<or> p_slabs p \<noteq> []) \<and> enters w tr i
     \<and> (\<exists>slabs attached. attached_on w p slabs attached
          \<and> filter is_spawn tr
              = s @ [Spawn STORMBLOCK (engine_args p slabs (make_export_plan p)) (host_env (p_hostnqn p))])"
  let ?tail = "then_io (reporter_phase w rp ''root-attached'' None) (enter_root w p rp (make_export_plan p))"
  let ?all = "then_io (root_source w p) (then_io (reporter_phase w rp ''assets-fetched'' None)
      (then_io (attach_root w p (make_export_plan p)) ?tail))"
  have src: "plain (\<lambda>a. \<not> is_spawn a) (root_source w p)"
    unfolding root_source_def by (intro plain_rules)
  have tail: "hands ?tail (\<lambda>s tr i. filter is_spawn tr = s \<and> enters w tr i)"
    by (intro hands_then plain_rules enter_root_hands)
  have none: "hands (bail e) Q" for e :: string and Q by (simp add: hands_def io_defs)
  have all: "hands ?all ?Q" if ok: "check_local_disk p = Inr ()"
  proof (cases "is_network_boot p \<or> p_slabs p \<noteq> []")
    case True
    have inner: "hands (then_io (attach_root w p (make_export_plan p)) ?tail) ?Q"
      by (rule hands_mono [OF attached_hands [OF tail]]) (use ok True in auto)
    show ?thesis by (rule hands_then [OF src hands_then [OF plain_reporter inner]])
  next
    case False
    then have "?all = bail (no_root_source p)"
      by (auto simp: root_source_def then_io_def bind_io_def io_defs fun_eq_iff)
    then show ?thesis by (simp add: none)
  qed
  have "hands (case check_local_disk p of Inl err \<Rightarrow> bail err | Inr _ \<Rightarrow> ?all) ?Q"
    using all by (cases "check_local_disk p") (simp_all add: none)
  then show ?thesis unfolding run_def Let_def by (intro hands_then plain_rules)
qed

text \<open>C2: A machine is handed to a new root only on evidence: the guard of the data slab accepted the
  flow-over, a source of the root was named, the slabs were resolved and are not none, the
  engine was started exactly once, on just those slabs and with the flags of the command line
  and the plan of its exports, the root device was there when the wait for it ended, and the
  init that is run was seen in the new root, its start being the last action of all.\<close>

theorem handover_rests_on_evidence:
  assumes "run w p rp [] = (tr, Inl (HandedOver init))"
  shows "check_local_disk p = Inr () \<and> (is_network_boot p \<or> p_slabs p \<noteq> [])
    \<and> enters w tr init
    \<and> (\<exists>slabs attached. attached_on w p slabs attached
         \<and> filter is_spawn tr
             = [Spawn STORMBLOCK (engine_args p slabs (make_export_plan p)) (host_env (p_hostnqn p))])"
  using run_hands [of w p rp] assms unfolding hands_def by fastforce

text \<open>Steps that always go on.\<close>

lemma smooth_simple [smooth_rules]: "smooth (stamp w m)" "smooth (tracing_warn m)" "smooth (exec w prog args env)"
  "smooth (mount_cmd w args)" "smooth (mount_first w argss)"
proof -
  show "smooth (stamp w m)" unfolding stamp_def by (intro smooth_rules)
  show "smooth (tracing_warn m)" unfolding tracing_warn_def by (intro smooth_rules)
  show "smooth (exec w prog args env)" unfolding exec_def by (intro smooth_rules)
  show "smooth (mount_cmd w args)" for args
    unfolding mount_cmd_def exec_def by (intro smooth_rules)
  then show "smooth (mount_first w argss)" by (induction argss) (auto intro!: smooth_rules)
qed

lemma smooth_reporter [smooth_rules]: "smooth (reporter_phase w rp ph d)"
  unfolding reporter_phase_def by (auto split: sum.split option.split prod.split intro!: smooth_rules)

lemma smooth_steps [smooth_rules]:
  "smooth (mount_pseudo_filesystems w)" "smooth (load_modules w)" "smooth (apply_exports w plan)"
  "smooth (write_identity w p)" "smooth (announce_flow_over w p rp)"
  unfolding mount_pseudo_filesystems_def mount_pseudo_def load_modules_def apply_exports_def apply_mount_def
    apply_writable_def apply_image_store_def append_fstab_def write_identity_def write_or_warn_def
    announce_flow_over_def Let_def
  by (auto simp: split_beta intro!: smooth_rules)

text \<open>A machine that boots from a local slab.\<close>

definition demo_world :: world where
  "demo_world =
     \<lparr>wd_cmd = \<lambda>_. Exited True ''0'' [], wd_exists = \<lambda>_ path. path \<in> {''/dev/ublkb0'', ''/sysroot/sbin/init''},
      wd_read = \<lambda>_ _. None, wd_list = \<lambda>_ _. None, wd_write = \<lambda>_. Written, wd_lag = \<lambda>_ _ _. 0,
      wd_net = \<lambda>_. \<lparr>nw_resolve = \<lambda>_. None, nw_send = \<lambda>_ _. False\<rparr>,
      wd_media = \<lambda>_. (demo_media (\<lambda>_. Done) [] [], demo_esp [] [])\<rparr>"

theorem block_wait_is_bounded_witness:
  "\<exists>n \<le> 75. wait_for_block demo_world ''/dev/sda'' 15000 [] = (replicate n (Sleep 200), Inr False)"
  using block_wait_is_bounded [of 15000 demo_world "''/dev/sda''" "[]"] by (auto simp: demo_world_def)

definition demo_boot :: boot_params where
  "demo_boot = boot_params_default\<lparr>p_slabs := [''/dev/sdb'']\<rparr>"

definition silent :: reporter where
  "silent = \<lparr>rp_url = None, rp_mac = None\<rparr>"

definition stops_with :: "'a io \<Rightarrow> stop \<Rightarrow> bool" where
  "stops_with m e \<longleftrightarrow> (\<forall>tr. snd (m tr) = Inl e)"

lemma then_stops: "smooth m \<Longrightarrow> stops_with m' e \<Longrightarrow> stops_with (then_io m m') e"
  unfolding smooth_def stops_with_def then_io_def bind_io_def
  by (metis (mono_tags, lifting) case_prod_beta sum.simps(6))

text \<open>The same machine on a network.\<close>

definition demo_on :: "(trace \<Rightarrow> network) \<Rightarrow> world" where
  "demo_on net = demo_world\<lparr>wd_net := net\<rparr>"

lemmas demo_boot_simps = demo_boot_def boot_params_default_def demo_on_def demo_world_def

lemma demo_answers:
  "wd_cmd (demo_on net) tr = Exited True ''0'' []" "wd_exists (demo_on net) tr path \<longleftrightarrow> path \<in> {''/dev/ublkb0'', ''/sysroot/sbin/init''}"
  "wd_lag (demo_on net) k start tr = 0"
  by (simp_all add: demo_on_def demo_world_def)

lemma return_laws: "in_context c (return_io x) = return_io x" "bind_io (return_io x) f = f x"
  by (simp_all add: fun_eq_iff in_context_def bind_io_def return_io_def)

lemma smooth_context: "smooth m \<Longrightarrow> smooth (in_context c m)"
  unfolding smooth_def in_context_def by (metis (mono_tags, lifting) prod.collapse case_prod_conv sum.simps(6))

lemma demo_start: "smooth (start_engine (demo_on net) demo_boot [x] plan)"
  unfolding start_engine_def
  by (auto simp: smooth_def demo_boot_simps stamp_def then_io_def bind_io_def io_defs)

lemma demo_steps:
  "smooth (root_source (demo_on net) demo_boot)" "smooth (attach_root (demo_on net) demo_boot plan)"
  "smooth (mount_root (demo_on net) demo_boot)" "smooth (media_refresh (demo_on net) demo_boot rp)"
  "stops_with (switch_root (demo_on net)) (HandedOver ''/sbin/init'')"
proof -
  have "root_source (demo_on net) demo_boot = return_io ()"
    by (simp add: root_source_def is_network_boot_def nvme_uri_def boothost_claim_def demo_boot_simps)
  then show "smooth (root_source (demo_on net) demo_boot)" by (simp add: smooth_rules)
  have slabs: "resolve_slabs (demo_on net) demo_boot = return_io [''/dev/sdb'']"
    by (simp add: resolve_slabs_def boothost_claim_def all_slabs_def nvme_uri_def demo_boot_simps)
  have wait: "smooth (device_or_kill (demo_on net))"
    by (auto simp: smooth_def device_or_kill_def wait_for_device_def bind_io_def io_defs wait_device_from.simps
        elapsed_def demo_answers ROOT_DEV_def DEVICE_TIMEOUT_def)
  show "smooth (attach_root (demo_on net) demo_boot plan)"
    unfolding attach_root_def slabs return_laws
    by (intro smooth_rules smooth_context wait demo_start)
  show "smooth (mount_root (demo_on net) demo_boot)"
    by (auto simp: smooth_def mount_root_def demo_boot_simps mount_fs_def then_io_def bind_io_def io_defs
        stamp_def mount_cmd_def exec_def)
  show "smooth (media_refresh (demo_on net) demo_boot rp)"
    by (auto simp: smooth_def media_refresh_def demo_boot_simps media_run_def then_io_def bind_io_def io_defs
        outcome_message_def outcome_report_def exec_def)
  have moves: "smooth (each_io (move_mount w) xs)" for w xs
    unfolding move_mount_def by (intro smooth_rules)
  have found: "find_path (\<lambda>i. wd_exists (demo_on net) tr (SYSROOT @ i)) [''/sbin/init'', ''/usr/lib/systemd/systemd'']
      = Some ''/sbin/init''" for tr
    by (simp add: find_path_def demo_answers SYSROOT_def)
  have "stops_with (exec_init (demo_on net) i) (HandedOver i)" for i
    by (simp add: stops_with_def exec_init_def exec_def then_io_def bind_io_def io_defs demo_answers)
  then have "stops_with (then_io (stamp (demo_on net) m) (exec_init (demo_on net) i)) (HandedOver i)" for i m
    by (intro then_stops smooth_rules)
  then have "stops_with (bind_io (ask (\<lambda>tr. find_path (\<lambda>i. wd_exists (demo_on net) tr (SYSROOT @ i))
        [''/sbin/init'', ''/usr/lib/systemd/systemd''])) (\<lambda>found. case found of
          None \<Rightarrow> bail ''no init found in the new root''
        | Some i \<Rightarrow> then_io (stamp (demo_on net) (''switch_root into '' @ i)) (exec_init (demo_on net) i)))
      (HandedOver ''/sbin/init'')"
    unfolding stops_with_def bind_io_def ask_def found by (simp del: append.simps)
  then show "stops_with (switch_root (demo_on net)) (HandedOver ''/sbin/init'')"
    unfolding switch_root_def by (intro then_stops moves)
qed

lemma demo_on_runs:
  "run (demo_on net) demo_boot rp [] =
     (fst (run (demo_on net) demo_boot rp []), Inl (HandedOver ''/sbin/init''))"
proof -
  have guard: "check_local_disk demo_boot = Inr ()"
    by (simp add: check_local_disk_def demo_boot_simps)
  have "stops_with (run (demo_on net) demo_boot rp) (HandedOver ''/sbin/init'')"
    unfolding run_def enter_root_def Let_def guard sum.case
    by (intro then_stops smooth_rules demo_steps)
  then show ?thesis unfolding stops_with_def by (metis prod.collapse)
qed

lemma demo_boot_runs:
  "run demo_world demo_boot silent [] =
     (fst (run demo_world demo_boot silent []), Inl (HandedOver ''/sbin/init''))"
  using demo_on_runs [of "wd_net demo_world" silent] by (simp add: demo_on_def demo_world_def)

theorem handover_rests_on_evidence_witness:
  "enters demo_world (fst (run demo_world demo_boot silent [])) ''/sbin/init''
   \<and> run demo_world demo_boot silent [] =
     (fst (run demo_world demo_boot silent []), Inl (HandedOver ''/sbin/init''))"
  using handover_rests_on_evidence [OF demo_boot_runs] demo_boot_runs by simp

section \<open>The guard comes first\<close>

lemma smooth_plain_then:
  assumes "smooth m" "plain P m" "\<And>tr. \<exists>new. m' tr = (tr @ new, r) \<and> list_all P new"
  shows "\<exists>new. then_io m m' tr = (tr @ new, r) \<and> list_all P new"
proof -
  obtain tr1 x where m: "m tr = (tr1, Inr x)" using assms(1) unfolding smooth_def by (metis prod.collapse)
  obtain n1 where n1: "tr1 = tr @ n1" "list_all P n1" using plainE [OF assms(2) m] by metis
  obtain n2 where "m' tr1 = (tr1 @ n2, r)" "list_all P n2" using assms(3) by blast
  then show ?thesis using m n1 by (auto simp: then_io_def bind_io_def)
qed

text \<open>C26: When the flow-over is refused, the boot stops with that refusal before anything is attached:
  no slab is probed or claimed, no engine is started, no report is made.\<close>

theorem refused_guard_starts_nothing:
  assumes "check_local_disk p = Inl why"
  shows "\<exists>tr. run w p rp [] = (tr, Inl (BootError why))
    \<and> list_all (\<lambda>a. \<not> engine_action a \<and> \<not> report_action a) tr"
proof -
  let ?P = "\<lambda>a. \<not> engine_action a \<and> \<not> report_action a"
  have "\<exists>new. bail why tr = (tr @ new, Inl (BootError why)) \<and> list_all ?P new" for tr :: trace
    by (simp add: io_defs)
  then have "\<exists>new. run w p rp [] = ([] @ new, Inl (BootError why)) \<and> list_all ?P new"
    unfolding run_def assms sum.case
    by (intro smooth_plain_then smooth_rules no_engine.plain_quiet no_engine.plain_preparation)
  then show ?thesis by simp
qed

definition refused_boot :: boot_params where
  "refused_boot = boot_params_default\<lparr>p_local_disk := Some ''/dev/sda'', p_data_slab := Some ''/dev/sda2''\<rparr>"

lemma refused_boot_refused: "\<exists>why. check_local_disk refused_boot = Inl why"
  by (simp add: refused_boot_def boot_params_default_def check_local_disk_def device_base_def split_last_def
      Let_def is_digit_def starts_with_def trim_end_matches_def)

theorem refused_guard_starts_nothing_witness:
  "\<exists>tr why. run demo_world refused_boot silent [] = (tr, Inl (BootError why))
    \<and> list_all (\<lambda>a. \<not> engine_action a \<and> \<not> report_action a) tr"
proof -
  obtain why where "check_local_disk refused_boot = Inl why" using refused_boot_refused by blast
  from refused_guard_starts_nothing [OF this, of demo_world silent] show ?thesis by blast
qed

section \<open>The evidence for a slab\<close>

text \<open>The device is there, and the engine's own listing of it, successful, names a slab.\<close>

definition proven_slab :: "world \<Rightarrow> string \<Rightarrow> bool" where
  "proven_slab w dev \<longleftrightarrow> (\<exists>tr code out. wd_exists w tr dev
     \<and> wd_cmd w (tr @ [Exec STORMBLOCK [''slab'', ''list'', dev] []]) = Exited True code out
     \<and> list_ex is_slab_line (lines out))"

lemma is_slab_proven: "is_slab w dev tr = (tr', Inr True) \<Longrightarrow> proven_slab w dev"
  by (cases "wd_cmd w (tr @ [Exec STORMBLOCK [''slab'', ''list'', dev] []])")
    (auto simp: is_slab_def proven_slab_def exec_def then_io_def bind_io_def io_defs split: if_splits)

lemma trusted_slabs_evidence:
  "trusted_slabs w boothost slabs tr = (tr', Inr good) \<Longrightarrow>
     subseq good slabs \<and> (\<forall>s \<in> set good. is_remote s \<or> proven_slab w s)"
proof (induction slabs arbitrary: tr tr' good)
  case (Cons slab rest)
  let ?test = "if is_remote slab then return_io True else is_slab w slab"
  from Cons.prems obtain tr1 ok where t: "?test tr = (tr1, Inr ok)"
    and go: "(if ok then bind_io (trusted_slabs w boothost rest) (\<lambda>slabs. return_io (slab # slabs))
       else then_io (stamp w (slab @ '' is not a slab - asking '' @ boothost @ '' instead''))
              (trusted_slabs w boothost rest)) tr1 = (tr', Inr good)"
    by (auto simp: bind_Inr simp del: append.simps)
  show ?case
  proof (cases ok)
    case True
    then have "is_remote slab \<or> proven_slab w slab" using t is_slab_proven by (auto split: if_splits)
    moreover obtain tr2 gs where "trusted_slabs w boothost rest tr1 = (tr2, Inr gs)" "good = slab # gs"
      using go True by (auto simp: bind_Inr return_Inr)
    ultimately show ?thesis using Cons.IH by fastforce
  next
    case False
    then obtain tr2 where "trusted_slabs w boothost rest tr2 = (tr', Inr good)"
      using go by (auto simp: then_Inr simp del: append.simps)
    then show ?thesis using Cons.IH by fastforce
  qed
qed (simp add: return_Inr)

text \<open>What the appliance answered: the trimmed output of the claim, not empty.\<close>

definition claimed_root :: "world \<Rightarrow> string \<Rightarrow> string \<Rightarrow> bool" where
  "claimed_root w tag uri \<longleftrightarrow> uri \<noteq> [] \<and> (\<exists>tr args env code out.
     wd_cmd w (tr @ [Exec STORMBLOCK args env]) = Exited True code out \<and> uri = trim out
     \<and> args ! 0 = ''boot-claim'' \<and> args ! 3 = ''--tag'' \<and> args ! 4 = tag)"

lemma boot_claim_Inr:
  assumes "boot_claim w boothost tag ns nqn tr = (tr', Inr uri)"
  shows "claimed_root w tag uri"
proof -
  let ?args = "[''boot-claim'', ''--boothost'', boothost, ''--tag'', tag]
          @ (if ns \<noteq> ''boothost'' then [''--namespace'', ns] else [])"
  obtain code out where "wd_cmd w (tr @ [Exec STORMBLOCK ?args (host_env nqn)]) = Exited True code out"
      "trim out \<noteq> []" "uri = trim out"
    using assms
    by (cases "wd_cmd w (tr @ [Exec STORMBLOCK ?args (host_env nqn)])")
      (auto simp: boot_claim_def exec_def then_io_def bind_io_def io_defs split: if_splits)
  then show ?thesis unfolding claimed_root_def
    by (intro conjI exI [of _ tr] exI [of _ ?args] exI [of _ "host_env nqn"] exI [of _ code] exI [of _ out]) simp_all
qed

definition with_data_slab :: "boot_params \<Rightarrow> string list \<Rightarrow> string list" where
  "with_data_slab p slabs =
     (case p_data_slab p of
        Some data \<Rightarrow> if data \<notin> set slabs then slabs @ [data] else slabs
      | None \<Rightarrow> slabs)"

text \<open>C23: With an appliance named, the engine is handed no device on trust: besides the data slab, it
  gets the named slabs that are remote or that the engine's own listing proved to be slabs, in
  the order they were named, or, when none of them is, the one root the appliance answered for
  this machine's tag. There is always at least one.\<close>

theorem slabs_rest_on_evidence:
  assumes "resolve_slabs w p tr = (tr', Inr slabs)" and "boothost_claim p = Some (boothost, tag, ns)"
  shows "\<exists>roots. roots \<noteq> [] \<and> slabs = with_data_slab p roots
    \<and> (subseq roots (p_slabs p) \<and> list_all (\<lambda>s. is_remote s \<or> proven_slab w s) roots
       \<or> (\<exists>uri. roots = [uri] \<and> claimed_root w tag uri))"
proof -
  let ?ask = "\<lambda>named. if named \<noteq> [] then return_io named
     else then_io (stamp w (''asking '' @ boothost @ '' which image '' @ tag @ '' boots''))
       (bind_io (boot_claim w boothost tag ns (p_hostnqn p)) (\<lambda>uri.
          then_io (stamp w (''claimed root: '' @ uri)) (return_io [uri])))"
  have res: "resolve_slabs w p = bind_io (trusted_slabs w boothost (p_slabs p)) (\<lambda>named.
      bind_io (?ask named) (\<lambda>slabs. return_io (with_data_slab p slabs)))"
    using assms(2) by (simp add: resolve_slabs_def with_data_slab_def)
  from assms(1) obtain t1 named t2 roots where n: "trusted_slabs w boothost (p_slabs p) tr = (t1, Inr named)"
      and a: "?ask named t1 = (t2, Inr roots)" and s: "slabs = with_data_slab p roots"
    unfolding res bind_Inr return_Inr by blast
  have ev: "subseq named (p_slabs p)" "list_all (\<lambda>s. is_remote s \<or> proven_slab w s) named"
    using trusted_slabs_evidence [OF n] by (simp_all add: list_all_iff)
  show ?thesis
  proof (cases "named = []")
    case True
    let ?claim = "bind_io (boot_claim w boothost tag ns (p_hostnqn p)) (\<lambda>uri.
          then_io (stamp w (''claimed root: '' @ uri)) (return_io [uri]))"
    have "then_io (stamp w (''asking '' @ boothost @ '' which image '' @ tag @ '' boots'')) ?claim t1 = (t2, Inr roots)"
      using a True by (simp only: simp_thms if_False)
    then obtain t3 where "?claim t3 = (t2, Inr roots)" unfolding then_Inr by blast
    then obtain t4 uri where c: "boot_claim w boothost tag ns (p_hostnqn p) t3 = (t4, Inr uri)"
        and u: "then_io (stamp w (''claimed root: '' @ uri)) (return_io [uri]) t4 = (t2, Inr roots)"
      unfolding bind_Inr by blast
    from u have "roots = [uri]" unfolding then_Inr return_Inr by blast
    then show ?thesis using boot_claim_Inr [OF c] s by blast
  next
    case False
    then have "roots = named" using a by (simp add: return_Inr)
    then show ?thesis using False ev s by blast
  qed
qed

definition claim_boot :: boot_params where
  "claim_boot = boot_params_default\<lparr>p_boothost := Some ''10.0.0.1'', p_tag := Some ''TAG1'',
     p_slabs := [''/dev/sda''], p_data_slab := Some ''/dev/sdb4''\<rparr>"

text \<open>A machine whose only named device is not there, and whose appliance answers.\<close>

definition claim_world :: world where
  "claim_world = demo_world\<lparr>wd_cmd := \<lambda>_. Exited True ''0'' (''nvme-tcp://10.0.0.1:4420/nqn?nsid=1'' @ [LF]),
     wd_exists := \<lambda>_ _. False\<rparr>"

lemma claim_boot_claims: "boothost_claim claim_boot = Some (''10.0.0.1'', ''TAG1'', ''boothost'')"
  by (simp add: claim_boot_def boot_params_default_def boothost_claim_def)

definition gives :: "'a io \<Rightarrow> 'a \<Rightarrow> bool" where
  "gives m v \<longleftrightarrow> (\<forall>tr. \<exists>tr'. m tr = (tr', Inr v))"

lemma gives_rules:
  "gives (return_io v) v"
  "gives m v \<Longrightarrow> gives (f v) u \<Longrightarrow> gives (bind_io m f) u"
  "smooth m' \<Longrightarrow> gives k u \<Longrightarrow> gives (then_io m' k) u"
proof -
  show "gives (return_io v) v" by (simp add: gives_def return_Inr)
  show "gives m v \<Longrightarrow> gives (f v) u \<Longrightarrow> gives (bind_io m f) u" unfolding gives_def bind_Inr by blast
  show "smooth m' \<Longrightarrow> gives k u \<Longrightarrow> gives (then_io m' k) u"
    unfolding gives_def smooth_def then_Inr by (metis prod.collapse)
qed

lemma claim_boot_resolves:
  "\<exists>tr. resolve_slabs claim_world claim_boot [] = (tr, Inr [''nvme-tcp://10.0.0.1:4420/nqn?nsid=1'', ''/dev/sdb4''])"
proof -
  let ?uri = "''nvme-tcp://10.0.0.1:4420/nqn?nsid=1''"
  have uri: "trim (?uri @ [LF]) = ?uri"
    by (simp add: trim_def trim_end_matches_def trim_start_def is_ws_def)
  have named: "gives (trusted_slabs claim_world b [''/dev/sda'']) []" for b
  proof -
    have probe: "gives (is_slab claim_world ''/dev/sda'') False"
      by (simp add: gives_def is_slab_def claim_world_def bind_io_def io_defs)
    have local: "is_remote ''/dev/sda'' = False" by (simp add: is_remote_def starts_with_def)
    have drop: "gives (then_io (stamp claim_world m) (return_io [])) []" for m
      by (intro gives_rules smooth_rules)
    show ?thesis unfolding trusted_slabs.simps local if_False
      by (rule gives_rules(2) [OF probe]) (simp only: if_False drop)
  qed
  have answer: "gives (boot_claim claim_world b t n q) ?uri" for b t n q
    using uri by (auto simp: gives_def boot_claim_def claim_world_def exec_def then_io_def bind_io_def io_defs)
  have slabs: "gives (trusted_slabs claim_world b (p_slabs claim_boot)) []" for b
    using named by (simp add: claim_boot_def)
  have asked: "gives (then_io (stamp claim_world m) (bind_io (boot_claim claim_world b t n q) (\<lambda>uri.
      then_io (stamp claim_world (''claimed root: '' @ uri)) (return_io [uri])))) [?uri]" for m b t n q
    by (rule gives_rules(3) [OF smooth_simple(1)], rule gives_rules(2) [OF answer])
      (intro gives_rules smooth_rules)
  have "gives (resolve_slabs claim_world claim_boot) (with_data_slab claim_boot [?uri])"
    unfolding resolve_slabs_def claim_boot_claims with_data_slab_def [symmetric] option.case prod.case
    by (rule gives_rules(2) [OF slabs], simp only: simp_thms if_False, rule gives_rules(2) [OF asked])
      (rule gives_rules(1))
  then show ?thesis unfolding gives_def by (simp add: with_data_slab_def claim_boot_def)
qed

theorem slabs_rest_on_evidence_witness:
  "\<exists>tr roots. resolve_slabs claim_world claim_boot [] = (tr, Inr [''nvme-tcp://10.0.0.1:4420/nqn?nsid=1'', ''/dev/sdb4''])
    \<and> [''nvme-tcp://10.0.0.1:4420/nqn?nsid=1'', ''/dev/sdb4''] = with_data_slab claim_boot roots \<and> roots \<noteq> []"
proof -
  obtain tr where r: "resolve_slabs claim_world claim_boot [] = (tr, Inr [''nvme-tcp://10.0.0.1:4420/nqn?nsid=1'', ''/dev/sdb4''])"
    using claim_boot_resolves by blast
  from slabs_rest_on_evidence [OF r claim_boot_claims] r show ?thesis by blast
qed

section \<open>Failures\<close>

lemma smooth_hold [smooth_rules]: "smooth (hold fuel why n)"
  by (induction fuel arbitrary: n) (simp_all only: hold.simps, (intro smooth_rules | assumption)+)

lemma smooth_shell_loop [smooth_rules]: "smooth (shell_loop w fuel shell)"
proof (induction fuel)
  case (Suc fuel)
  then show ?case by (simp only: shell_loop.simps) (intro smooth_rules)
qed (simp add: smooth_rules)

lemma smooth_shell [smooth_rules]: "smooth (emergency_shell w fuel)"
  unfolding emergency_shell_def by (intro smooth_rules)

lemma smoothD: "smooth m \<Longrightarrow> \<exists>tr'. m tr = (tr', Inr ())" for m :: "unit io"
  unfolding smooth_def by (cases "m tr") (metis snd_conv unit.exhaust)

lemma then_act: "then_io (act a) k tr = k (tr @ [a])"
  by (simp add: then_io_def bind_io_def act_def)

lemma then_step: "m tr = (tr', Inr x) \<Longrightarrow> then_io m k tr = k tr'"
  by (simp add: then_io_def bind_io_def)

lemma plain_shell: "plain (\<lambda>a. \<not> report_action a) (emergency_shell w fuel)"
proof -
  let ?P = "\<lambda>a. \<not> report_action a"
  have acts: "plain ?P (act (Eprint m))" "plain ?P (act (AppendLine f t))" "plain ?P (act (Sleep ms))" for m f t ms
    by (simp_all add: plain_act report_action_def)
  have ex: "plain ?P (exec w prog args env)" for prog args env
    unfolding exec_def by (intro plain_rules plain_act) (simp add: report_action_def)
  have hold: "plain ?P (hold k why n)" for k why n
    by (induction k arbitrary: n) (simp_all only: hold.simps, (intro plain_rules acts | assumption)+)
  have "plain ?P (shell_loop w k shell)" for k shell
  proof (induction k)
    case (Suc k)
    then show ?case by (simp only: shell_loop.simps) (intro plain_rules acts ex hold)
  qed (simp add: plain_basic)
  then show ?thesis unfolding emergency_shell_def by (intro plain_rules acts hold)
qed

text \<open>No step that ends the sequence returns.\<close>

lemma run_never_returns: "snd (run w p rp tr) \<noteq> Inr ()"
proof -
  have never: "snd (then_io m m' tr) \<noteq> Inr ()" if "\<And>tr. snd (m' tr) \<noteq> Inr ()" for m :: "'a io" and m' tr
    using that by (auto simp: then_io_def bind_io_def split: prod.split sum.split)
  have never_bind: "snd (bind_io m f tr) \<noteq> Inr ()" if "\<And>x tr. snd (f x tr) \<noteq> Inr ()" for m :: "'a io" and f tr
    using that by (auto simp: bind_io_def split: prod.split sum.split)
  have ex: "snd (exec_init w i tr) \<noteq> Inr ()" for i tr
    unfolding exec_init_def by (rule never_bind) (simp add: io_defs split: cmd_result.split)
  have sw: "snd (switch_root w tr) \<noteq> Inr ()" for tr
    unfolding switch_root_def
    by (intro never never_bind) (auto simp: bail_def stop_io_def split: option.split intro!: never ex)
  have "snd (enter_root w p rp plan tr) \<noteq> Inr ()" for plan tr
    unfolding enter_root_def by (intro never sw)
  then show ?thesis unfolding run_def Let_def
    by (intro never) (auto simp: io_defs split: sum.split intro!: never)
qed

lemma failed_boot_trace:
  assumes "wd_read w [] ''/proc/cmdline'' = Some cmdline"
    and "run w (boot_params_parse cmdline)
           \<lparr>rp_url = p_report_url (boot_params_parse cmdline), rp_mac = p_mac (boot_params_parse cmdline)\<rparr> []
         = (tr, Inl (BootError err))"
  shows "\<exists>rest. init_main w fuel []
      = (tr @ [Eprint (''stormnetboot-init: '' @ err), Eprint (''stormnetboot-init: cmdline was: '' @ cmdline),
               PhaseReport ''failed'' (Some err)] @ rest, Inr ())"
proof -
  let ?p = "boot_params_parse cmdline"
  let ?rp = "\<lparr>rp_url = p_report_url ?p, rp_mac = p_mac ?p\<rparr>"
  let ?told = "tr @ [Eprint (''stormnetboot-init: '' @ err), Eprint (''stormnetboot-init: cmdline was: '' @ cmdline)]"
  obtain rest where r: "reporter_phase w ?rp ''failed'' (Some err) ?told
      = (?told @ PhaseReport ''failed'' (Some err) # rest, Inr ())"
    using reporter_adds by blast
  let ?said = "?told @ PhaseReport ''failed'' (Some err) # rest"
  obtain tr2 where shell: "emergency_shell w fuel ?said = (tr2, Inr ())"
    using smoothD [OF smooth_shell] by blast
  obtain new where "tr2 = ?said @ new" by (rule addsE [OF plain_adds [OF plain_shell] shell])
  then have sh: "emergency_shell w fuel ?said = (?said @ new, Inr ())" using shell by simp
  have "init_main w fuel [] = then_io (act (Eprint (''stormnetboot-init: '' @ err)))
      (then_io (act (Eprint (''stormnetboot-init: cmdline was: '' @ cmdline)))
      (then_io (reporter_phase w ?rp ''failed'' (Some err)) (emergency_shell w fuel))) tr"
    using assms by (simp add: init_main_def Let_def del: append.simps)
  also have "\<dots> = then_io (reporter_phase w ?rp ''failed'' (Some err)) (emergency_shell w fuel) ?told"
    by (simp only: then_act append_assoc append_Cons append_Nil)
  also have "\<dots> = (?said @ new, Inr ())"
    unfolding sh [symmetric] by (rule then_step) (rule r)
  finally show ?thesis
    by (intro exI [of _ "rest @ new"]) (simp only: append_assoc append_Cons append_Nil)
qed


definition bare_world :: world where
  "bare_world = demo_world\<lparr>wd_read := \<lambda>_ path. if path = ''/proc/cmdline'' then Some [] else None\<rparr>"

lemma bare_boot_fails:
  "run bare_world (boot_params_parse []) \<lparr>rp_url = p_report_url (boot_params_parse []), rp_mac = p_mac (boot_params_parse [])\<rparr> []
    = (fst (run bare_world (boot_params_parse []) \<lparr>rp_url = p_report_url (boot_params_parse []), rp_mac = p_mac (boot_params_parse [])\<rparr> []),
       Inl (BootError (no_root_source boot_params_default)))" (is "?run = _")
proof -
  have p: "boot_params_parse [] = boot_params_default"
    by (simp add: boot_params_parse_def split_whitespace_def)
  have guard: "check_local_disk boot_params_default = Inr ()"
    by (simp add: check_local_disk_def boot_params_default_def)
  have src: "root_source bare_world boot_params_default = bail (no_root_source boot_params_default)"
    by (simp add: root_source_def is_network_boot_def nvme_uri_def boothost_claim_def boot_params_default_def)
  have bail: "stops_with (then_io (bail e) m) (BootError e)" for e and m :: "unit io"
    by (simp add: stops_with_def then_io_def bind_io_def io_defs)
  have "stops_with (run bare_world boot_params_default rp) (BootError (no_root_source boot_params_default))" for rp
    unfolding run_def guard sum.case src by (intro then_stops smooth_rules bail)
  then show ?thesis unfolding p stops_with_def by (metis prod.collapse)
qed

lemma bare_cmdline: "wd_read bare_world [] ''/proc/cmdline'' = Some []"
  by (simp add: bare_world_def)


section \<open>Exports are never fatal\<close>

text \<open>Exports never fail a boot: every volume that does not appear or does not mount is left out,
  and the sequence goes on.\<close>

theorem exports_are_never_fatal: "\<exists>new. apply_exports w plan tr = (tr @ new, Inr ())
    \<and> list_all (\<lambda>a. \<not> engine_action a \<and> \<not> report_action a) new"
proof -
  obtain tr' where r: "apply_exports w plan tr = (tr', Inr ())"
    using smoothD [OF smooth_steps(3)] by blast
  obtain new where "tr' = tr @ new" "list_all (\<lambda>a. \<not> engine_action a \<and> \<not> report_action a) new"
    using plainE [OF no_engine.plain_exports r] by metis
  then show ?thesis using r by simp
qed

end
