(* ===== verification/Flowover.thy ===== *)
theory Flowover
  imports Interfaces
begin

text \<open>
  Flow-over progress in the engine's output (\<open>crates/stormnetboot-agent/src/flowover.rs\<close>). The
  engine has no status interface, so its lines are the protocol: the lemmas give the lines the
  engine writes, as the comments of the source record them, and show that each reads back as
  the event it announces.
\<close>

section \<open>Reading a line\<close>

datatype event =
    Started string
  | Complete u64 u64
  | Aborted
  | ExtentFailed string

definition all_numbers :: "string \<Rightarrow> u64 list" where
  "all_numbers line =
     List.map_filter parse_word (filter (\<lambda>s. s \<noteq> []) (split_by (\<lambda>c. \<not> is_digit c) line))"

definition first_number :: "string \<Rightarrow> u64 option" where
  "first_number line = (case all_numbers line of [] \<Rightarrow> None | n # _ \<Rightarrow> Some n)"

definition get_or_zero :: "nat \<Rightarrow> u64 list \<Rightarrow> u64" where
  "get_or_zero i ns = (if i < length ns then ns ! i else 0)"

definition disk_of :: "string \<Rightarrow> string" where
  "disk_of rest =
     (case split_str '' on '' rest of
        _ # s # _ \<Rightarrow> trim (hd (split_str '' in background'' s))
      | _ \<Rightarrow> [])"

definition parse_line :: "string \<Rightarrow> event option" where
  "parse_line line0 =
     (let line = trim line0
      in case strip_prefix ''Flow-over: migrating to local slab'' line of
           Some rest \<Rightarrow> Some (Started (disk_of rest))
         | None \<Rightarrow>
             if starts_with ''Flow-over complete:'' line
             then Some (Complete (case first_number line of Some n \<Rightarrow> n | None \<Rightarrow> 0) 0)
             else if starts_with ''flow-over complete:'' line
             then Some (Complete (get_or_zero 0 (all_numbers line)) (get_or_zero 1 (all_numbers line)))
             else if starts_with ''flow-over: aborting'' line then Some Aborted
             else (case strip_prefix ''flow-over: extent '' line of
                     Some detail \<Rightarrow> Some (ExtentFailed (trim detail))
                   | None \<Rightarrow> None))"

section \<open>The engine's lines\<close>

definition started_line :: "string \<Rightarrow> string \<Rightarrow> string" where
  "started_line slab disk = ''Flow-over: migrating to local slab '' @ slab @ '' on '' @ disk @ '' in background''"

definition local_line :: "u64 \<Rightarrow> string" where
  "local_line moved = ''Flow-over complete: '' @ show_word moved @ '' extent(s) now on local disk''"

definition migrated_line :: "u64 \<Rightarrow> u64 \<Rightarrow> string" where
  "migrated_line moved failed =
     ''flow-over complete: '' @ show_word moved @ '' extent(s) migrated, '' @ show_word failed @ '' failed''"

lemma numbers_skip: "list_all (\<lambda>c. \<not> is_digit c) s \<Longrightarrow> all_numbers (s @ t) = all_numbers t"
  by (induction s) (simp_all add: all_numbers_def)

lemma numbers_none: "list_all (\<lambda>c. \<not> is_digit c) s \<Longrightarrow> all_numbers s = []"
  using numbers_skip [of s "[]"] by (simp add: all_numbers_def map_filter_def)

lemma numbers_word:
  assumes "\<not> is_digit c"
  shows "all_numbers (show_word n @ c # t) = n # all_numbers t"
proof -
  have d: "\<forall>x \<in> set (show_word n). \<not> \<not> is_digit x" using show_nat_digits by (auto simp: show_word_def)
  have ne: "show_word n \<noteq> []" by (simp add: show_word_def)
  have "split_by (\<lambda>c. \<not> is_digit c) (show_word n @ c # t) = show_word n # split_by (\<lambda>c. \<not> is_digit c) t"
    by (rule split_by_append) (use d assms in auto)
  then show ?thesis using ne by (simp add: all_numbers_def map_filter_simps)
qed

lemma trim_framed: "\<not> is_ws (hd a) \<Longrightarrow> a \<noteq> [] \<Longrightarrow> \<not> is_ws (last b) \<Longrightarrow> b \<noteq> [] \<Longrightarrow> trim (a @ s @ b) = a @ s @ b"
  by (intro trim_id) auto

lemma migrated_numbers: "all_numbers (migrated_line moved failed) = [moved, failed]"
proof -
  have "all_numbers (migrated_line moved failed)
      = all_numbers (show_word moved @ CHR '' '' # (''extent(s) migrated, '' @ show_word failed @ CHR '' '' # ''failed''))"
    using numbers_skip [of "''flow-over complete: ''"] by (simp add: migrated_line_def is_digit_def)
  also have "\<dots> = moved # all_numbers (show_word failed @ CHR '' '' # ''failed'')"
    using numbers_skip [of "''extent(s) migrated, ''"] by (simp add: numbers_word is_digit_def)
  also have "\<dots> = [moved, failed]"
    using numbers_none [of "''failed''"] by (simp add: numbers_word is_digit_def)
  finally show ?thesis .
qed

lemma local_numbers: "all_numbers (local_line moved) = [moved]"
proof -
  have "all_numbers (local_line moved) = all_numbers (show_word moved @ CHR '' '' # ''extent(s) now on local disk'')"
    using numbers_skip [of "''Flow-over complete: ''"] by (simp add: local_line_def is_digit_def)
  then show ?thesis
    using numbers_none [of "''extent(s) now on local disk''"] by (simp add: numbers_word is_digit_def)
qed

lemma split_once_skip:
  "c \<notin> set s \<Longrightarrow> split_once_str (c # pat) (s @ t) = map_option (\<lambda>(a, b). (s @ a, b)) (split_once_str (c # pat) t)"
proof (induction s)
  case (Cons a s)
  then show ?case by (cases "split_once_str (c # pat) t") (auto simp: starts_with_def)
qed (cases "split_once_str (c # pat) t", auto)

lemma split_once_absent: "c \<notin> set s \<Longrightarrow> split_once_str (c # pat) s = None"
  by (induction s) (auto simp: starts_with_def)

definition no_space :: "string \<Rightarrow> bool" where
  "no_space s \<longleftrightarrow> s \<noteq> [] \<and> list_all (\<lambda>c. \<not> is_ws c) s"

lemma no_space_facts: "no_space s \<Longrightarrow> CHR '' '' \<notin> set s \<and> \<not> is_ws (hd s) \<and> \<not> is_ws (last s) \<and> s \<noteq> []"
  by (auto simp: no_space_def list_all_iff)

lemma on_at_slab:
  assumes "no_space slab" "slab \<noteq> ''on''"
  shows "\<not> starts_with '' on '' (CHR '' '' # slab @ CHR '' '' # t)"
proof
  assume "starts_with '' on '' (CHR '' '' # slab @ CHR '' '' # t)"
  then have t: "take 3 (slab @ CHR '' '' # t) = ''on ''" by (simp add: starts_with_def numeral_eq_Suc)
  have sp: "CHR '' '' \<notin> set slab" "slab \<noteq> []" using no_space_facts [OF assms(1)] by auto
  from t sp assms(2) show False
    by (cases slab; cases "tl slab"; cases "tl (tl slab)") (auto simp: numeral_eq_Suc)
qed

lemma disk_of_line:
  assumes "no_space slab" "slab \<noteq> ''on''" "no_space disk"
  shows "disk_of ('' '' @ slab @ '' on '' @ disk @ '' in background'') = disk"
proof -
  let ?rest = "'' '' @ slab @ '' on '' @ disk @ '' in background''"
  note f = no_space_facts [OF assms(1)] no_space_facts [OF assms(3)]
  have "split_once_str '' on '' (slab @ '' on '' @ disk @ '' in background'') = Some (slab, disk @ '' in background'')"
    using f split_once_skip [of "CHR '' ''" slab "''on ''" "'' on '' @ disk @ '' in background''"]
    by (simp add: starts_with_def)
  then have one: "split_once_str '' on '' ?rest = Some ('' '' @ slab, disk @ '' in background'')"
    using on_at_slab [OF assms(1,2), of "''on '' @ disk @ '' in background''"] by simp
  have two: "split_once_str '' on '' (disk @ '' in background'') = None"
    using f split_once_skip [of "CHR '' ''" disk "''on ''" "'' in background''"] by (simp add: starts_with_def)
  have three: "split_once_str '' in background'' (disk @ '' in background'') = Some (disk, [])"
    using f split_once_skip [of "CHR '' ''" disk "''in background''" "'' in background''"] by (simp add: starts_with_def)
  have "split_str '' on '' ?rest = ['' '' @ slab, disk @ '' in background'']"
    using one two by (simp add: split_str.simps [of "'' on ''"])
  moreover have "hd (split_str '' in background'' (disk @ '' in background'')) = disk"
    using three by (simp add: split_str.simps [of "'' in background''"])
  moreover have "trim disk = disk" by (rule trim_id) (use f in auto)
  ultimately show ?thesis by (simp add: disk_of_def)
qed

text \<open>A line as it is read, with its line feed.\<close>

lemma trim_snoc: "is_ws c \<Longrightarrow> s \<noteq> [] \<Longrightarrow> \<not> is_ws (hd s) \<Longrightarrow> \<not> is_ws (last s) \<Longrightarrow> trim (s @ [c]) = s"
proof -
  assume s: "is_ws c" "s \<noteq> []" "\<not> is_ws (hd s)" "\<not> is_ws (last s)"
  have "trim_start (s @ [c]) = s @ [c]" using s by (cases s) (simp_all add: trim_start_def)
  moreover have "trim_end_matches is_ws (s @ [c]) = trim_end_matches is_ws s"
    using s by (simp add: trim_end_matches_def)
  ultimately show ?thesis using s by (simp add: trim_def trim_end_matches_id)
qed

lemma parse_line_snoc:
  "is_ws c \<Longrightarrow> s \<noteq> [] \<Longrightarrow> \<not> is_ws (hd s) \<Longrightarrow> \<not> is_ws (last s) \<Longrightarrow> parse_line (s @ [c]) = parse_line s"
  by (simp add: parse_line_def trim_snoc trim_id)

lemma parse_migrated: "parse_line (migrated_line moved failed) = Some (Complete moved failed)"
proof -
  have "trim (migrated_line moved failed) = migrated_line moved failed"
    by (rule trim_id) (simp add: migrated_line_def is_ws_def)
  moreover have "strip_prefix ''Flow-over: migrating to local slab'' (migrated_line moved failed) = None"
    "\<not> starts_with ''Flow-over complete:'' (migrated_line moved failed)"
    "starts_with ''flow-over complete:'' (migrated_line moved failed)"
    by (simp_all add: migrated_line_def strip_prefix_def starts_with_def)
  ultimately show ?thesis
    by (simp only: parse_line_def Let_def migrated_numbers option.case if_True if_False)
      (simp add: get_or_zero_def)
qed

lemma parse_local: "parse_line (local_line moved) = Some (Complete moved 0)"
proof -
  have "trim (local_line moved) = local_line moved"
    by (rule trim_id) (simp add: local_line_def is_ws_def)
  moreover have "strip_prefix ''Flow-over: migrating to local slab'' (local_line moved) = None"
    "starts_with ''Flow-over complete:'' (local_line moved)"
    by (simp_all add: local_line_def strip_prefix_def starts_with_def)
  ultimately show ?thesis
    by (simp only: parse_line_def Let_def first_number_def local_numbers option.case list.case if_True)
qed

lemma parse_migrated_LF: "parse_line (migrated_line moved failed @ [LF]) = Some (Complete moved failed)"
proof -
  have "parse_line (migrated_line moved failed @ [LF]) = parse_line (migrated_line moved failed)"
    by (rule parse_line_snoc) (simp_all add: migrated_line_def is_ws_def)
  then show ?thesis by (simp add: parse_migrated)
qed

text \<open>The engine's two completion lines read back to the numbers they carry, whatever the numbers:
  the extents moved and, where the line has it, the extents that failed.\<close>

theorem completions_read_back:
  "parse_line (local_line moved @ [LF]) = Some (Complete moved 0)
   \<and> parse_line (migrated_line moved failed @ [LF]) = Some (Complete moved failed)"
proof -
  have "parse_line (local_line moved @ [LF]) = parse_line (local_line moved)"
    by (rule parse_line_snoc) (simp_all add: local_line_def is_ws_def)
  then show ?thesis by (simp add: parse_local parse_migrated_LF)
qed

lemma started_reads_back:
  assumes "no_space slab" "slab \<noteq> ''on''" "no_space disk"
  shows "parse_line (started_line slab disk @ [LF]) = Some (Started disk)"
proof -
  have "strip_prefix ''Flow-over: migrating to local slab'' (started_line slab disk)
      = Some ('' '' @ slab @ '' on '' @ disk @ '' in background'')"
    by (simp add: started_line_def strip_prefix_def starts_with_def)
  moreover have "trim (started_line slab disk) = started_line slab disk"
    by (rule trim_id) (simp add: started_line_def is_ws_def)
  moreover have "parse_line (started_line slab disk @ [LF]) = parse_line (started_line slab disk)"
    by (rule parse_line_snoc) (simp_all add: started_line_def is_ws_def)
  ultimately show ?thesis
    by (simp only: parse_line_def Let_def option.case disk_of_line [OF assms])
qed

text \<open>The number of failures is lost when the count of extents is not a number of 64 bits: the one that
  is left is read as the count.\<close>

lemma oversized_count_hides_failures:
  "parse_line ''flow-over complete: 99999999999999999999 extent(s) migrated, 3 failed'' = Some (Complete 3 0)"
proof -
  have big: "parse_word ''99999999999999999999'' = (None :: u64 option)"
    by (simp add: parse_word_def parse_uint_def is_digit_def)
  have three: "parse_word ''3'' = Some (3 :: u64)"
    by (simp add: parse_word_def parse_uint_def is_digit_def)
  show ?thesis
    by (simp add: parse_line_def Let_def trim_id is_ws_def strip_prefix_def starts_with_def all_numbers_def
        is_digit_def map_filter_simps big three get_or_zero_def)
qed

end
