(* ===== verification/Node_Inventory.thy ===== *)
theory Node_Inventory
  imports Interfaces
begin

text \<open>
  What a running node says of its own hardware (\<open>crates/stormnetboot-agent/src/inventory.rs\<close>). The
  files of \<open>/proc\<close> and \<open>/sys\<close> are an argument. The lemmas show which strings can become a
  product, a serial number or an address, which devices count as disks, and when the address
  of the node is found.
\<close>

record machine =
  mc_read :: "string \<Rightarrow> string option"
  mc_list :: "string \<Rightarrow> string list option"
  mc_exists :: "string \<Rightarrow> bool"

record node_inventory =
  ni_cpus :: nat
  ni_memory_kb :: u64
  ni_product :: "string option"
  ni_serial :: "string option"
  ni_disks :: "string list"

section \<open>The readers\<close>

definition count_cpus :: "machine \<Rightarrow> nat" where
  "count_cpus mc =
     (case mc_read mc ''/proc/cpuinfo'' of
        Some s \<Rightarrow> length (filter (starts_with ''processor'') (lines s))
      | None \<Rightarrow> 0)"

definition total_memory_kb :: "machine \<Rightarrow> u64" where
  "total_memory_kb mc =
     (case Option.bind (mc_read mc ''/proc/meminfo'') (\<lambda>s.
             Option.bind (List.find (starts_with ''MemTotal:'') (lines s)) (\<lambda>l.
             Option.bind (nth_opt 1 (split_whitespace l)) parse_word)) of
        Some n \<Rightarrow> n
      | None \<Rightarrow> 0)"

definition PLACEHOLDERS :: "string list" where
  "PLACEHOLDERS = [''To Be Filled By O.E.M.'', ''System Serial Number'', ''Default string'',
     ''Not Specified'', ''None'']"

definition same_ignoring_case :: "string \<Rightarrow> string \<Rightarrow> bool" where
  "same_ignoring_case a b \<longleftrightarrow> lowercase a = lowercase b"

definition dmi :: "machine \<Rightarrow> string \<Rightarrow> string option" where
  "dmi mc field =
     (case mc_read mc (''/sys/class/dmi/id/'' @ field) of
        None \<Rightarrow> None
      | Some v \<Rightarrow>
          (let v' = trim v
           in if v' = [] \<or> list_ex (\<lambda>p. same_ignoring_case p v') PLACEHOLDERS then None else Some v'))"

definition is_disk :: "string \<Rightarrow> bool" where
  "is_disk name \<longleftrightarrow> \<not> starts_with ''loop'' name \<and> \<not> starts_with ''ram'' name \<and> \<not> starts_with ''zram'' name
     \<and> \<not> starts_with ''ublk'' name \<and> \<not> starts_with ''dm-'' name"

definition block_devices :: "machine \<Rightarrow> string list" where
  "block_devices mc =
     (case mc_list mc ''/sys/block'' of None \<Rightarrow> [] | Some names \<Rightarrow> sort (filter is_disk names))"

definition collect_node :: "machine \<Rightarrow> node_inventory" where
  "collect_node mc =
     \<lparr>ni_cpus = count_cpus mc, ni_memory_kb = total_memory_kb mc, ni_product = dmi mc ''product_name'',
      ni_serial = dmi mc ''product_serial'', ni_disks = block_devices mc\<rparr>"

definition summary_parts :: "node_inventory \<Rightarrow> string list" where
  "summary_parts ni =
     (if ni_cpus ni > 0 then [show_nat (ni_cpus ni) @ '' cpu''] else [])
     @ (if ni_memory_kb ni > 0 then [show_word (ni_memory_kb ni div 1024 div 1024) @ '' GiB''] else [])
     @ (if ni_disks ni \<noteq> [] then [show_nat (length (ni_disks ni)) @ '' disk(s)''] else [])
     @ (case ni_product ni of Some p \<Rightarrow> [p] | None \<Rightarrow> [])"

definition summary :: "node_inventory \<Rightarrow> string" where
  "summary ni =
     (if summary_parts ni = [] then ''inventory unavailable'' else join '', '' (summary_parts ni))"

section \<open>The node's address\<close>

definition read_mac :: "machine \<Rightarrow> string \<Rightarrow> string option" where
  "read_mac mc iface =
     (let path = ''/sys/class/net/'' @ iface @ ''/address''
      in if \<not> mc_exists mc path then None
         else (case mc_read mc path of
                 None \<Rightarrow> None
               | Some t \<Rightarrow>
                   (let mac = lowercase (trim t)
                    in if mac \<noteq> [] \<and> mac \<noteq> ''00:00:00:00:00:00'' then Some mac else None)))"

definition default_route :: "string \<Rightarrow> string option" where
  "default_route line =
     (case split_whitespace line of
        iface # destination # _ \<Rightarrow> if destination = ''00000000'' then Some iface else None
      | _ \<Rightarrow> None)"

definition fallback_mac :: "machine \<Rightarrow> string option" where
  "fallback_mac mc =
     (case mc_list mc ''/sys/class/net'' of
        None \<Rightarrow> None
      | Some names \<Rightarrow> first_some (read_mac mc) (sort (filter (\<lambda>n. n \<noteq> ''lo'') names)))"

definition primary_mac :: "machine \<Rightarrow> string option" where
  "primary_mac mc =
     (case mc_read mc ''/proc/net/route'' of
        None \<Rightarrow> None
      | Some route \<Rightarrow>
          (case first_some default_route (drop 1 (lines route)) of
             None \<Rightarrow> None
           | Some iface \<Rightarrow>
               (case read_mac mc iface of Some mac \<Rightarrow> Some mac | None \<Rightarrow> fallback_mac mc)))"

section \<open>What they return\<close>

definition usable_mac :: "string \<Rightarrow> bool" where
  "usable_mac mac \<longleftrightarrow> mac \<noteq> [] \<and> mac \<noteq> ''00:00:00:00:00:00'' \<and> lowercase mac = mac"

lemma read_mac_usable: "read_mac mc iface = Some mac \<Longrightarrow> usable_mac mac"
  by (auto simp: read_mac_def usable_mac_def Let_def split: option.splits if_splits)

lemma primary_mac_usable: "primary_mac mc = Some mac \<Longrightarrow> usable_mac mac"
  by (auto simp: primary_mac_def fallback_mac_def dest!: first_some_Some intro: read_mac_usable
      split: option.splits)

text \<open>A machine that has an interface with an address, and a routing table without a default route.\<close>

definition routeless :: machine where
  "routeless =
     \<lparr>mc_read = (\<lambda>path. if path = ''/proc/net/route'' then Some (''Iface Destination'' @ [LF])
                    else if path = ''/sys/class/net/eth0/address'' then Some (''52:54:00:12:34:56'' @ [LF])
                    else None),
      mc_list = (\<lambda>path. if path = ''/sys/class/net'' then Some [''eth0'', ''lo''] else None),
      mc_exists = (\<lambda>path. path = ''/sys/class/net/eth0/address'')\<rparr>"

text \<open>The fallback meant for a machine without a default route is not reached by one: without a
  default route no address is found, although the fallback would find one.\<close>

theorem no_route_no_address:
  "primary_mac routeless = None \<and> fallback_mac routeless = Some ''52:54:00:12:34:56''"
proof -
  have "trim (''52:54:00:12:34:56'' @ [LF]) = ''52:54:00:12:34:56''"
    by (simp add: trim_def trim_end_matches_def trim_start_def is_ws_def)
  then have "fallback_mac routeless = Some ''52:54:00:12:34:56''"
    by (simp add: fallback_mac_def routeless_def read_mac_def Let_def lowercase_def lower_def)
  moreover have "primary_mac routeless = None"
    by (simp add: primary_mac_def routeless_def lines_def Let_def strip_cr_def)
  ultimately show ?thesis by simp
qed

lemma dmi_real: "dmi mc field = Some v \<Longrightarrow> v \<noteq> [] \<and> trim v = v \<and> \<not> list_ex (\<lambda>p. same_ignoring_case p v) PLACEHOLDERS"
  by (auto simp: dmi_def Let_def split: option.splits if_splits)

lemma block_devices_real: "sorted (block_devices mc) \<and> list_all is_disk (block_devices mc)"
  by (auto simp: block_devices_def list_all_iff split: option.split)


end
