(* ===== verification/Agent.thy ===== *)
theory Agent
  imports Flowover Node_Inventory
begin

text \<open>
  The node agent (\<open>crates/stormnetboot-agent/src/main.rs\<close>): its reports, its HTTP request and the
  following of the engine's log. The log reaches the reader in pieces, each being what was
  there between two ends of file; \<open>read_line\<close> hands over the lines of a piece, the last of which
  need not be whole. The JSON writer and the network are arguments. The lemmas show when the
  node is declared local, that pieces made of whole lines change nothing, and what is lost when
  a line is cut.
\<close>

section \<open>Reports\<close>

datatype json = JString string | JNumber nat | JStrings "string list"

record agent_reporter =
  ag_url :: string
  ag_mac :: string

record agent_net =
  an_json :: "(string \<times> json) list \<Rightarrow> string"
  an_exchange :: "string \<Rightarrow> string \<Rightarrow> string option"

datatype agent_error = OnlyHttp | CannotConnect string | NoStatusLine | ServerReturned u16

definition parse_status :: "string \<Rightarrow> u16 option" where
  "parse_status response =
     (case lines response of
        [] \<Rightarrow> None
      | l # _ \<Rightarrow> Option.bind (nth_opt 1 (split_whitespace l)) parse_word)"

definition post_target :: "string \<Rightarrow> string \<times> string" where
  "post_target rest =
     (case split_once (CHR ''/'') rest of
        Some (authority, path) \<Rightarrow> (authority, CHR ''/'' # path)
      | None \<Rightarrow> (rest, ''/''))"

definition connect_address :: "string \<Rightarrow> string" where
  "connect_address authority = (if CHR '':'' \<in> set authority then authority else authority @ '':80'')"

definition post_text :: "string \<Rightarrow> string \<Rightarrow> string \<Rightarrow> string" where
  "post_text path authority body =
     ''POST '' @ path @ '' HTTP/1.1'' @ [CR, LF] @ ''Host: '' @ authority @ [CR, LF]
     @ ''Content-Type: application/json'' @ [CR, LF]
     @ ''Content-Length: '' @ show_nat (length body) @ [CR, LF] @ ''Connection: close'' @ [CR, LF, CR, LF] @ body"

definition ureq_post :: "agent_net \<Rightarrow> string \<Rightarrow> string \<Rightarrow> agent_error + u16" where
  "ureq_post net url body =
     (case strip_prefix ''http://'' url of
        None \<Rightarrow> Inl OnlyHttp
      | Some rest \<Rightarrow>
          (let (authority, path) = post_target rest
           in case an_exchange net (connect_address authority) (post_text path authority body) of
                None \<Rightarrow> Inl (CannotConnect (connect_address authority))
              | Some response \<Rightarrow>
                  (case parse_status response of None \<Rightarrow> Inl NoStatusLine | Some st \<Rightarrow> Inr st)))"

definition agent_post :: "agent_net \<Rightarrow> agent_reporter \<Rightarrow> string \<Rightarrow> string \<Rightarrow> agent_error + u16" where
  "agent_post net ag path body = ureq_post net (ag_url ag @ path) body"

definition is_success :: "u16 \<Rightarrow> bool" where
  "is_success st \<longleftrightarrow> 200 \<le> st \<and> st < 300"

definition report_fields :: "agent_reporter \<Rightarrow> string \<Rightarrow> string option \<Rightarrow> (string \<times> json) list" where
  "report_fields ag phase detail =
     [(''mac'', JString (ag_mac ag)), (''phase'', JString phase)]
     @ (case detail of Some d \<Rightarrow> [(''detail'', JString d)] | None \<Rightarrow> [])"

definition try_report :: "agent_net \<Rightarrow> agent_reporter \<Rightarrow> string \<Rightarrow> string option \<Rightarrow> agent_error + unit" where
  "try_report net ag phase detail =
     (case agent_post net ag ''/api/v1/report'' (an_json net (report_fields ag phase detail)) of
        Inl e \<Rightarrow> Inl e
      | Inr st \<Rightarrow> if is_success st then Inr () else Inl (ServerReturned st))"

text \<open>A report that fails is told on the console and nothing more.\<close>

definition agent_report :: "agent_net \<Rightarrow> agent_reporter \<Rightarrow> string \<Rightarrow> string option \<Rightarrow> agent_error option" where
  "agent_report net ag phase detail = (case try_report net ag phase detail of Inl e \<Rightarrow> Some e | Inr _ \<Rightarrow> None)"

definition opt_json :: "string \<Rightarrow> string option \<Rightarrow> (string \<times> json) list" where
  "opt_json key v = (case v of Some s \<Rightarrow> [(key, JString s)] | None \<Rightarrow> [])"

definition inventory_fields :: "agent_reporter \<Rightarrow> node_inventory \<Rightarrow> (string \<times> json) list" where
  "inventory_fields ag ni =
     [(''mac'', JString (ag_mac ag)), (''cpus'', JNumber (ni_cpus ni)),
      (''memory_kb'', JNumber (unat (ni_memory_kb ni))), (''disks'', JStrings (ni_disks ni))]
     @ opt_json ''product'' (ni_product ni) @ opt_json ''serial'' (ni_serial ni)"

definition report_inventory :: "agent_net \<Rightarrow> agent_reporter \<Rightarrow> node_inventory \<Rightarrow> agent_error + unit" where
  "report_inventory net ag ni =
     (case agent_post net ag ''/api/v1/inventory'' (an_json net (inventory_fields ag ni)) of
        Inl e \<Rightarrow> Inl e
      | Inr st \<Rightarrow> if is_success st then Inr () else Inl (ServerReturned st))"

section \<open>Following the engine\<close>

text \<open>What \<open>read_line\<close> returns from a piece of the log: lines with their line feed, and the rest.\<close>

fun read_lines :: "string \<Rightarrow> string list" where
  "read_lines [] = []"
| "read_lines (c # s) =
     (if c = LF then [c] # read_lines s
      else (case read_lines s of [] \<Rightarrow> [[c]] | l # ls \<Rightarrow> (c # l) # ls))"

type_synonym said = "string \<times> string"

definition moved_detail :: "u64 \<Rightarrow> u64 \<Rightarrow> string" where
  "moved_detail moved failed = show_word moved @ '' extent(s) local, '' @ show_word failed @ '' failed''"

text \<open>The reports made of the lines read, and whether following has ended.\<close>

fun follow_lines :: "string list \<Rightarrow> u32 \<Rightarrow> said list \<times> bool" where
  "follow_lines [] n = ([], False)"
| "follow_lines (line # rest) n =
     (case parse_line line of
        None \<Rightarrow> follow_lines rest n
      | Some (Started disk) \<Rightarrow>
          (let (rs, ended) = follow_lines rest n
           in ((''assimilating'', ''flow-over onto '' @ disk) # rs, ended))
      | Some (Complete moved failed) \<Rightarrow>
          ([(if failed > 0 then ''assimilating'' else ''local'', moved_detail moved failed)], True)
      | Some Aborted \<Rightarrow> ([(''failed'', ''flow-over aborted after repeated failures'')], True)
      | Some (ExtentFailed detail) \<Rightarrow>
          (let (rs, ended) = follow_lines rest (n + 1)
           in ((if (n + 1) mod 4 = 0
                then [(''assimilating'', show_word (n + 1) @ '' extent failures: '' @ detail)] else []) @ rs, ended)))"

definition follow_engine_log :: "string list \<Rightarrow> said list \<times> bool" where
  "follow_engine_log pieces = follow_lines (concat (map read_lines pieces)) 0"

section \<open>The agent\<close>

record agent_args =
  aa_report_url :: string
  aa_mac :: "string option"
  aa_engine_log :: "string option"
  aa_once :: bool

text \<open>How the agent ends, as far as it is watched: at once, after the log, or not at all.\<close>

datatype agent_end = CannotTellMac | Finished | CannotOpen string | Following | Idling

definition agent_main :: "machine \<Rightarrow> (string \<Rightarrow> string list option) \<Rightarrow> agent_args \<Rightarrow>
    agent_reporter option \<times> said list \<times> agent_end" where
  "agent_main mc open_log args =
     (case (case aa_mac args of Some mac \<Rightarrow> Some mac | None \<Rightarrow> primary_mac mc) of
        None \<Rightarrow> (None, [], CannotTellMac)
      | Some mac \<Rightarrow>
          (let ag = \<lparr>ag_url = trim_end_matches (\<lambda>c. c = CHR ''/'') (aa_report_url args), ag_mac = mac\<rparr>;
               running = (''running'', summary (collect_node mc))
           in if aa_once args then (Some ag, [running], Finished)
              else (case aa_engine_log args of
                      None \<Rightarrow> (Some ag, [running], Idling)
                    | Some path \<Rightarrow>
                        (case open_log path of
                           None \<Rightarrow> (Some ag, [running], CannotOpen path)
                         | Some pieces \<Rightarrow>
                             (let (rs, ended) = follow_engine_log pieces
                              in (Some ag, running # rs, if ended then Finished else Following))))))"

section \<open>Pieces and lines\<close>

lemma read_lines_concat: "concat (read_lines s) = s"
  by (induction s) (auto split: list.splits)

lemma read_lines_append: "s \<noteq> [] \<Longrightarrow> last s = LF \<Longrightarrow> read_lines (s @ t) = read_lines s @ read_lines t"
proof (induction s)
  case (Cons c s)
  show ?case
  proof (cases "s = []")
    case False
    then have "read_lines (s @ t) = read_lines s @ read_lines t" using Cons by simp
    moreover have "read_lines s \<noteq> []" using False read_lines_concat [of s] by auto
    ultimately show ?thesis by (cases "read_lines s") auto
  qed (use Cons.prems in simp)
qed simp

definition whole_lines :: "string \<Rightarrow> bool" where
  "whole_lines s \<longleftrightarrow> s = [] \<or> last s = LF"

lemma read_lines_whole: "list_all whole_lines pieces \<Longrightarrow> concat (map read_lines pieces) = read_lines (concat pieces)"
proof (induction pieces)
  case (Cons p ps)
  then show ?case by (cases "p = []") (auto simp: whole_lines_def read_lines_append)
qed simp



lemma read_lines_line: "LF \<notin> set s \<Longrightarrow> read_lines (s @ [LF]) = [s @ [LF]]"
  by (induction s) auto

lemma read_lines_part: "LF \<notin> set s \<Longrightarrow> s \<noteq> [] \<Longrightarrow> read_lines s = [s]"
proof (induction s)
  case (Cons c s)
  then show ?case by (cases "s = []") auto
qed simp

lemma LF_not_in_number: "LF \<notin> set (show_word n)"
proof
  assume "LF \<in> set (show_word n)"
  then have "is_digit LF" using show_nat_digits by (simp add: show_word_def)
  then show False by (simp add: is_digit_def)
qed

text \<open>The first part of a completion line.\<close>

definition migrated_part :: "u64 \<Rightarrow> string" where
  "migrated_part moved = ''flow-over complete: '' @ show_word moved @ '' extent(s) migrated,''"

lemma parse_part: "parse_line (migrated_part moved @ '' '') = Some (Complete moved 0)"
proof -
  have "parse_line (migrated_part moved @ '' '') = parse_line (migrated_part moved)"
    by (rule parse_line_snoc) (simp_all add: migrated_part_def is_ws_def)
  moreover have "trim (migrated_part moved) = migrated_part moved"
    by (rule trim_id) (simp add: migrated_part_def is_ws_def)
  moreover have "all_numbers (migrated_part moved) = [moved]"
  proof -
    have "all_numbers (migrated_part moved) = all_numbers (show_word moved @ CHR '' '' # ''extent(s) migrated,'')"
      using numbers_skip [of "''flow-over complete: ''"] by (simp add: migrated_part_def is_digit_def)
    then show ?thesis
      using numbers_none [of "''extent(s) migrated,''"] by (simp add: numbers_word is_digit_def)
  qed
  moreover have "strip_prefix ''Flow-over: migrating to local slab'' (migrated_part moved) = None"
    "\<not> starts_with ''Flow-over complete:'' (migrated_part moved)"
    "starts_with ''flow-over complete:'' (migrated_part moved)"
    by (simp_all add: migrated_part_def strip_prefix_def starts_with_def)
  ultimately show ?thesis
    by (simp only: parse_line_def Let_def option.case if_True if_False) (simp add: get_or_zero_def)
qed

text \<open>A completion line that is written in two parts, with an end of file met between them, is not
  put together: however many extents failed, none is seen, and the node is declared local.\<close>

theorem cut_line_hides_failures:
  "migrated_line moved failed = migrated_part moved @ '' '' @ show_word failed @ '' failed''
   \<and> follow_engine_log [migrated_line moved failed @ [LF]]
       = ([(if failed > 0 then ''assimilating'' else ''local'', moved_detail moved failed)], True)
   \<and> follow_engine_log [migrated_part moved @ '' '', show_word failed @ '' failed'' @ [LF]]
       = ([(''local'', moved_detail moved 0)], True)"
proof -
  have "LF \<notin> set (migrated_line moved failed)" "LF \<notin> set (migrated_part moved @ '' '')"
    by (simp_all add: migrated_line_def migrated_part_def LF_not_in_number)
  then have r: "read_lines (migrated_line moved failed @ [LF]) = [migrated_line moved failed @ [LF]]"
    "read_lines (migrated_part moved @ '' '') = [migrated_part moved @ '' '']"
    using read_lines_line read_lines_part [of "migrated_part moved @ '' ''"] by simp_all
  have "migrated_line moved failed = migrated_part moved @ '' '' @ show_word failed @ '' failed''"
    by (simp add: migrated_line_def migrated_part_def)
  moreover have "follow_engine_log [migrated_line moved failed @ [LF]]
       = ([(if failed > 0 then ''assimilating'' else ''local'', moved_detail moved failed)], True)"
    using parse_migrated_LF [of moved failed] by (simp add: follow_engine_log_def r)
  moreover have "follow_engine_log [migrated_part moved @ '' '', show_word failed @ '' failed'' @ [LF]]
       = ([(''local'', moved_detail moved 0)], True)"
    using parse_part [of moved] r(2) by (simp add: follow_engine_log_def)
  ultimately show ?thesis by simp
qed

section \<open>What the log amounts to\<close>

text \<open>The last word of a line, if it is one.\<close>

definition verdict :: "string \<Rightarrow> said option" where
  "verdict line =
     (case parse_line line of
        Some (Complete moved failed) \<Rightarrow>
          Some (if failed > 0 then ''assimilating'' else ''local'', moved_detail moved failed)
      | Some Aborted \<Rightarrow> Some (''failed'', ''flow-over aborted after repeated failures'')
      | _ \<Rightarrow> None)"

text \<open>What is reported before the verdict only says that the node is assimilating.\<close>

lemma verdict_decides:
  "\<exists>before. list_all (\<lambda>r. fst r = ''assimilating'') before
     \<and> follow_lines ls n =
         (case first_some verdict ls of Some r \<Rightarrow> (before @ [r], True) | None \<Rightarrow> (before, False))"
proof (induction ls arbitrary: n)
  case (Cons l ls)
  show ?case
  proof (cases "parse_line l")
    case None
    then show ?thesis using Cons.IH [of n] by (simp add: verdict_def)
  next
    case (Some e)
    show ?thesis
    proof (cases e)
      case (Started disk)
      obtain b where "list_all (\<lambda>r. fst r = ''assimilating'') b" "follow_lines ls n =
         (case first_some verdict ls of Some r \<Rightarrow> (b @ [r], True) | None \<Rightarrow> (b, False))"
        using Cons.IH by blast
      moreover have "verdict l = None" using Some Started by (simp add: verdict_def)
      ultimately show ?thesis using Some Started
        by (intro exI [of _ "(''assimilating'', ''flow-over onto '' @ disk) # b"])
          (cases "first_some verdict ls"; simp)
    next
      case (ExtentFailed detail)
      define said where "said = (if (n + 1) mod 4 = 0
        then [(''assimilating'', show_word (n + 1) @ '' extent failures: '' @ detail)] else [])"
      obtain b where "list_all (\<lambda>r. fst r = ''assimilating'') b" "follow_lines ls (n + 1) =
         (case first_some verdict ls of Some r \<Rightarrow> (b @ [r], True) | None \<Rightarrow> (b, False))"
        using Cons.IH by blast
      moreover have "verdict l = None" using Some ExtentFailed by (simp add: verdict_def)
      moreover have "list_all (\<lambda>r. fst r = ''assimilating'') said" by (simp add: said_def)
      ultimately show ?thesis using Some ExtentFailed
        by (intro exI [of _ "said @ b"]) (cases "first_some verdict ls"; simp add: said_def [symmetric])
    qed (use Some in \<open>auto simp: verdict_def intro!: exI [of _ "[]"]\<close>)
  qed
qed simp

text \<open>C29: Following the log comes down to the first line that completes or aborts the flow-over: what is
  reported before it only says that the node is assimilating, that line decides the last report
  and ends the following, and without one the following goes on.\<close>

theorem first_verdict_decides:
  "\<exists>before. list_all (\<lambda>r. fst r = ''assimilating'') before
     \<and> follow_lines ls n =
         (case first_some verdict ls of Some r \<Rightarrow> (before @ [r], True) | None \<Rightarrow> (before, False))"
  by (rule verdict_decides)

text \<open>The node is declared local only where a line of the log says that every extent has moved.\<close>

lemma local_needs_completion:
  "(''local'', d) \<in> set (fst (follow_lines ls n)) \<Longrightarrow> \<exists>l \<in> set ls. \<exists>moved. parse_line l = Some (Complete moved 0)"
proof (induction ls arbitrary: n)
  case (Cons l ls)
  then show ?case
    by (auto simp: split_beta word_gt_0 split: option.splits event.splits if_splits)
qed simp

end
