(* ===== verification/Handshake.thy ===== *)
theory Handshake
  imports Http Boot_Sequence Agent
begin

text \<open>
  What the programs say to each other. The server's boot script carries a command line that the
  initramfs parses; the initramfs and the agent report phases that the server reads; both reach
  the server at the address of one URL. Each side is modelled in its own theory; here the text
  one writes is given to the reader of the other.
\<close>

section \<open>From the boot plan to the boot parameters\<close>

text \<open>The arguments of the kernel line of the script.\<close>

definition kernel_args :: "boot_plan \<Rightarrow> config \<Rightarrow> string" where
  "kernel_args plan cfg = ''initrd=initramfs.img '' @ plan_cmdline plan cfg"

lemma render_kernel_args:
  "\<exists>before. render cfg plan = before @ ''kernel ${base}/boot/vmlinuz '' @ kernel_args plan cfg
     @ LF # ''initrd ${base}/boot/initramfs.img'' @ LF # ''boot'' @ [LF]"
  by (simp add: render_def kernel_args_def)

text \<open>The texts of a plan that become single tokens.\<close>

definition plan_texts :: "boot_plan \<Rightarrow> config \<Rightarrow> string list" where
  "plan_texts plan cfg =
     concat (map (opt_part []) [bp_portal plan, bp_nqn plan, bp_volume plan, cfg_local_disk cfg,
       map_option hr_name (bp_record plan), Option.bind (bp_record plan) hr_role])"

text \<open>The parameters a plan stands for.\<close>

definition planned :: "boot_plan \<Rightarrow> config \<Rightarrow> boot_params" where
  "planned plan cfg =
     (case bp_portal plan of
        None \<Rightarrow> boot_params_default
      | Some portal \<Rightarrow> boot_params_default\<lparr>p_portal := Some portal, p_port := Some (bp_portal_port plan),
          p_nqn := bp_nqn plan, p_nsid := bp_nsid plan, p_volume := bp_volume plan\<rparr>)
     \<lparr>p_local_disk := cfg_local_disk cfg, p_hostname := map_option hr_name (bp_record plan),
      p_role := Option.bind (bp_record plan) hr_role\<rparr>"

definition extra_tokens :: "boot_plan \<Rightarrow> config \<Rightarrow> string list" where
  "extra_tokens plan cfg =
     split_whitespace (cfg_extra_cmdline cfg)
     @ (case Option.bind (bp_record plan) hr_extra_cmdline of Some x \<Rightarrow> split_whitespace x | None \<Rightarrow> [])"

lemma set_param_keys:
  "set_param ''rd.stormblock.portal'' v p = p\<lparr>p_portal := Some v\<rparr>"
  "set_param ''rd.stormblock.port'' v p = p\<lparr>p_port := parse_word v\<rparr>"
  "set_param ''rd.stormblock.nqn'' v p = p\<lparr>p_nqn := Some v\<rparr>"
  "set_param ''rd.stormblock.nsid'' v p = p\<lparr>p_nsid := parse_word v\<rparr>"
  "set_param ''stormblock.volume'' v p = p\<lparr>p_volume := Some v\<rparr>"
  "set_param ''rd.stormblock.local-disk'' v p = p\<lparr>p_local_disk := Some v\<rparr>"
  "set_param ''storm.hostname'' v p = p\<lparr>p_hostname := Some v\<rparr>"
  "set_param ''storm.role'' v p = p\<lparr>p_role := Some v\<rparr>"
  "set_param ''root'' v p = p" "set_param ''initrd'' v p = p"
  by (simp_all add: set_param_def)

lemma apply_keys:
  assumes "v \<noteq> []"
  shows "apply_token p (''rd.stormblock.portal='' @ v) = p\<lparr>p_portal := Some v\<rparr>"
    "apply_token p (''rd.stormblock.port='' @ v) = p\<lparr>p_port := parse_word v\<rparr>"
    "apply_token p (''rd.stormblock.nqn='' @ v) = p\<lparr>p_nqn := Some v\<rparr>"
    "apply_token p (''rd.stormblock.nsid='' @ v) = p\<lparr>p_nsid := parse_word v\<rparr>"
    "apply_token p (''stormblock.volume='' @ v) = p\<lparr>p_volume := Some v\<rparr>"
    "apply_token p (''rd.stormblock.local-disk='' @ v) = p\<lparr>p_local_disk := Some v\<rparr>"
    "apply_token p (''storm.hostname='' @ v) = p\<lparr>p_hostname := Some v\<rparr>"
    "apply_token p (''storm.role='' @ v) = p\<lparr>p_role := Some v\<rparr>"
    "apply_token p (''root='' @ v) = p" "apply_token p (''initrd='' @ v) = p"
  using assms by (simp_all add: apply_token_def set_param_keys)

text \<open>The parts before the extra ones, folded over the defaults.\<close>

lemma plain_parts:
  assumes "plain_token v" "list_all (\<lambda>c. \<not> is_ws c) k"
  shows "split_whitespace (k @ v) = [k @ v]"
  by (rule split_whitespace_token) (use assms in \<open>auto simp: plain_token_def list_all_iff\<close>)

definition fold_parts :: "string list \<Rightarrow> boot_params \<Rightarrow> boot_params" where
  "fold_parts parts p = foldl apply_token p (concat (map split_whitespace parts))"

lemma fold_parts_simps:
  "fold_parts [] p = p"
  "fold_parts (a @ b) p = fold_parts b (fold_parts a p)"
  by (simp_all add: fold_parts_def)

lemma fold_part_key:
  assumes "plain_token v" "list_all (\<lambda>c. \<not> is_ws c) k"
  shows "fold_parts ((k @ v) # parts) p = fold_parts parts (apply_token p (k @ v))"
  by (simp add: fold_parts_def plain_parts [OF assms])

lemma fold_part_opt:
  assumes "\<And>x. v = Some x \<Longrightarrow> plain_token x" "list_all (\<lambda>c. \<not> is_ws c) k"
  shows "fold_parts (opt_part k v) p = (case v of None \<Rightarrow> p | Some x \<Rightarrow> apply_token p (k @ x))"
  using assms fold_part_key [OF _ assms(2), of _ "[]" p]
  by (cases v) (simp_all add: opt_part_def fold_parts_simps)

lemma key_chars:
  "list_all (\<lambda>c. \<not> is_ws c) ''rd.stormblock.portal=''" "list_all (\<lambda>c. \<not> is_ws c) ''rd.stormblock.port=''"
  "list_all (\<lambda>c. \<not> is_ws c) ''rd.stormblock.nqn=''" "list_all (\<lambda>c. \<not> is_ws c) ''rd.stormblock.nsid=''"
  "list_all (\<lambda>c. \<not> is_ws c) ''stormblock.volume=''" "list_all (\<lambda>c. \<not> is_ws c) ''rd.stormblock.local-disk=''"
  "list_all (\<lambda>c. \<not> is_ws c) ''storm.hostname=''" "list_all (\<lambda>c. \<not> is_ws c) ''storm.role=''"
  "list_all (\<lambda>c. \<not> is_ws c) ''root=''" "list_all (\<lambda>c. \<not> is_ws c) ''initrd=''"
  by (simp_all add: is_ws_def)

lemma plan_texts_plain:
  assumes "list_all plain_token (plan_texts plan cfg)"
  shows "bp_portal plan = Some v \<Longrightarrow> plain_token v" "bp_nqn plan = Some v \<Longrightarrow> plain_token v"
    "bp_volume plan = Some v \<Longrightarrow> plain_token v" "cfg_local_disk cfg = Some v \<Longrightarrow> plain_token v"
    "bp_record plan = Some r \<Longrightarrow> plain_token (hr_name r)"
    "bp_record plan = Some r \<Longrightarrow> hr_role r = Some v \<Longrightarrow> plain_token v"
  using assms by (auto simp: plan_texts_def opt_part_def)

lemma fold_constant_parts:
  "fold_parts [''root=/dev/ublkb0''] p = p" "fold_parts [''initrd=initramfs.img''] p = p"
proof -
  have "plain_token ''/dev/ublkb0''" "plain_token ''initramfs.img''" by (simp_all add: plain_token_def is_ws_def)
  from fold_part_key [OF this(1) key_chars(9), of "[]" p] fold_part_key [OF this(2) key_chars(10), of "[]" p]
  show "fold_parts [''root=/dev/ublkb0''] p = p" "fold_parts [''initrd=initramfs.img''] p = p"
    using apply_keys(9) [of "''/dev/ublkb0''" p] apply_keys(10) [of "''initramfs.img''" p]
    by (simp_all add: fold_parts_simps)
qed

lemma plain_ne: "plain_token v \<Longrightarrow> v \<noteq> []"
  by (simp add: plain_token_def)

lemma fold_root_parts:
  assumes "list_all plain_token (plan_texts plan cfg)"
  shows "fold_parts (root_parts plan) boot_params_default =
     (case bp_portal plan of
        None \<Rightarrow> boot_params_default
      | Some portal \<Rightarrow> boot_params_default\<lparr>p_portal := Some portal, p_port := Some (bp_portal_port plan),
          p_nqn := bp_nqn plan, p_nsid := bp_nsid plan, p_volume := bp_volume plan\<rparr>)"
proof (cases "bp_portal plan")
  case (Some portal)
  note tok = plan_texts_plain [OF assms]
  have n: "show_word w \<noteq> []" for w :: "'a::len word" by (simp add: show_word_def)
  have "fold_parts [''rd.stormblock.portal='' @ portal, ''rd.stormblock.port='' @ show_word (bp_portal_port plan)] p
      = p\<lparr>p_portal := Some portal, p_port := Some (bp_portal_port plan)\<rparr>" for p
    unfolding fold_part_key [OF tok(1) [OF Some] key_chars(1)] fold_part_key [OF show_word_token key_chars(2)]
    by (simp only: apply_keys [OF plain_ne [OF tok(1) [OF Some]]] apply_keys [OF n] fold_parts_simps parse_word_show_word)
  moreover have "fold_parts (opt_part ''rd.stormblock.nqn='' (bp_nqn plan)) p
      = (case bp_nqn plan of None \<Rightarrow> p | Some v \<Rightarrow> p\<lparr>p_nqn := Some v\<rparr>)" for p
    using tok(2) by (subst fold_part_opt [OF _ key_chars(3)]) (auto split: option.split simp: plain_ne apply_keys simp del: append.simps)
  moreover have "fold_parts (opt_part ''rd.stormblock.nsid='' (map_option show_word (bp_nsid plan))) p
      = (case bp_nsid plan of None \<Rightarrow> p | Some v \<Rightarrow> p\<lparr>p_nsid := Some v\<rparr>)" for p
    by (subst fold_part_opt [OF _ key_chars(4)]) (auto split: option.split simp: show_word_token n apply_keys simp del: append.simps)
  moreover have "fold_parts (opt_part ''stormblock.volume='' (bp_volume plan)) p
      = (case bp_volume plan of None \<Rightarrow> p | Some v \<Rightarrow> p\<lparr>p_volume := Some v\<rparr>)" for p
    using tok(3) by (subst fold_part_opt [OF _ key_chars(5)]) (auto split: option.split simp: plain_ne apply_keys simp del: append.simps)
  ultimately show ?thesis
    by (simp only: root_parts_def Some option.case fold_parts_simps fold_constant_parts)
      (simp add: boot_params_default_def split: option.split)
qed (simp add: root_parts_def fold_parts_simps)

lemma fold_rest_parts:
  assumes "list_all plain_token (plan_texts plan cfg)"
  shows "fold_parts (opt_part ''rd.stormblock.local-disk='' (cfg_local_disk cfg)) p
      = (case cfg_local_disk cfg of None \<Rightarrow> p | Some v \<Rightarrow> p\<lparr>p_local_disk := Some v\<rparr>)"
    "fold_parts (identity_parts plan) p = (case bp_record plan of None \<Rightarrow> p | Some r \<Rightarrow>
        (case hr_role r of None \<Rightarrow> p\<lparr>p_hostname := Some (hr_name r)\<rparr>
         | Some v \<Rightarrow> p\<lparr>p_hostname := Some (hr_name r), p_role := Some v\<rparr>))"
proof -
  note tok = plan_texts_plain [OF assms]
  show "fold_parts (opt_part ''rd.stormblock.local-disk='' (cfg_local_disk cfg)) p
      = (case cfg_local_disk cfg of None \<Rightarrow> p | Some v \<Rightarrow> p\<lparr>p_local_disk := Some v\<rparr>)"
    using tok(4) by (subst fold_part_opt [OF _ key_chars(6)]) (auto split: option.split simp: plain_ne apply_keys simp del: append.simps)
  show "fold_parts (identity_parts plan) p = (case bp_record plan of None \<Rightarrow> p | Some r \<Rightarrow>
        (case hr_role r of None \<Rightarrow> p\<lparr>p_hostname := Some (hr_name r)\<rparr>
         | Some v \<Rightarrow> p\<lparr>p_hostname := Some (hr_name r), p_role := Some v\<rparr>))"
  proof (cases "bp_record plan")
    case (Some r)
    have role: "fold_parts (opt_part ''storm.role='' (hr_role r)) q
        = (case hr_role r of None \<Rightarrow> q | Some v \<Rightarrow> q\<lparr>p_role := Some v\<rparr>)" for q
      using tok(6) [OF Some] by (subst fold_part_opt [OF _ key_chars(8)])
        (auto split: option.split simp: plain_ne apply_keys simp del: append.simps)
    have "fold_parts [''storm.hostname='' @ hr_name r] p = p\<lparr>p_hostname := Some (hr_name r)\<rparr>"
      unfolding fold_part_key [OF tok(5) [OF Some] key_chars(7)]
      by (simp only: apply_keys [OF plain_ne [OF tok(5) [OF Some]]] fold_parts_simps)
    then show ?thesis
      by (simp only: identity_parts_def Some option.case fold_parts_simps role)
  qed (simp add: identity_parts_def fold_parts_simps)
qed

text \<open>C12: The initramfs reads the very plan the server resolved: the portal with its port, target,
  namespace and volume, the local disk, the host's name and role, as long as they are single
  tokens; the extra arguments of the server and of the host are read after them, as written.\<close>

theorem served_parameters_read_back:
  assumes "list_all plain_token (plan_texts plan cfg)"
  shows "boot_params_parse (kernel_args plan cfg) = foldl apply_token (planned plan cfg) (extra_tokens plan cfg)"
proof -
  have "boot_params_parse (kernel_args plan cfg)
      = fold_parts (''initrd=initramfs.img'' # cmdline_parts plan cfg) boot_params_default"
    by (simp add: boot_params_parse_def kernel_args_def plan_cmdline_def fold_parts_def
        split_whitespace_join_gen split_whitespace_append [of "''initrd=initramfs.img''", simplified] )
  also have "\<dots> = fold_parts (cmdline_parts plan cfg) (fold_parts [''initrd=initramfs.img''] boot_params_default)"
    by (simp add: fold_parts_def)
  also have "\<dots> = foldl apply_token (planned plan cfg) (extra_tokens plan cfg)"
    unfolding cmdline_parts_def fold_constant_parts fold_parts_simps fold_root_parts [OF assms]
      fold_rest_parts [OF assms]
    by (auto simp: planned_def extra_tokens_def fold_parts_def opt_part_def boot_params_default_def
        split: option.split)
  finally show ?thesis .
qed

definition demo_plan :: boot_plan where
  "demo_plan = \<lparr>bp_mac = None, bp_record = None, bp_portal = Some ''10.0.0.1'', bp_portal_port = 4420,
     bp_nqn = Some ''nqn.root'', bp_nsid = None, bp_volume = Some ''vol1''\<rparr>"

definition demo_settings :: config where
  "demo_settings = demo_cfg\<lparr>cfg_local_disk := None, cfg_extra_cmdline := ''quiet rd.stormblock.port=4421''\<rparr>"

lemma demo_plan_plain: "list_all plain_token (plan_texts demo_plan demo_settings)"
  by (simp add: plan_texts_def demo_plan_def demo_settings_def opt_part_def plain_token_def is_ws_def)

theorem served_parameters_read_back_witness:
  "boot_params_parse (kernel_args demo_plan demo_settings)
     = foldl apply_token (planned demo_plan demo_settings) (extra_tokens demo_plan demo_settings)
   \<and> nvme_uri (planned demo_plan demo_settings) = Some ''nvme-tcp://10.0.0.1:4420/nqn.root?nsid=1''"
proof -
  have "nvme_uri (planned demo_plan demo_settings) = Some ''nvme-tcp://10.0.0.1:4420/nqn.root?nsid=1''"
  proof -
    have "show_nat 4420 = ''4420''" "show_nat 1 = ''1''" by code_simp+
    then show ?thesis
      by (simp add: nvme_uri_def planned_def demo_plan_def demo_settings_def boot_params_default_def show_word_def)
  qed
  then show ?thesis using served_parameters_read_back [OF demo_plan_plain] by simp
qed

section \<open>From a claim to the engine\<close>

definition target_uri :: "attach \<Rightarrow> string" where
  "target_uri a = ''nvme-tcp://'' @ at_address a @ '':'' @ show_word (at_port a) @ ''/'' @ at_target a
     @ ''?nsid='' @ show_word (case at_nsid a of Some n \<Rightarrow> n | None \<Rightarrow> 1)"

text \<open>The plan the server serves to a machine whose claim was granted.\<close>

definition claimed_plan :: "config \<Rightarrow> mac option \<Rightarrow> host_record option \<Rightarrow> claim_response \<Rightarrow> boot_plan" where
  "claimed_plan cfg m record c = plan_with_claim (Some c) (resolve cfg m record)"

lemma claimed_plan_fields:
  assumes "cr_attach c = Some a"
  shows "bp_portal (claimed_plan cfg m record c) = Some (at_address a)"
    "bp_portal_port (claimed_plan cfg m record c) = at_port a"
    "bp_nqn (claimed_plan cfg m record c) = Some (at_target a)"
    "bp_nsid (claimed_plan cfg m record c) = at_nsid a"
    "bp_volume (claimed_plan cfg m record c) = Some (cr_volume_name c)"
    "bp_record (claimed_plan cfg m record c) = record"
  using assms by (simp_all add: claimed_plan_def plan_with_claim_def resolve_def)

text \<open>C1: The volume that was claimed for a machine is the one its engine attaches: with no extra
  arguments on the command line, the machine that boots the served script starts the engine on
  the slab of the claim's own target, namespace and all, and asks it for the claim's volume.\<close>

theorem claimed_volume_is_attached:
  assumes "cr_attach c = Some a" and "plan = claimed_plan cfg m record c"
    and "list_all plain_token (plan_texts plan cfg)" and "extra_tokens plan cfg = []"
    and "p = boot_params_parse (kernel_args plan cfg)"
  shows "resolve_slabs w p tr = (tr, Inr [target_uri a])
    \<and> is_network_boot p \<and> p_volume p = Some (cr_volume_name c)
    \<and> take 3 (engine_args p [target_uri a] xp) = [''boot-local'', ''--slab'', target_uri a]
    \<and> check_local_disk p = Inr ()"
proof -
  note f = claimed_plan_fields [OF assms(1), of cfg m "record", folded assms(2)]
  have p: "p = planned plan cfg"
    using served_parameters_read_back [OF assms(3)] assms(4,5) by simp
  have "nvme_uri p = Some (target_uri a)"
    by (simp add: p planned_def f nvme_uri_def target_uri_def boot_params_default_def)
  moreover have "boothost_claim p = None" "p_slabs p = []" "p_data_slab p = None" "p_volume p = Some (cr_volume_name c)"
    by (simp_all add: p planned_def f boothost_claim_def boot_params_default_def)
  ultimately show ?thesis
    by (simp add: resolve_slabs_def all_slabs_def return_io_def is_network_boot_def engine_args_def
        check_local_disk_def split: option.split)
qed

definition demo_grant :: claim_response where
  "demo_grant = \<lparr>cr_id = ''c1'', cr_golden = ''g'', cr_template = ''t'', cr_state = ''bound'', cr_volume_name = ''vol1'',
     cr_attach = Some \<lparr>at_protocol = ''nvme-tcp'', at_address = ''10.0.0.1'', at_port = 4420,
       at_target = ''nqn.root'', at_nsid = Some 3, at_disk_add = None\<rparr>\<rparr>"

definition bare_settings :: config where
  "bare_settings = demo_cfg\<lparr>cfg_local_disk := None, cfg_extra_cmdline := []\<rparr>"

theorem claimed_volume_is_attached_witness:
  "resolve_slabs demo_world
      (boot_params_parse (kernel_args (claimed_plan bare_settings None None demo_grant) bare_settings)) []
     = ([], Inr [target_uri (the (cr_attach demo_grant))])"
proof -
  have plain: "list_all plain_token (plan_texts (claimed_plan bare_settings None None demo_grant) bare_settings)"
    by (simp add: plan_texts_def claimed_plan_def plan_with_claim_def resolve_def demo_grant_def bare_settings_def
        opt_part_def plain_token_def is_ws_def)
  have none: "extra_tokens (claimed_plan bare_settings None None demo_grant) bare_settings = []"
    by (simp add: extra_tokens_def claimed_plan_def plan_with_claim_def resolve_def demo_grant_def bare_settings_def)
  have at: "cr_attach demo_grant = Some (the (cr_attach demo_grant))" by (simp add: demo_grant_def)
  show ?thesis using claimed_volume_is_attached [OF at refl plain none refl] by blast
qed

section \<open>Reports\<close>

text \<open>The script carries neither the address to report to nor the machine's own: unless an extra
  argument adds both, no report of the initramfs is ever sent.\<close>

theorem served_script_reports_nothing:
  assumes "list_all plain_token (plan_texts plan cfg)" and "extra_tokens plan cfg = []"
    and "p = boot_params_parse (kernel_args plan cfg)"
  shows "try_post nw \<lparr>rp_url = p_report_url p, rp_mac = p_mac p\<rparr> ph detail = Inr None"
proof -
  have p: "p = planned plan cfg" using served_parameters_read_back [OF assms(1)] assms(2,3) by simp
  have "p_report_url p = None" by (simp add: p planned_def boot_params_default_def split: option.split)
  then show ?thesis by (simp add: try_post_def)
qed

theorem served_script_reports_nothing_witness:
  "try_post nw \<lparr>rp_url = p_report_url (boot_params_parse (kernel_args demo_plan bare_settings)),
     rp_mac = p_mac (boot_params_parse (kernel_args demo_plan bare_settings))\<rparr> ph detail = Inr None"
proof -
  have plain: "list_all plain_token (plan_texts demo_plan bare_settings)"
    by (simp add: plan_texts_def demo_plan_def bare_settings_def opt_part_def plain_token_def is_ws_def)
  have none: "extra_tokens demo_plan bare_settings = []"
    by (simp add: extra_tokens_def demo_plan_def bare_settings_def)
  show ?thesis using served_script_reports_nothing [OF plain none refl] by blast
qed

text \<open>Every phase the initramfs and the agent report is one the server reads, but for the refresh of
  the boot medium.\<close>

theorem node_phases_are_read:
  "(\<Union>l \<in> boot_scripts p. set l) \<union> {''failed''} \<union> fst ` set (fst (follow_engine_log pieces)) \<union> {''running''}
     \<subseteq> {ph. parse_phase ph \<noteq> None} \<union> {''media-updated''}"
proof -
  have known: "parse_phase (slug ph) \<noteq> None" for ph by (simp add: parse_phase_slug)
  note k = known [of AssetsFetched] known [of RootAttached] known [of Running] known [of Assimilating]
    known [of Local] known [of Failed]
  have "fst r \<in> {''assimilating'', ''local'', ''failed''}" if "r \<in> set (fst (follow_lines ls n))" for r ls n
    using that by (induction ls arbitrary: n) (auto simp: split_beta split: option.splits event.splits if_splits)
  then have agent: "fst ` set (fst (follow_engine_log pieces)) \<subseteq> {''assimilating'', ''local'', ''failed''}"
    by (auto simp: follow_engine_log_def)
  have init: "(\<Union>l \<in> boot_scripts p. set l)
      \<subseteq> {''assets-fetched'', ''root-attached'', ''running'', ''assimilating''} \<union> {''media-updated''}"
    by (auto simp: boot_scripts_def split: if_splits)
  let ?K = "{ph. parse_phase ph \<noteq> None}"
  have "{''assets-fetched'', ''root-attached'', ''running'', ''assimilating''} \<subseteq> ?K"
    "{''assimilating'', ''local'', ''failed''} \<subseteq> ?K" "{''failed''} \<subseteq> ?K" "{''running''} \<subseteq> ?K"
    using k by (simp_all only: slug.simps insert_subset mem_Collect_eq empty_subsetI simp_thms)
  then show ?thesis
    using subset_trans [OF init Un_mono [OF _ subset_refl]] subset_trans [OF agent]
    by (intro Un_least) (meson le_supI1)+
qed

section \<open>One address, two clients\<close>

lemma post_target_authority:
  "fst (post_target (rest @ CHR ''/'' # path)) = hd (split_by (\<lambda>c. c = CHR ''/'') rest)"
proof (cases "CHR ''/'' \<in> set rest")
  case True
  then obtain a b where ab: "rest = a @ CHR ''/'' # b" "CHR ''/'' \<notin> set a" by (meson split_list_first)
  have "split_by (\<lambda>c. c = CHR ''/'') rest = a # split_by (\<lambda>c. c = CHR ''/'') b"
    unfolding ab(1) by (rule split_by_append) (use ab(2) in auto)
  then show ?thesis using ab by (simp add: post_target_def split_once_append)
next
  case False
  then have "split_by (\<lambda>c. c = CHR ''/'') rest = [rest]" by (intro split_by_none) auto
  then show ?thesis using False by (simp add: post_target_def split_once_append)
qed

text \<open>C39: The two hand-written HTTP clients agree on where a URL leads: the initramfs connects to the
  address, and names the host, that the agent does for its reports to the same URL. (The agent
  posts below the path of the URL, the initramfs does not.)\<close>

theorem clients_agree_on_the_server:
  "split_url url =
     (case strip_prefix ''http://'' url of
        None \<Rightarrow> Inl (UnsupportedScheme url)
      | Some rest \<Rightarrow>
          (let authority = fst (post_target (rest @ ''/api/v1/report''))
           in if authority = [] then Inl (NoHost url) else Inr (connect_address authority, authority)))"
  using post_target_authority [of _ "''api/v1/report''"]
  by (simp add: split_url_def connect_address_def Let_def split: option.split)

section \<open>The address of the booting interface\<close>

lemma hex_part_normalised: "lowercase (hex_part (lowercase (replace_char (CHR ''-'') (CHR '':'') s))) = lowercase (hex_part s)"
proof (induction s)
  case (Cons c s)
  have low: "is_separator (lower c) = is_separator c" "lower (lower c) = lower c" for c
    by (auto simp: separator_codes code_of_lower lower_def)
  show ?case
  proof (cases "c = CHR ''-''")
    case True
    have "is_separator (lower (CHR '':''))" "is_separator (CHR ''-'')" by (simp_all add: low is_separator_def lower_def)
    then show ?thesis using Cons True by (simp add: hex_part_def replace_char_def lowercase_def)
  next
    case False
    then show ?thesis using Cons low by (simp add: hex_part_def replace_char_def lowercase_def)
  qed
qed (simp add: hex_part_def replace_char_def lowercase_def)

text \<open>The address that the PXE firmware hands over in \<open>BOOTIF\<close> names the same machine to the server
  after the initramfs has normalised it, whatever its spelling.\<close>

theorem bootif_names_the_machine:
  "mac_parse (normalise_bootif (''01-'' @ s)) = Inr m \<longleftrightarrow> mac_parse s = Inr m"
  by (simp only: normalise_bootif_def strip_prefix_append option.case Let_def mac_parse_iff hex_part_normalised)

end
