(* ===== verification/Boot_Host.thy ===== *)
theory Boot_Host
  imports Boot_State Hosts
begin

text \<open>
  The \<open>BootHost\<close> resource (\<open>crates/stormnetboot-server/src/boothost.rs\<close>): the object an operator
  writes, the host record it describes and the status it should carry. Generations are integers,
  times are the texts the API carries. The lemmas show that the status is a function of what was
  observed (computing it again from itself changes nothing), when a transition time moves, and
  what the conditions say of each phase.
\<close>

section \<open>The object\<close>

record boot_host_spec =
  sp_boot_mac_address :: string
  sp_hostname :: "string option"
  sp_role :: "string option"
  sp_stack :: "string option"
  sp_portal :: "string option"
  sp_extra_cmdline :: "string option"
  sp_online :: bool

record hardware_status =
  hw_cpus :: u32
  hw_memory_kb :: u64
  hw_product :: "string option"
  hw_serial :: "string option"
  hw_disks :: "string list"

definition hardware_of :: "hardware_inventory \<Rightarrow> hardware_status" where
  "hardware_of hw =
     \<lparr>hw_cpus = inv_cpus hw, hw_memory_kb = inv_memory_kb hw, hw_product = inv_product hw,
      hw_serial = inv_serial hw, hw_disks = inv_disks hw\<rparr>"

record condition =
  cd_type :: string
  cd_status :: string
  cd_reason :: string
  cd_message :: string
  cd_last_transition_time :: string
  cd_observed_generation :: int

record boot_host_status =
  bs_phase :: "string option"
  bs_pallet_version :: "string option"
  bs_claim_id :: "string option"
  bs_hardware :: "hardware_status option"
  bs_conditions :: "condition list"

record object_meta =
  om_name :: "string option"
  om_namespace :: "string option"
  om_generation :: "int option"

record boot_host =
  bh_metadata :: object_meta
  bh_spec :: boot_host_spec
  bh_status :: "boot_host_status option"

definition generation_of :: "boot_host \<Rightarrow> int" where
  "generation_of bh = (case om_generation (bh_metadata bh) of Some g \<Rightarrow> g | None \<Rightarrow> 0)"

definition object_ref_of :: "boot_host \<Rightarrow> object_ref option" where
  "object_ref_of bh =
     (case (om_namespace (bh_metadata bh), om_name (bh_metadata bh)) of
        (Some ns, Some n) \<Rightarrow> Some \<lparr>or_namespace = ns, or_name = n, or_generation = generation_of bh\<rparr>
      | _ \<Rightarrow> None)"

text \<open>The name an object goes by in the log.\<close>

definition object_ref_or_unnamed :: "boot_host \<Rightarrow> string" where
  "object_ref_or_unnamed bh =
     (case object_ref_of bh of Some r \<Rightarrow> object_ref_display r | None \<Rightarrow> ''<unnamed>'')"

definition to_record :: "boot_host \<Rightarrow> host_record option" where
  "to_record bh =
     (case mac_parse (sp_boot_mac_address (bh_spec bh)) of
        Inl err \<Rightarrow> None
      | Inr m \<Rightarrow>
          (case (case sp_hostname (bh_spec bh) of Some n \<Rightarrow> Some n | None \<Rightarrow> om_name (bh_metadata bh)) of
             None \<Rightarrow> None
           | Some name \<Rightarrow>
               Some \<lparr>hr_mac = m, hr_name = name, hr_role = sp_role (bh_spec bh),
                     hr_stack = sp_stack (bh_spec bh), hr_portal = sp_portal (bh_spec bh),
                     hr_extra_cmdline = sp_extra_cmdline (bh_spec bh), hr_online = sp_online (bh_spec bh),
                     hr_object = object_ref_of bh\<rparr>))"

section \<open>The status\<close>

record proposed =
  pr_type :: string
  pr_status :: bool
  pr_reason :: string
  pr_message :: string

definition propose :: "string \<Rightarrow> bool \<Rightarrow> string \<Rightarrow> string \<Rightarrow> proposed" where
  "propose t st reason message = \<lparr>pr_type = t, pr_status = st, pr_reason = reason, pr_message = message\<rparr>"

definition proposed_conditions :: "host_state option \<Rightarrow> bool \<Rightarrow> proposed list" where
  "proposed_conditions observed online =
     (case observed of
        Some s \<Rightarrow>
          (case hs_phase s of
             Failed \<Rightarrow>
               let detail = (case hs_detail s of Some d \<Rightarrow> d | None \<Rightarrow> ''boot failed'')
               in [propose ''Available'' False ''BootFailed'' detail,
                   propose ''Progressing'' False ''BootFailed'' detail,
                   propose ''Degraded'' True ''BootFailed'' detail]
           | Local \<Rightarrow>
               [propose ''Available'' True ''BootedLocally'' ''assimilated; booting from local disk'',
                propose ''Progressing'' False ''BootedLocally'' ''nothing left to do'',
                propose ''Degraded'' False ''BootedLocally'' '''']
           | ph \<Rightarrow>
               let running = (ph = Running \<or> ph = Assimilating);
                   detail = (case hs_detail s of Some d \<Rightarrow> d | None \<Rightarrow> slug ph)
               in [propose ''Available'' running (if running then ''Running'' else ''Booting'') detail,
                   propose ''Progressing'' True ''Booting'' detail,
                   propose ''Degraded'' False ''Booting'' ''''])
      | None \<Rightarrow>
          let (reason, message) =
            (if online then (''NotSeen'', ''the boot server has not been asked to boot this machine'')
             else (''Offline'', ''spec.online is false; the boot server will refuse this machine''))
          in [propose ''Available'' False reason message,
              propose ''Progressing'' False reason message,
              propose ''Degraded'' False reason ''''])"

definition resolve_condition :: "int \<Rightarrow> boot_host_status option \<Rightarrow> string \<Rightarrow> proposed \<Rightarrow> condition" where
  "resolve_condition generation previous now p =
     (let status = (if pr_status p then ''True'' else ''False'');
          prev = Option.bind previous (\<lambda>st. find (\<lambda>c. cd_type c = pr_type p) (bs_conditions st))
      in \<lparr>cd_type = pr_type p, cd_status = status, cd_reason = pr_reason p, cd_message = pr_message p,
          cd_last_transition_time =
            (case prev of
               Some c \<Rightarrow> if cd_status c = status then cd_last_transition_time c else now
             | None \<Rightarrow> now),
          cd_observed_generation = generation\<rparr>)"

definition desired_status ::
  "host_state option \<Rightarrow> bool \<Rightarrow> string option \<Rightarrow> int \<Rightarrow> boot_host_status option \<Rightarrow> string \<Rightarrow> boot_host_status" where
  "desired_status observed online claim generation previous now =
     \<lparr>bs_phase = map_option (\<lambda>s. slug (hs_phase s)) observed,
      bs_pallet_version = Option.bind observed hs_pallet_version,
      bs_claim_id = claim,
      bs_hardware = map_option hardware_of (Option.bind observed hs_hardware),
      bs_conditions = map (resolve_condition generation previous now) (proposed_conditions observed online)\<rparr>"

text \<open>The keys a status is written with: an absent field and an empty list are left out.\<close>

definition status_keys :: "boot_host_status \<Rightarrow> string list" where
  "status_keys st =
     (if bs_phase st = None then [] else [''phase''])
     @ (if bs_pallet_version st = None then [] else [''palletVersion''])
     @ (if bs_claim_id st = None then [] else [''claimId''])
     @ (if bs_hardware st = None then [] else [''hardware''])
     @ (if bs_conditions st = [] then [] else [''conditions''])"

section \<open>Properties\<close>

lemma proposed_types: "map pr_type (proposed_conditions observed online) = [''Available'', ''Progressing'', ''Degraded'']"
  by (auto simp: proposed_conditions_def propose_def Let_def split: option.split phase.split)

lemma proposed_three:
  "\<exists>a b c. proposed_conditions observed online = [a, b, c]
    \<and> pr_type a = ''Available'' \<and> pr_type b = ''Progressing'' \<and> pr_type c = ''Degraded''"
proof -
  obtain a b c where "proposed_conditions observed online = [a, b, c]"
    using arg_cong [OF proposed_types [of observed online], of length]
    by (auto simp: length_Suc_conv)
  then show ?thesis using proposed_types [of observed online] by simp
qed

lemma desired_stable:
  "desired_status observed online claim generation
     (Some (desired_status observed online claim generation previous now)) now' =
   desired_status observed online claim generation previous now"
proof -
  obtain a b c where p: "proposed_conditions observed online = [a, b, c]"
    "pr_type a = ''Available''" "pr_type b = ''Progressing''" "pr_type c = ''Degraded''"
    using proposed_three by blast
  show ?thesis
    by (simp add: desired_status_def p(1)) (simp add: resolve_condition_def Let_def p)
qed

text \<open>The status is level-triggered: computed again from the status it gave, at any later time, it is
  the same status, so a pass with nothing new to say has nothing to write.\<close>

theorem desired_status_stable:
  "desired_status observed online claim generation
     (Some (desired_status observed online claim generation previous now)) now' =
   desired_status observed online claim generation previous now"
  by (rule desired_stable)

text \<open>C38: A condition's transition time moves exactly when its status moves: it is carried over from the
  previous condition of its type while the status is the same, and is the present otherwise.\<close>

theorem transition_time_moves_with_status:
  assumes "c \<in> set (bs_conditions (desired_status observed online claim generation (Some previous) now))"
    and "find (\<lambda>c'. cd_type c' = cd_type c) (bs_conditions previous) = Some old"
  shows "cd_last_transition_time c = (if cd_status old = cd_status c then cd_last_transition_time old else now)"
proof -
  obtain p where c: "c = resolve_condition generation (Some previous) now p"
    using assms(1) by (auto simp: desired_status_def)
  have "cd_type c = pr_type p" "cd_status c = (if pr_status p then ''True'' else ''False'')"
    by (simp_all add: c resolve_condition_def Let_def)
  with assms(2) show ?thesis by (simp add: c resolve_condition_def Let_def)
qed

theorem transition_time_moves_with_status_witness:
  "\<exists>c \<in> set (bs_conditions (desired_status None True None 1 (Some (desired_status None True None 1 None ''t1'')) ''t2'')).
     cd_last_transition_time c = ''t1''"
proof -
  let ?prev = "desired_status None True None 1 None ''t1''"
  let ?new = "desired_status None True None 1 (Some ?prev) ''t2''"
  let ?c = "hd (bs_conditions ?new)" and ?old = "hd (bs_conditions ?prev)"
  have c: "?c \<in> set (bs_conditions ?new)" "find (\<lambda>c'. cd_type c' = cd_type ?c) (bs_conditions ?prev) = Some ?old"
    "cd_status ?old = cd_status ?c" "cd_last_transition_time ?old = ''t1''"
    by (simp_all add: desired_status_def proposed_conditions_def propose_def resolve_condition_def Let_def)
  from transition_time_moves_with_status [OF c(1,2)] c(3,4)
  have "cd_last_transition_time ?c = ''t1''" by simp
  with c(1) show ?thesis by blast
qed

text \<open>What the conditions say: a host is available exactly when it is running, assimilating or
  local, progressing exactly from its first request until it is local or failed, degraded exactly
  when it failed.\<close>

theorem conditions_of_phase:
  "map (\<lambda>c. (cd_type c, cd_status c = ''True''))
     (bs_conditions (desired_status observed online claim generation previous now)) =
   [(''Available'', map_option hs_phase observed \<in> {Some Running, Some Assimilating, Some Local}),
    (''Progressing'', observed \<noteq> None \<and> map_option hs_phase observed \<notin> {Some Local, Some Failed}),
    (''Degraded'', map_option hs_phase observed = Some Failed)]"
  by (auto simp: desired_status_def resolve_condition_def proposed_conditions_def propose_def Let_def
      split: option.split phase.split)

text \<open>A field that has to be cleared is not in the document that is written.\<close>

lemma cleared_fields_not_written:
  "status_keys (desired_status None online None generation previous now) = [''conditions'']"
  by (auto simp: status_keys_def desired_status_def proposed_conditions_def propose_def Let_def)

lemma to_record_status [simp]: "to_record (bh\<lparr>bh_status := st\<rparr>) = to_record bh"
  by (simp add: to_record_def object_ref_of_def generation_of_def split: sum.split option.split)

end
