(* ===== verification/Kube_Store.thy ===== *)
theory Kube_Store
  imports Boot_Host Http
begin

text \<open>
  The \<open>BootHost\<close> watch and the status writer
  (\<open>crates/stormnetboot-server/src/kube_store.rs\<close>): the index of objects by address, kept beside
  the cluster layer of the host store, the events of the watch with its relist buffer, and one
  pass of the status writer. Outcomes of status patches are an argument, and so is the time text
  of a pass. The lemmas show that the index and the host records agree after every history, that
  a relist erases the past, that a pass stops at its cap, and that the passes catch up with any
  number of machines.
\<close>

section \<open>The index\<close>

type_synonym index = "(mac \<times> boot_host) list"

record kube_state =
  ks_index :: index
  ks_app :: app_state

definition index_reset :: "boot_host list \<Rightarrow> kube_state \<Rightarrow> kube_state" where
  "index_reset objects ks =
     (let pairs = List.map_filter (\<lambda>o1. map_option (\<lambda>r. (r, o1)) (to_record o1)) objects
      in \<lparr>ks_index = hm_collect (map (\<lambda>(r, o1). (hr_mac r, o1)) pairs),
          ks_app = on_hosts (set_kube_records (map fst pairs)) (ks_app ks)\<rparr>)"

definition index_apply :: "boot_host \<Rightarrow> kube_state \<Rightarrow> kube_state" where
  "index_apply object ks =
     (case to_record object of
        None \<Rightarrow> ks
      | Some r \<Rightarrow> \<lparr>ks_index = AList.update (hr_mac r) object (ks_index ks),
                   ks_app = on_hosts (apply_kube_record r) (ks_app ks)\<rparr>)"

definition index_delete :: "boot_host \<Rightarrow> kube_state \<Rightarrow> kube_state" where
  "index_delete object ks =
     (case to_record object of
        None \<Rightarrow> ks
      | Some r \<Rightarrow> \<lparr>ks_index = AList.delete (hr_mac r) (ks_index ks),
                   ks_app = on_hosts (remove_kube_record (hr_mac r)) (ks_app ks)\<rparr>)"

definition note_status :: "mac \<Rightarrow> boot_host_status \<Rightarrow> kube_state \<Rightarrow> kube_state" where
  "note_status m status ks =
     (case map_of (ks_index ks) m of
        Some object \<Rightarrow> ks\<lparr>ks_index := AList.update m (object\<lparr>bh_status := Some status\<rparr>) (ks_index ks)\<rparr>
      | None \<Rightarrow> ks)"

definition index_len :: "kube_state \<Rightarrow> nat" where
  "index_len ks = length (ks_index ks)"

section \<open>The watch\<close>

datatype watch_event =
    Init
  | InitApply boot_host
  | InitDone
  | Applied boot_host
  | Deleted boot_host
  | WatchError
  | StreamEnded

text \<open>The state of the watch task: the relist buffer and what it maintains.\<close>

type_synonym watch_state = "boot_host list \<times> kube_state"

fun watch_step :: "watch_state \<Rightarrow> watch_event \<Rightarrow> watch_state" where
  "watch_step (relisting, ks) Init = ([], ks)"
| "watch_step (relisting, ks) (InitApply object) = (relisting @ [object], ks)"
| "watch_step (relisting, ks) InitDone = ([], index_reset relisting ks)"
| "watch_step (relisting, ks) (Applied object) = (relisting, index_apply object ks)"
| "watch_step (relisting, ks) (Deleted object) = (relisting, index_delete object ks)"
| "watch_step (relisting, ks) WatchError =
     (relisting, ks\<lparr>ks_app := (ks_app ks)\<lparr>app_metrics := (app_metrics (ks_app ks))
        \<lparr>mt_watch_errors := incr (mt_watch_errors (app_metrics (ks_app ks)))\<rparr>\<rparr>\<rparr>)"
| "watch_step (relisting, ks) StreamEnded = ([], ks)"

section \<open>The status writer\<close>

definition MAX_PATCHES_PER_PASS :: nat where
  "MAX_PATCHES_PER_PASS = 200"

text \<open>What one object needs: nothing when it has no namespace or name, or already has the status.\<close>

definition wanted_patch :: "app_state \<Rightarrow> string \<Rightarrow> mac \<Rightarrow> boot_host \<Rightarrow> (string \<times> string \<times> boot_host_status) option" where
  "wanted_patch app now m object =
     (case (om_namespace (bh_metadata object), om_name (bh_metadata object)) of
        (Some ns, Some name) \<Rightarrow>
          (let desired = desired_status (get_host (app_boot app) m) (sp_online (bh_spec object))
                           (claim_id app m) (generation_of object) (bh_status object) now
           in if bh_status object = Some desired then None else Some (ns, name, desired))
      | _ \<Rightarrow> None)"

definition count_status :: "bool \<Rightarrow> app_state \<Rightarrow> app_state" where
  "count_status ok s =
     s\<lparr>app_metrics :=
        (if ok then (app_metrics s)\<lparr>mt_status_writes := incr (mt_status_writes (app_metrics s))\<rparr>
         else (app_metrics s)\<lparr>mt_status_write_failures := incr (mt_status_write_failures (app_metrics s))\<rparr>)\<rparr>"

text \<open>The loop over the snapshot of the index: \<open>patch\<close> is the outcome of each request; the requests
  are returned in order beside the number that succeeded.\<close>

fun reconcile_loop ::
  "(string \<Rightarrow> string \<Rightarrow> boot_host_status \<Rightarrow> bool) \<Rightarrow> string \<Rightarrow> (mac \<times> boot_host) list \<Rightarrow> nat \<Rightarrow> kube_state
     \<Rightarrow> kube_state \<times> nat \<times> (string \<times> string \<times> boot_host_status) list" where
  "reconcile_loop patch now [] written ks = (ks, written, [])"
| "reconcile_loop patch now ((m, object) # rest) written ks =
     (if MAX_PATCHES_PER_PASS \<le> written then (ks, written, [])
      else (case wanted_patch (ks_app ks) now m object of
              None \<Rightarrow> reconcile_loop patch now rest written ks
            | Some (ns, name, desired) \<Rightarrow>
                (let ok = patch ns name desired;
                     ks1 = ks\<lparr>ks_app := count_status ok (ks_app ks)\<rparr>;
                     ks2 = (if ok then note_status m desired ks1 else ks1);
                     (ks', n, reqs) = reconcile_loop patch now rest (if ok then Suc written else written) ks2
                 in (ks', n, (ns, name, desired) # reqs))))"

definition reconcile_status ::
  "(string \<Rightarrow> string \<Rightarrow> boot_host_status \<Rightarrow> bool) \<Rightarrow> string \<Rightarrow> kube_state
     \<Rightarrow> kube_state \<times> nat \<times> (string \<times> string \<times> boot_host_status) list" where
  "reconcile_status patch now ks = reconcile_loop patch now (ks_index ks) 0 ks"

section \<open>The index and the records agree\<close>

definition kube_records :: "kube_state \<Rightarrow> mac \<Rightarrow> host_record option" where
  "kube_records ks = kube_layer (app_hosts (ks_app ks))"

definition coherent :: "kube_state \<Rightarrow> bool" where
  "coherent ks \<longleftrightarrow> hm_wf (ks_index ks)
     \<and> kube_records ks = (\<lambda>m. Option.bind (map_of (ks_index ks) m) to_record)
     \<and> (\<forall>m. map_of (ks_index ks) m \<noteq> None \<longrightarrow> kube_records ks m \<noteq> None)"

lemma kube_records_on_hosts:
  "kube_layer (app_hosts (on_hosts (set_kube_records rs) s)) = map_of (rev (map (\<lambda>r. (hr_mac r, r)) rs))"
  "kube_layer (app_hosts (on_hosts (apply_kube_record r) s)) = (kube_layer (app_hosts s))(hr_mac r \<mapsto> r)"
  "kube_layer (app_hosts (on_hosts (remove_kube_record m) s)) = (kube_layer (app_hosts s))(m := None)"
  by (simp_all add: on_hosts_def hosts.over_replace hosts.over_put hosts.over_del)

lemma coherent_apply [wf_intros]: "coherent ks \<Longrightarrow> coherent (index_apply object ks)"
  by (auto simp: coherent_def index_apply_def kube_records_def kube_records_on_hosts update_conv' hm.wf_put
      fun_eq_iff split: option.split)

lemma coherent_delete [wf_intros]: "coherent ks \<Longrightarrow> coherent (index_delete object ks)"
  by (auto simp: coherent_def index_delete_def kube_records_def kube_records_on_hosts delete_conv' hm.wf_del
      fun_eq_iff split: option.split)

lemma map_of_pairs:
  "map_of (map (\<lambda>r. (hr_mac r, r)) (map fst pairs)) m =
    map_option fst (find (\<lambda>(r, o1). hr_mac r = m) pairs)"
  "map_of (map (\<lambda>(r, o1). (hr_mac r, o1)) pairs) m = map_option snd (find (\<lambda>(r, o1). hr_mac r = m) pairs)"
  by (induction pairs) auto

lemma coherent_reset [wf_intros]: "coherent (index_reset objects ks)"
proof -
  define ps where "ps = rev (List.map_filter (\<lambda>o1. map_option (\<lambda>r. (r, o1)) (to_record o1)) objects)"
  have pairs: "List.map_filter (\<lambda>o1. map_option (\<lambda>r. (r, o1)) (to_record o1)) objects = rev ps"
    by (simp add: ps_def)
  have rec: "to_record o1 = Some r" if "(r, o1) \<in> set ps" for r o1
    using that by (auto simp: ps_def map_filter_def)
  have idx: "map_of (ks_index (index_reset objects ks)) m = map_option snd (find (\<lambda>(r, o1). hr_mac r = m) ps)" for m
    by (simp add: index_reset_def Let_def pairs map_of_collect rev_map [symmetric] map_of_pairs)
  have kube: "kube_records (index_reset objects ks) m = map_option fst (find (\<lambda>(r, o1). hr_mac r = m) ps)" for m
    unfolding index_reset_def Let_def pairs kube_records_def kube_state.select_convs kube_records_on_hosts
    by (simp only: rev_map [symmetric] rev_rev_ident map_of_pairs)
  have "find (\<lambda>(r, o1). hr_mac r = m) ps = Some (r, o1) \<Longrightarrow> to_record o1 = Some r" for m r o1
    by (metis find_Some_iff nth_mem rec)
  then have "Option.bind (map_of (ks_index (index_reset objects ks)) m) to_record = kube_records (index_reset objects ks) m" for m
    unfolding idx kube by (cases "find (\<lambda>(r, o1). hr_mac r = m) ps") auto
  moreover have "hm_wf (ks_index (index_reset objects ks))"
    by (simp add: index_reset_def Let_def hm_wf_collect)
  ultimately show ?thesis
    by (auto simp: coherent_def fun_eq_iff idx kube)
qed

lemma coherent_note [wf_intros]: "coherent ks \<Longrightarrow> coherent (note_status m st ks)"
  by (auto simp: coherent_def note_status_def kube_records_def update_conv' hm.wf_put fun_eq_iff
      split: option.splits if_splits)

lemma coherent_app [wf_intros]:
  assumes "coherent ks" "kube_layer (app_hosts s) = kube_records ks"
  shows "coherent (ks\<lparr>ks_app := s\<rparr>)"
proof -
  have *: "kube_records (ks\<lparr>ks_app := s\<rparr>) = kube_records ks" "ks_index (ks\<lparr>ks_app := s\<rparr>) = ks_index ks"
    using assms(2) by (simp_all add: kube_records_def)
  show ?thesis using assms(1) unfolding coherent_def * .
qed

lemma coherent_watch: "coherent ks \<Longrightarrow> coherent (snd (watch_step (relisting, ks) e))"
  by (cases e) (auto intro!: wf_intros simp: kube_records_def)

interpretation watch: invariant_system watch_step "\<lambda>ws :: watch_state. coherent (snd ws)"
proof
  fix ws :: watch_state and e assume "coherent (snd ws)"
  then show "coherent (snd (watch_step ws e))" by (cases ws) (simp add: coherent_watch)
qed

section \<open>Properties\<close>

lemma coherent_start: "coherent \<lparr>ks_index = [], ks_app = app_new cfg \<lparr>st_path = p, st_loaded = loaded_default\<rparr> client assets\<rparr>"
  by (simp add: coherent_def hm_wf_def kube_records_def app_new_def loaded_default_def fun_eq_iff)

text \<open>After every history of watch events the cluster layer of the host records is the index read
  through \<open>to_record\<close>: the boot path and the status writer see the same objects.\<close>

theorem index_and_records_agree:
  "kube_records (snd (foldl watch_step
      ([], \<lparr>ks_index = [], ks_app = app_new cfg \<lparr>st_path = p, st_loaded = loaded_default\<rparr> client assets\<rparr>) es)) =
   (\<lambda>m. Option.bind (map_of (ks_index (snd (foldl watch_step
      ([], \<lparr>ks_index = [], ks_app = app_new cfg \<lparr>st_path = p, st_loaded = loaded_default\<rparr> client assets\<rparr>) es))) m) to_record)"
proof -
  have "coherent (snd (foldl watch_step
      ([], \<lparr>ks_index = [], ks_app = app_new cfg \<lparr>st_path = p, st_loaded = loaded_default\<rparr> client assets\<rparr>) es))"
    by (rule watch.inv_run) (simp add: coherent_start)
  then show ?thesis by (simp add: coherent_def)
qed

lemma relist_run:
  "foldl watch_step (buf, ks) (map InitApply objects) = (buf @ objects, ks)"
  by (induction objects arbitrary: buf) auto

text \<open>A completed relist erases the past: whatever was missed, duplicated or half done before it, the
  index and the cluster layer are those of the objects listed.\<close>

theorem relist_heals:
  "ks_index (snd (foldl watch_step ws (Init # map InitApply objects @ [InitDone]))) =
     ks_index (snd (foldl watch_step ws' (Init # map InitApply objects @ [InitDone])))
   \<and> kube_records (snd (foldl watch_step ws (Init # map InitApply objects @ [InitDone]))) =
       kube_records (snd (foldl watch_step ws' (Init # map InitApply objects @ [InitDone])))"
  by (cases ws; cases ws')
    (simp add: relist_run index_reset_def Let_def kube_records_def kube_records_on_hosts)

lemma wanted_quiet: "wanted_patch app now m ob = None \<Longrightarrow> wanted_patch app now' m ob = None"
proof -
  assume none: "wanted_patch app now m ob = None"
  let ?d = "desired_status (get_host (app_boot app) m) (sp_online (bh_spec ob)) (claim_id app m) (generation_of ob)"
  have "bh_status ob = Some (?d (bh_status ob) now')" if "bh_status ob = Some (?d (bh_status ob) now)"
    using desired_stable [of "get_host (app_boot app) m" "sp_online (bh_spec ob)" "claim_id app m" "generation_of ob"
        "bh_status ob" now now'] that by metis
  with none show ?thesis by (auto simp: wanted_patch_def Let_def split: option.splits if_splits)
qed

lemma wanted_noted:
  "wanted_patch app now m ob = Some (ns, n, d) \<Longrightarrow> wanted_patch app now' m (ob\<lparr>bh_status := Some d\<rparr>) = None"
  by (auto simp: wanted_patch_def Let_def generation_of_def desired_stable split: option.splits if_splits)

lemma wanted_count [simp]: "wanted_patch (count_status ok app) = wanted_patch app"
  by (simp add: fun_eq_iff wanted_patch_def count_status_def get_host_def claim_id_def split: option.split)

lemma note_status_map:
  "map_of (ks_index (note_status m d ks)) k =
    (if k = m then map_option (\<lambda>ob. ob\<lparr>bh_status := Some d\<rparr>) (map_of (ks_index ks) m) else map_of (ks_index ks) k)"
  by (simp add: note_status_def update_conv' split: option.split)

lemma note_status_app [simp]: "ks_app (note_status m d ks) = ks_app ks"
  by (simp add: note_status_def split: option.split)

lemma note_status_hm_wf: "hm_wf (ks_index ks) \<Longrightarrow> hm_wf (ks_index (note_status m d ks))"
  by (simp add: note_status_def hm.wf_put split: option.split)

section \<open>Passes of the status writer\<close>

lemma reconcile_quiet:
  "\<forall>(m, ob) \<in> set l. wanted_patch (ks_app ks) now m ob = None \<Longrightarrow>
    reconcile_loop patch now l written ks = (ks, written, [])"
  by (induction l) auto

text \<open>One turn of the loop, by the outcome of its object.\<close>

lemma reconcile_turn:
  assumes "\<not> MAX_PATCHES_PER_PASS \<le> written"
  shows "wanted_patch (ks_app ks) now m ob = None \<Longrightarrow>
      reconcile_loop patch now ((m, ob) # l) written ks = reconcile_loop patch now l written ks"
    and "wanted_patch (ks_app ks) now m ob = Some (ns, name, d) \<Longrightarrow> patch ns name d \<Longrightarrow>
      reconcile_loop patch now ((m, ob) # l) written ks =
        map_prod id (map_prod id ((#) (ns, name, d)))
          (reconcile_loop patch now l (Suc written) (note_status m d (ks\<lparr>ks_app := count_status True (ks_app ks)\<rparr>)))"
    and "wanted_patch (ks_app ks) now m ob = Some (ns, name, d) \<Longrightarrow> \<not> patch ns name d \<Longrightarrow>
      reconcile_loop patch now ((m, ob) # l) written ks =
        map_prod id (map_prod id ((#) (ns, name, d)))
          (reconcile_loop patch now l written (ks\<lparr>ks_app := count_status False (ks_app ks)\<rparr>))"
  using assms by (auto simp: Let_def split: prod.split)

lemma reconcile_capped:
  "written \<le> MAX_PATCHES_PER_PASS \<Longrightarrow>
    fst (snd (reconcile_loop patch now l written ks)) \<le> MAX_PATCHES_PER_PASS
    \<and> fst (snd (reconcile_loop patch now l written ks)) =
       written + length (filter (\<lambda>(ns, name, d). patch ns name d) (snd (snd (reconcile_loop patch now l written ks))))"
proof (induction l arbitrary: written ks)
  case (Cons mo l)
  obtain m ob where mo: "mo = (m, ob)" by (cases mo)
  show ?case
  proof (cases "MAX_PATCHES_PER_PASS \<le> written")
    case True
    with Cons.prems show ?thesis by (simp add: mo)
  next
    case False
    then have lt: "Suc written \<le> MAX_PATCHES_PER_PASS" by simp
    show ?thesis
    proof (cases "wanted_patch (ks_app ks) now m ob")
      case None
      show ?thesis unfolding mo reconcile_turn(1) [OF False None] by (rule Cons.IH [OF Cons.prems])
    next
      case (Some w)
      obtain ns name d where w: "w = (ns, name, d)" by (cases w)
      show ?thesis
        using Cons.IH [OF lt, of "note_status m d (ks\<lparr>ks_app := count_status True (ks_app ks)\<rparr>)"]
          Cons.IH [OF Cons.prems, of "ks\<lparr>ks_app := count_status False (ks_app ks)\<rparr>"]
          reconcile_turn(2,3) [OF False Some [unfolded w], of patch l]
        by (cases "patch ns name d") (simp_all add: mo del: reconcile_loop.simps)
    qed
  qed
qed simp

text \<open>A pass writes at most its cap, and what it reports is the number of patches that succeeded.\<close>

theorem pass_is_capped:
  "fst (snd (reconcile_status patch now ks)) \<le> 200
   \<and> fst (snd (reconcile_status patch now ks)) =
       length (filter (\<lambda>(ns, name, d). patch ns name d) (snd (snd (reconcile_status patch now ks))))"
  using reconcile_capped [of 0 patch now "ks_index ks" ks]
  by (simp add: reconcile_status_def MAX_PATCHES_PER_PASS_def)

text \<open>The cap counts successes only: while the apiserver refuses every patch, one pass sends a request
  for every object whose status differs, however many there are.\<close>

theorem failures_are_not_capped:
  "snd (snd (reconcile_status (\<lambda>_ _ _. False) now ks)) =
    List.map_filter (\<lambda>(m, ob). wanted_patch (ks_app ks) now m ob) (ks_index ks)"
proof -
  have lt: "\<not> MAX_PATCHES_PER_PASS \<le> 0" by (simp add: MAX_PATCHES_PER_PASS_def)
  have "snd (snd (reconcile_loop (\<lambda>_ _ _. False) now l 0 ks')) =
      List.map_filter (\<lambda>(m, ob). wanted_patch (ks_app ks) now m ob) l"
    if "wanted_patch (ks_app ks') = wanted_patch (ks_app ks)" for l ks'
    using that
  proof (induction l arbitrary: ks')
    case (Cons mo l)
    obtain m ob where mo: "mo = (m, ob)" by (cases mo)
    show ?case
    proof (cases "wanted_patch (ks_app ks') now m ob")
      case None
      show ?thesis
        using Cons.IH [OF Cons.prems] Cons.prems None
        unfolding mo reconcile_turn(1) [OF lt None] by (simp add: map_filter_simps)
    next
      case (Some w)
      obtain ns name d where w: "w = (ns, name, d)" by (cases w)
      show ?thesis
        using Cons.IH [of "ks'\<lparr>ks_app := count_status False (ks_app ks')\<rparr>"] Cons.prems Some
        by (simp add: mo w map_filter_simps reconcile_turn(3) [OF lt Some [unfolded w]] del: reconcile_loop.simps)
    qed
  qed (simp add: map_filter_simps)
  then show ?thesis by (simp add: reconcile_status_def)
qed

section \<open>The status writer over many passes\<close>

text \<open>The loop of the writer: one pass after the other, each at its time and with its outcomes.\<close>

definition status_writer ::
  "((string \<Rightarrow> string \<Rightarrow> boot_host_status \<Rightarrow> bool) \<times> string) list \<Rightarrow> kube_state \<Rightarrow> kube_state" where
  "status_writer passes ks = foldl (\<lambda>ks (patch, now). fst (reconcile_status patch now ks)) ks passes"

text \<open>The machines whose object does not say what it should.\<close>

definition behind :: "kube_state \<Rightarrow> mac set" where
  "behind ks = {m. \<exists>ob. map_of (ks_index ks) m = Some ob \<and> wanted_patch (ks_app ks) [] m ob \<noteq> None}"

lemma wanted_any_time: "(wanted_patch app now m ob = None) = (wanted_patch app now' m ob = None)"
  using wanted_quiet by blast

lemma behind_bound: "finite (behind ks)" "card (behind ks) \<le> length (ks_index ks)"
proof -
  have "behind ks \<subseteq> fst ` set (ks_index ks)" by (auto simp: behind_def dest!: map_of_SomeD intro: rev_image_eqI)
  moreover from this have "card (behind ks) \<le> card (fst ` set (ks_index ks))" by (simp add: card_mono)
  moreover have "card (fst ` set (ks_index ks)) \<le> length (ks_index ks)"
    using card_length [of "map fst (ks_index ks)"] by simp
  ultimately show "finite (behind ks)" "card (behind ks) \<le> length (ks_index ks)"
    by (auto intro: finite_subset)
qed

text \<open>A patch that is accepted takes its machine out of them, and no other.\<close>

lemma behind_noted:
  assumes "map_of (ks_index ks) m = Some ob" "wanted_patch (ks_app ks) now m ob = Some (ns, name, d)"
  shows "behind (note_status m d (ks\<lparr>ks_app := count_status True (ks_app ks)\<rparr>)) = behind ks - {m}" "m \<in> behind ks"
  using assms wanted_noted [OF assms(2), of "[]"] wanted_any_time [of "ks_app ks" "[]" m ob now]
  by (auto simp: behind_def note_status_map)

lemma reconcile_progress:
  "reconcile_loop (\<lambda>_ _ _. True) now l written ks = (ks', n, reqs) \<Longrightarrow> distinct (map fst l) \<Longrightarrow>
    \<forall>(m, ob) \<in> set l. map_of (ks_index ks) m = Some ob \<Longrightarrow> written \<le> MAX_PATCHES_PER_PASS \<Longrightarrow> hm_wf (ks_index ks) \<Longrightarrow>
    hm_wf (ks_index ks') \<and> behind ks' \<subseteq> behind ks
    \<and> card (behind ks') + n = card (behind ks) + written
    \<and> (n = MAX_PATCHES_PER_PASS \<or> behind ks' \<inter> fst ` set l = {})"
proof (induction l arbitrary: written ks n reqs)
  case (Cons mo l)
  obtain m ob where mo: "mo = (m, ob)" by (cases mo)
  have m: "map_of (ks_index ks) m = Some ob" "m \<notin> fst ` set l" using Cons.prems(2,3) mo by auto
  show ?case
  proof (cases "MAX_PATCHES_PER_PASS \<le> written")
    case True
    with Cons.prems mo show ?thesis by simp
  next
    case lt: False
    show ?thesis
    proof (cases "wanted_patch (ks_app ks) now m ob")
      case None
      then have "m \<notin> behind ks" using m(1) wanted_any_time [of "ks_app ks" "[]" m ob now] by (simp add: behind_def)
      moreover have run: "reconcile_loop (\<lambda>_ _ _. True) now l written ks = (ks', n, reqs)"
        using Cons.prems(1) reconcile_turn(1) [OF lt None] by (simp add: mo)
      ultimately show ?thesis using Cons.IH [OF run] Cons.prems(2-5) mo by auto
    next
      case (Some w)
      obtain ns name d where w: "w = (ns, name, d)" by (cases w)
      let ?ks = "note_status m d (ks\<lparr>ks_app := count_status True (ks_app ks)\<rparr>)"
      obtain reqs2 where run: "reconcile_loop (\<lambda>_ _ _. True) now l (Suc written) ?ks = (ks', n, reqs2)"
        using Cons.prems(1) reconcile_turn(2) [OF lt Some [unfolded w], of "\<lambda>_ _ _. True" l]
        by (cases "reconcile_loop (\<lambda>_ _ _. True) now l (Suc written) ?ks")
          (simp add: mo del: reconcile_loop.simps)
      have keep: "\<forall>(k, ob') \<in> set l. map_of (ks_index ?ks) k = Some ob'"
        using Cons.prems(3) mo m(2) by (auto simp: note_status_map rev_image_eqI)
      have wf: "hm_wf (ks_index ?ks)" using Cons.prems(5) by (simp add: note_status_hm_wf)
      note b = behind_noted [OF m(1) Some [unfolded w]]
      have card: "card (behind ks) = Suc (card (behind ?ks))"
        unfolding b(1) by (rule card.remove [OF behind_bound(1) b(2)])
      have "distinct (map fst l)" "Suc written \<le> MAX_PATCHES_PER_PASS" using Cons.prems(2) lt mo by auto
      note ih = Cons.IH [OF run this(1) keep this(2) wf]
      then have "behind ks' \<subseteq> behind ks - {m}" using b(1) by blast
      then have "behind ks' \<subseteq> behind ks" "m \<notin> behind ks'" by auto
      moreover have "card (behind ks') + n = card (behind ks) + written" using ih card by simp
      ultimately show ?thesis using ih mo by simp
    qed
  qed
qed simp

text \<open>A pass gets as many machines up to date as its cap allows.\<close>

lemma pass_progress:
  assumes "hm_wf (ks_index ks)" "reconcile_status (\<lambda>_ _ _. True) now ks = (ks', n, reqs)"
  shows "hm_wf (ks_index ks')" "card (behind ks') \<le> card (behind ks) - MAX_PATCHES_PER_PASS"
proof -
  have "\<forall>(m, ob) \<in> set (ks_index ks). map_of (ks_index ks) m = Some ob" "distinct (map fst (ks_index ks))"
    using assms(1) by (auto simp: hm_get_in) (simp add: hm_wf_def)
  note p = reconcile_progress [OF assms(2) [unfolded reconcile_status_def] this(2,1) _ assms(1)]
  then show "hm_wf (ks_index ks')" by simp
  have dom: "behind ks \<subseteq> fst ` set (ks_index ks)"
    by (auto simp: behind_def dest!: map_of_SomeD intro: rev_image_eqI)
  have "card (behind ks') = 0" if "behind ks' \<inter> fst ` set (ks_index ks) = {}"
    using that p dom by (metis Int_absorb2 card.empty subset_trans zero_le)
  then show "card (behind ks') \<le> card (behind ks) - MAX_PATCHES_PER_PASS" using p by auto
qed

lemma nobody_behind:
  assumes "behind ks = {}" "hm_wf (ks_index ks)"
  shows "reconcile_status patch now ks = (ks, 0, [])"
proof -
  have "wanted_patch (ks_app ks) now m ob = None" if "(m, ob) \<in> set (ks_index ks)" for m ob
  proof -
    have "map_of (ks_index ks) m = Some ob" using that assms(2) by (simp add: hm_get_in)
    then show ?thesis using assms(1) wanted_any_time [of "ks_app ks" "[]" m ob now] by (auto simp: behind_def)
  qed
  then show ?thesis unfolding reconcile_status_def by (intro reconcile_quiet) auto
qed

lemma passes_progress:
  assumes "hm_wf (ks_index ks)" "\<forall>(patch, now) \<in> set passes. patch = (\<lambda>_ _ _. True)"
  shows "hm_wf (ks_index (status_writer passes ks))
    \<and> card (behind (status_writer passes ks)) \<le> card (behind ks) - MAX_PATCHES_PER_PASS * length passes"
  using assms
proof (induction passes arbitrary: ks)
  case (Cons p passes)
  obtain now where p: "p = ((\<lambda>_ _ _. True), now)" using Cons.prems(2) by (cases p) auto
  obtain ks1 n reqs where r: "reconcile_status (\<lambda>_ _ _. True) now ks = (ks1, n, reqs)" by (rule prod_cases3)
  note one = pass_progress [OF Cons.prems(1) r]
  have "status_writer (p # passes) ks = status_writer passes ks1" by (simp add: status_writer_def p r)
  with Cons.IH [OF one(1)] Cons.prems(2) one(2) show ?case by auto
qed (simp add: status_writer_def)

text \<open>The writer converges: when every patch of a pass over at most a cap's worth of objects is accepted
  and nothing new is observed, the next pass, at any time, sends nothing.\<close>

theorem pass_converges:
  assumes "hm_wf (ks_index ks)" "length (ks_index ks) \<le> MAX_PATCHES_PER_PASS"
    and "reconcile_status (\<lambda>_ _ _. True) now ks = (ks', n, reqs)"
  shows "reconcile_status patch' now' ks' = (ks', 0, [])"
proof -
  have "card (behind ks') = 0" using pass_progress(2) [OF assms(1,3)] behind_bound(2) [of ks] assms(2) by simp
  then have "behind ks' = {}" using behind_bound(1) by simp
  then show ?thesis using pass_progress(1) [OF assms(1,3)] by (rule nobody_behind)
qed

lemma nobody_left:
  assumes "hm_wf (ks_index ks)" "\<forall>(patch, now) \<in> set passes. patch = (\<lambda>_ _ _. True)"
    and "length (ks_index ks) \<le> MAX_PATCHES_PER_PASS * length passes"
  shows "behind (status_writer passes ks) = {}" "hm_wf (ks_index (status_writer passes ks))"
proof -
  have "card (behind (status_writer passes ks)) = 0"
    using passes_progress [OF assms(1,2)] behind_bound(2) [of ks] assms(3) by simp
  then show "behind (status_writer passes ks) = {}" using behind_bound(1) by simp
qed (use passes_progress [OF assms(1,2)] in simp)


definition demo_object :: boot_host where
  "demo_object =
     \<lparr>bh_metadata = \<lparr>om_name = Some ''node7'', om_namespace = Some ''storm'', om_generation = Some 3\<rparr>,
      bh_spec = \<lparr>sp_boot_mac_address = ''aa-bb-cc-dd-ee-ff'', sp_hostname = None, sp_role = None, sp_stack = None,
        sp_portal = None, sp_extra_cmdline = None, sp_online = True\<rparr>,
      bh_status = None\<rparr>"

definition demo_kube :: kube_state where
  "demo_kube = \<lparr>ks_index = [(Mac 1 2 3 4 5 6, demo_object)], ks_app = demo_app\<rparr>"

theorem pass_converges_witness:
  "reconcile_status (\<lambda>_ _ _. False) ''t2'' (fst (reconcile_status (\<lambda>_ _ _. True) ''t1'' demo_kube)) =
    (fst (reconcile_status (\<lambda>_ _ _. True) ''t1'' demo_kube), 0, [])"
proof (rule pass_converges)
  show "hm_wf (ks_index demo_kube)" "length (ks_index demo_kube) \<le> MAX_PATCHES_PER_PASS"
    by (simp_all add: demo_kube_def hm_wf_def MAX_PATCHES_PER_PASS_def)
  show "reconcile_status (\<lambda>_ _ _. True) ''t1'' demo_kube =
    (fst (reconcile_status (\<lambda>_ _ _. True) ''t1'' demo_kube),
     fst (snd (reconcile_status (\<lambda>_ _ _. True) ''t1'' demo_kube)),
     snd (snd (reconcile_status (\<lambda>_ _ _. True) ''t1'' demo_kube)))"
    by simp
qed


text \<open>Objects are kept by address, so deleting one of two objects that name the same machine takes the
  record of the other with it, until the next relist.\<close>

lemma delete_takes_the_survivor:
  assumes "to_record a = Some ra" "to_record b = Some rb" "hr_mac ra = hr_mac rb"
  shows "kube_records (snd (foldl watch_step ws [Applied a, Applied b, Deleted a])) (hr_mac rb) = None"
  using assms by (cases ws) (simp add: index_apply_def index_delete_def kube_records_def kube_records_on_hosts)

text \<open>An edit of an object's address leaves the record of the old address, until the next relist.\<close>

lemma moved_address_leaves_record:
  assumes "to_record a = Some ra" "to_record a' = Some ra'" "hr_mac ra \<noteq> hr_mac ra'"
  shows "kube_records (snd (foldl watch_step ws [Applied a, Applied a'])) (hr_mac ra) = Some ra"
  using assms by (cases ws) (simp add: index_apply_def kube_records_def kube_records_on_hosts)

end
