(* ===== verification/Journey.thy ===== *)
theory Journey
  imports Handshake Kube_Store
begin

text \<open>
  One machine from its first request to its resource in the cluster. The initramfs posts what it
  reports as HTTP requests written by hand; the server reads each, and its tracker holds the
  furthest phase it heard of; the status writer puts that into the machine's \<open>BootHost\<close>. The
  requests may arrive late, twice or in another order, or not at all. Shown here: exactly the
  reports a boot makes are posted where the network takes them, the server reads what was
  written, it is never ahead of the machine, and a boot that hands over ends as an available
  host in the cluster.
\<close>

section \<open>A report on the wire\<close>

text \<open>The reader of the request: what follows the blank line, field by field.\<close>

definition read_request :: "string \<Rightarrow> report_request option" where
  "read_request txt =
     Option.bind (split_once_str (crlf @ crlf) txt) (\<lambda>(before, body).
       map_option (\<lambda>(m, ph, d). \<lparr>rq_mac = m, rq_phase = ph, rq_detail = d\<rparr>) (read_body body))"

text \<open>A text whose blank line is followed by a body.\<close>

definition ends_in :: "string \<Rightarrow> string \<Rightarrow> bool" where
  "ends_in body txt \<longleftrightarrow> (\<exists>before. split_once_str (crlf @ crlf) txt = Some (before, body))"

lemma blank_line_after: "CR \<notin> set l \<Longrightarrow> ends_in body (l @ crlf @ crlf @ body)"
  using split_once_skip [of CR l "[LF, CR, LF]" "crlf @ crlf @ body"]
  by (simp add: ends_in_def crlf_def starts_with_def)

lemma line_before:
  assumes "ends_in body t" "CR \<notin> set l" "t \<noteq> []" "hd t \<noteq> CR"
  shows "ends_in body (l @ crlf @ t)"
proof -
  from assms(3) obtain x rest where t: "t = x # rest" by (cases t) auto
  note assms = assms(1) [unfolded t] assms(2) assms(4) [unfolded t list.sel]
  obtain before where b: "split_once_str [CR, LF, CR, LF] (x # rest) = Some (before, body)"
    using assms(1) by (auto simp: ends_in_def crlf_def)
  have "\<not> starts_with [CR, LF, CR, LF] (CR # LF # x # rest)" "\<not> starts_with [CR, LF, CR, LF] (LF # x # rest)"
    using assms(3) by (simp_all add: starts_with_def)
  then have "split_once_str [CR, LF, CR, LF] (CR # LF # x # rest) = Some (CR # LF # before, body)"
    using b by (simp del: split_once_str.simps add: split_once_str.simps(2) [of _ CR] split_once_str.simps(2) [of _ LF])
  then show ?thesis
    using split_once_skip [OF assms(2), of "[LF, CR, LF]" "CR # LF # x # rest"] by (simp add: ends_in_def crlf_def t)
qed

lemma headers_end_in:
  assumes "CR \<notin> set target" "CR \<notin> set host"
  shows "ends_in body (target @ crlf @ (''Host: '' @ host) @ crlf @ ''Content-Type: application/json'' @ crlf
    @ (''Content-Length: '' @ show_nat (length body)) @ crlf @ ''Connection: close'' @ crlf @ crlf @ body)"
    (is "ends_in body (target @ crlf @ ?l1)")
proof -
  have num: "CR \<notin> set (show_nat n)" for n using show_nat_digits [of CR n] by (auto simp: is_digit_def)
  let ?l4 = "''Connection: close'' @ crlf @ crlf @ body"
  let ?l3 = "(''Content-Length: '' @ show_nat (length body)) @ crlf @ ?l4"
  let ?l2 = "''Content-Type: application/json'' @ crlf @ ?l3"
  have "ends_in body ?l4" by (rule blank_line_after) simp
  then have "ends_in body ?l3" by (rule line_before) (use num in simp_all)
  then have "ends_in body ?l2" by (rule line_before) simp_all
  then have "ends_in body ?l1" by (rule line_before) (use assms in simp_all)
  then show ?thesis by (rule line_before) (use assms in simp_all)
qed

lemma request_ends_in: "CR \<notin> set host \<Longrightarrow> ends_in body (request_text host body)"
  using headers_end_in [of "''POST /api/v1/report HTTP/1.1''" host body]
  by (simp only: request_text_def append_assoc) simp

text \<open>Whatever the host, short of a line break, the server reads what was put into the body.\<close>

lemma read_request_text:
  assumes "CR \<notin> set host"
  shows "read_request (request_text host (build_body m ph d)) =
    Some \<lparr>rq_mac = blank_controls m, rq_phase = blank_controls ph, rq_detail = map_option blank_controls d\<rparr>"
  using request_ends_in [OF assms, of "build_body m ph d"]
  by (auto simp: read_request_def ends_in_def) (simp add: body_read)

section \<open>What a boot posts\<close>

text \<open>The reports made and the requests sent, in order, and the request a report is sent as.\<close>

definition said :: "trace \<Rightarrow> (string \<times> string option) list" where
  "said tr = List.map_filter (\<lambda>a. case a of PhaseReport ph d \<Rightarrow> Some (ph, d) | _ \<Rightarrow> None) tr"

definition posted :: "trace \<Rightarrow> string list" where
  "posted tr = List.map_filter (\<lambda>a. case a of Posted addr txt \<Rightarrow> Some txt | _ \<Rightarrow> None) tr"

definition wire_text :: "reporter \<Rightarrow> string \<times> string option \<Rightarrow> string option" where
  "wire_text rp = (\<lambda>(ph, d).
     case (rp_url rp, rp_mac rp) of
       (Some url, Some m) \<Rightarrow>
         (case split_url url of
            Inl _ \<Rightarrow> None
          | Inr (_, host) \<Rightarrow> Some (request_text host (build_body m ph d)))
     | _ \<Rightarrow> None)"

definition on_wire :: "reporter \<Rightarrow> trace \<Rightarrow> string set" where
  "on_wire rp tr = {txt. \<exists>r \<in> set (said tr). wire_text rp r = Some txt}"

definition takes_posts :: "world \<Rightarrow> reporter \<Rightarrow> bool" where
  "takes_posts w rp \<longleftrightarrow> (\<forall>tr ph d. \<exists>sent. try_post (wd_net w tr) rp ph d = Inr (Some sent))"

text \<open>Only reports are posted, and all of them where the network takes every post.\<close>

definition voiced :: "world \<Rightarrow> reporter \<Rightarrow> trace \<Rightarrow> bool" where
  "voiced w rp new \<longleftrightarrow> set (posted new) \<subseteq> on_wire rp new
     \<and> (takes_posts w rp \<longrightarrow> on_wire rp new \<subseteq> set (posted new))"

definition speaks :: "world \<Rightarrow> reporter \<Rightarrow> 'a io \<Rightarrow> bool" where
  "speaks w rp m \<longleftrightarrow> (\<forall>tr. \<exists>new. fst (m tr) = tr @ new \<and> voiced w rp new)"

named_theorems speech "steps that post what they report"

lemma said_posted_simps [simp]:
  "said [] = []" "said (a @ b) = said a @ said b" "posted [] = []" "posted (a @ b) = posted a @ posted b"
  "said (PhaseReport ph d # tr) = (ph, d) # said tr" "posted (PhaseReport ph d # tr) = posted tr"
  "said (Posted addr txt # tr) = said tr" "posted (Posted addr txt # tr) = txt # posted tr"
  "said (Eprint e # tr) = said tr" "posted (Eprint e # tr) = posted tr"
  by (simp_all add: said_def posted_def map_filter_def)

lemma phases_said: "phases tr = map fst (said tr)"
  by (induction tr) (auto simp: phases_def said_def map_filter_def split: action.splits)

lemma unspoken: "list_all (\<lambda>a. \<not> report_action a) new \<Longrightarrow> said new = [] \<and> posted new = []"
  by (induction new) (auto simp: said_def posted_def map_filter_def report_action_def split: action.splits)

lemma voiced_append: "voiced w rp a \<Longrightarrow> voiced w rp b \<Longrightarrow> voiced w rp (a @ b)"
  by (auto simp: voiced_def on_wire_def)

lemma speaks_silent: "plain (\<lambda>a. \<not> report_action a) m \<Longrightarrow> speaks w rp m"
  unfolding speaks_def
proof
  fix tr assume "plain (\<lambda>a. \<not> report_action a) m"
  then obtain new where "fst (m tr) = tr @ new" "list_all (\<lambda>a. \<not> report_action a) new" unfolding plain_def by blast
  then show "\<exists>new. fst (m tr) = tr @ new \<and> voiced w rp new" by (auto simp: unspoken voiced_def on_wire_def)
qed

lemma speaks_bind [speech]:
  assumes "speaks w rp m" "\<And>x. speaks w rp (f x)"
  shows "speaks w rp (bind_io m f)"
  unfolding speaks_def
proof
  fix tr
  obtain tr1 r where m: "m tr = (tr1, r)" by (rule prod.exhaust)
  obtain new where n: "tr1 = tr @ new" "voiced w rp new" using assms(1) m unfolding speaks_def by (metis fst_conv)
  show "\<exists>new. fst (bind_io m f tr) = tr @ new \<and> voiced w rp new"
  proof (cases r)
    case (Inr x)
    obtain new2 where "fst (f x tr1) = tr1 @ new2" "voiced w rp new2" using assms(2) unfolding speaks_def by metis
    then show ?thesis using m n Inr voiced_append [OF n(2)] by (auto simp: bind_io_def)
  qed (use m n in \<open>simp add: bind_io_def\<close>)
qed

lemma speaks_stop [speech]: "speaks w rp (stop_io e)" "speaks w rp (return_io x)"
  by (simp_all add: speaks_def voiced_def on_wire_def io_defs)

lemma speaks_then [speech]: "speaks w rp m \<Longrightarrow> speaks w rp m' \<Longrightarrow> speaks w rp (then_io m m')"
  unfolding then_io_def by (rule speaks_bind)

lemma speaks_each [speech]: "(\<And>x. speaks w rp (f x)) \<Longrightarrow> speaks w rp (each_io f xs)"
  by (induction xs) (auto intro: speech)

lemma speaks_report [speech]: "speaks w rp (reporter_phase w rp ph d)"
  unfolding speaks_def
proof
  fix tr
  let ?tr = "tr @ [PhaseReport ph d]"
  have sent: "try_post nw rp ph d = Inr (Some (addr, req)) \<Longrightarrow> wire_text rp (ph, d) = Some req" for nw addr req
    by (auto simp: try_post_def wire_text_def Let_def split: option.splits sum.splits prod.splits list.splits if_splits)
  show "\<exists>new. fst (reporter_phase w rp ph d tr) = tr @ new \<and> voiced w rp new"
  proof (cases "try_post (wd_net w ?tr) rp ph d")
    case (Inl e)
    then have "\<not> takes_posts w rp" unfolding takes_posts_def by (metis Inr_Inl_False)
    then show ?thesis using Inl
      by (auto simp: reporter_phase_def then_io_def bind_io_def io_defs voiced_def on_wire_def)
  next
    case (Inr x)
    then show ?thesis
    proof (cases x)
      case None
      then have "\<not> takes_posts w rp" using Inr unfolding takes_posts_def by (metis option.distinct(1) sum.inject(2))
      then show ?thesis using Inr None
        by (auto simp: reporter_phase_def then_io_def bind_io_def io_defs voiced_def on_wire_def)
    next
      case (Some y)
      obtain addr req where y: "y = (addr, req)" by (rule prod.exhaust)
      show ?thesis using Inr Some y sent [of "wd_net w ?tr" addr req]
        by (auto simp: reporter_phase_def then_io_def bind_io_def io_defs voiced_def on_wire_def)
    qed
  qed
qed

lemma speaks_cases [speech]:
  "speaks w rp a \<Longrightarrow> speaks w rp b \<Longrightarrow> speaks w rp (if c then a else b)"
  "speaks w rp a \<Longrightarrow> (\<And>x. speaks w rp (f x)) \<Longrightarrow> speaks w rp (case v of None \<Rightarrow> a | Some x \<Rightarrow> f x)"
  "(\<And>e. speaks w rp (f' e)) \<Longrightarrow> (\<And>ok c out. speaks w rp (g ok c out)) \<Longrightarrow>
     speaks w rp (case r of CannotRun e \<Rightarrow> f' e | Exited ok c out \<Rightarrow> g ok c out)"
  "(\<And>y z. speaks w rp (h y z)) \<Longrightarrow> speaks w rp (case q of (y, z) \<Rightarrow> h y z)"
  by (simp_all split: option.split cmd_result.split prod.split)

lemma speaks_run: "speaks w rp (run w p rp)"
proof -
  have quiet: "speaks w rp (act (MediaPass e))" for e
    by (intro speaks_silent plain_act) (simp add: report_action_def)
  have exec: "speaks w rp (exec w prog args env)" if "prog \<noteq> STORMBLOCK" for prog args env
    using that by (intro speaks_silent no_report.plain_exec)
  have stamp: "speaks w rp (stamp w msg)" "speaks w rp (ask f)" "speaks w rp (bail e)" for msg e and f :: "trace \<Rightarrow> 'z"
    unfolding bail_def by (intro speech speaks_silent no_report.plain_quiet plain_rules)+
  have media: "speaks w rp (media_refresh w p rp)"
    unfolding media_refresh_def
    by (intro speech quiet stamp exec speaks_silent plain_basic) (simp add: STORMBLOCK_def)
  have switch: "speaks w rp (switch_root w)"
    unfolding switch_root_def move_mount_def exec_init_def
    by (intro speech stamp exec speaks_silent plain_rules plain_act no_report.plain_quiet) (simp_all add: STORMBLOCK_def)
  have enter: "speaks w rp (enter_root w p rp plan)" for plan
    unfolding enter_root_def announce_flow_over_def
    by (intro speech media switch stamp speaks_silent no_report.plain_root no_report.plain_exports no_report.plain_identity)
  have "speaks w rp (root_source w p)" unfolding root_source_def by (intro speaks_silent plain_rules)
  then show ?thesis
    unfolding run_def Let_def
    by (auto split: sum.split intro!: speech stamp enter speaks_silent [OF no_report.plain_preparation(1)]
        speaks_silent [OF no_report.plain_preparation(2)] speaks_silent [OF no_report.plain_attach])
qed

section \<open>What the server makes of it\<close>

text \<open>The requests as they arrive, each with the clock of the server; \<open>rd\<close> is how the server reads
  one (for the initramfs, \<open>read_request\<close>), \<open>dbg\<close> is the \<open>{:?}\<close> form of a
  string. One that cannot be read does not reach the handler.\<close>

definition receive :: "(string \<Rightarrow> report_request option) \<Rightarrow> (string \<Rightarrow> string) \<Rightarrow> app_state \<Rightarrow> u64 \<times> string \<Rightarrow> app_state" where
  "receive rd dbg s = (\<lambda>(now, request).
     case rd request of None \<Rightarrow> s | Some req \<Rightarrow> fst (report dbg now req s))"

definition deliver :: "(string \<Rightarrow> report_request option) \<Rightarrow> (string \<Rightarrow> string) \<Rightarrow> (u64 \<times> string) list \<Rightarrow> app_state \<Rightarrow> app_state" where
  "deliver rd dbg ds s = foldl (receive rd dbg) s ds"

definition heard :: "(string \<Rightarrow> report_request option) \<Rightarrow> string \<Rightarrow> phase option" where
  "heard rd request = Option.bind (rd request) (\<lambda>req. parse_phase (rq_phase req))"

definition names_machine :: "(string \<Rightarrow> report_request option) \<Rightarrow> mac \<Rightarrow> string \<Rightarrow> bool" where
  "names_machine rd m request \<longleftrightarrow> (\<exists>req. rd request = Some req \<and> mac_parse (rq_mac req) = Inr m)"

lemma receive_tracked:
  assumes "map_of (app_boot s) m = Some st" "names_machine rd m request"
  shows "\<exists>st'. map_of (app_boot (receive rd dbg s (now, request))) m = Some st'
    \<and> hs_phase st' = (case heard rd request of None \<Rightarrow> hs_phase st | Some ph \<Rightarrow> max ph (hs_phase st))"
proof -
  obtain req where req: "rd request = Some req" "mac_parse (rq_mac req) = Inr m"
    using assms(2) unfolding names_machine_def by blast
  show ?thesis
  proof (cases "parse_phase (rq_phase req)")
    case None
    then show ?thesis using assms(1) req by (simp add: receive_def report_def heard_def)
  next
    case (Some ph)
    have "hs_phase st \<le> ph \<or> ph = Failed \<longleftrightarrow> hs_phase st \<le> ph" using phase_le_Failed by blast
    then show ?thesis using assms(1) req Some linear [of "hs_phase st" ph]
      by (auto simp: receive_def report_def heard_def observe_tracked max_def)
  qed
qed

lemma finite_phases [simp]: "finite (P :: phase set)"
proof (rule finite_subset)
  show "P \<subseteq> {ScriptFetched, AssetsFetched, RootAttached, Running, Assimilating, Local, Failed}"
    using phase.exhaust by blast
qed simp

text \<open>In whatever order and however often: the tracker holds the furthest phase it heard of.\<close>

lemma deliver_tracked:
  assumes "map_of (app_boot s) m = Some st" "\<forall>d \<in> set ds. names_machine rd m (snd d)"
  shows "\<exists>st'. map_of (app_boot (deliver rd dbg ds s)) m = Some st'
    \<and> hs_phase st' = Max (insert (hs_phase st) {ph. \<exists>d \<in> set ds. heard rd (snd d) = Some ph})"
  using assms
proof (induction ds arbitrary: s st)
  case (Cons d ds)
  obtain now request where d: "d = (now, request)" by (rule prod.exhaust)
  obtain st1 where st1: "map_of (app_boot (receive rd dbg s d)) m = Some st1"
      "hs_phase st1 = (case heard rd request of None \<Rightarrow> hs_phase st | Some ph \<Rightarrow> max ph (hs_phase st))"
    using receive_tracked [OF Cons.prems(1), of rd request dbg now] Cons.prems(2) d by auto
  obtain st' where st': "map_of (app_boot (deliver rd dbg ds (receive rd dbg s d))) m = Some st'"
      "hs_phase st' = Max (insert (hs_phase st1) {ph. \<exists>d \<in> set ds. heard rd (snd d) = Some ph})"
    using Cons.IH [OF st1(1)] Cons.prems(2) by auto
  have "{ph. \<exists>d \<in> set (d # ds). heard rd (snd d) = Some ph}
      = (case heard rd request of None \<Rightarrow> {} | Some ph \<Rightarrow> {ph}) \<union> {ph. \<exists>d \<in> set ds. heard rd (snd d) = Some ph}"
    by (auto simp: d split: option.split)
  then have "hs_phase st' = Max (insert (hs_phase st) {ph. \<exists>d \<in> set (d # ds). heard rd (snd d) = Some ph})"
    unfolding st'(2) st1(2)
    by (cases "heard rd request"; cases "{ph. \<exists>d \<in> set ds. heard rd (snd d) = Some ph} = {}")
      (simp_all add: max.left_commute max.commute max.assoc)
  then show ?case using st'(1) by (simp add: deliver_def)
qed (simp add: deliver_def)

section \<open>The machine's own requests\<close>

text \<open>A reporter that can report: an address the server reads, a URL on one line.\<close>

definition identified :: "reporter \<Rightarrow> mac \<Rightarrow> bool" where
  "identified rp m \<longleftrightarrow>
     (case (rp_url rp, rp_mac rp) of
        (Some url, Some t) \<Rightarrow> CR \<notin> set url \<and> mac_parse t = Inr m
      | _ \<Rightarrow> False)"

lemma blank_controls_mac:
  assumes "mac_parse t = Inr m"
  shows "blank_controls t = t"
proof -
  have sep: "\<not> code_of c < 32" if "is_separator c" for c using that by (auto simp: is_separator_def)
  have hex: "to_digit16 c = None" if "code_of c < 32" for c
    using that by (simp add: to_digit16_def is_digit_def)
  have "find (\<lambda>c. \<not> is_separator c \<and> to_digit16 c = None) t = None"
    using assms by (auto simp: mac_parse_eq split: option.splits)
  then have "\<not> code_of c < 32" if "c \<in> set t" for c using that sep hex by (auto simp: find_None_iff)
  then show ?thesis by (auto simp: blank_controls_def intro!: map_idI)
qed

lemma split_url_host:
  assumes "split_url url = Inr (c, host)" "CR \<notin> set url"
  shows "CR \<notin> set host"
proof -
  obtain rest where r: "strip_prefix ''http://'' url = Some rest" "host = hd (split_by (\<lambda>c. c = CHR ''/'') rest)"
    using assms(1) by (auto simp: split_url_def Let_def split: option.splits if_splits)
  have "set rest \<subseteq> set url" using r(1) by (auto simp: strip_prefix_def split: if_splits dest: in_set_dropD)
  moreover have "set host \<subseteq> set rest" using split_by_pieces [OF hd_in_set [OF split_by_ne]] r(2) by blast
  ultimately show ?thesis using assms(2) by blast
qed

text \<open>A request of the machine is read as one of its reports.\<close>

lemma own_request:
  assumes "identified rp m" "wire_text rp (ph, d) = Some request"
  shows "names_machine read_request m request" "heard read_request request = parse_phase (blank_controls ph)"
proof -
  obtain url t c host where rp: "rp_url rp = Some url" "rp_mac rp = Some t" "mac_parse t = Inr m" "CR \<notin> set url"
      "split_url url = Inr (c, host)" "request = request_text host (build_body t ph d)"
    using assms by (auto simp: identified_def wire_text_def split: option.splits sum.splits)
  have "read_request request = Some \<lparr>rq_mac = t, rq_phase = blank_controls ph, rq_detail = map_option blank_controls d\<rparr>"
    using read_request_text [OF split_url_host [OF rp(5,4)]] rp(3,6) by (simp add: blank_controls_mac)
  then show "names_machine read_request m request" "heard read_request request = parse_phase (blank_controls ph)"
    using rp(3) by (simp_all add: names_machine_def heard_def)
qed

lemma script_phases:
  assumes "run w p rp [] = (tr, r)" "(ph, d) \<in> set (said tr)"
  shows "ph \<in> {''assets-fetched'', ''root-attached'', ''running'', ''media-updated''}
     \<union> (if p_local_disk p \<noteq> None then {''assimilating''} else {})"
proof -
  obtain new l where l: "tr = [] @ new" "l \<in> boot_scripts p" "prefix (phases new) l"
    using scriptE [OF script_run assms(1)] by metis
  have "ph \<in> set (phases tr)" using assms(2) by (auto simp: phases_said intro: rev_image_eqI)
  then have "ph \<in> set l" using l set_mono_prefix by auto
  then show ?thesis using l(2) by (auto simp: boot_scripts_def split: if_splits)
qed

text \<open>The names of the phases are read back as they are; the refresh of the boot medium is none.\<close>

lemma heard_names:
  "parse_phase (blank_controls (slug q)) = Some q" "parse_phase (blank_controls ''media-updated'') = None"
proof -
  have "blank_controls (slug q) = slug q" by (cases q) (simp_all add: blank_controls_def)
  then show "parse_phase (blank_controls (slug q)) = Some q" by (simp only: parse_phase_slug)
qed code_simp

lemma announced:
  assumes "run w p rp [] = (tr, r)" "identified rp m" "request \<in> set (posted tr)"
  shows "names_machine read_request m request"
    "heard read_request request = Some q \<Longrightarrow> slug q \<in> set (phases tr)"
    "heard read_request request = Some q \<Longrightarrow> q \<in> {AssetsFetched, RootAttached, Running} \<union> (if p_local_disk p \<noteq> None then {Assimilating} else {})"
proof -
  have "voiced w rp tr" using speaks_run [of w rp p] assms(1) unfolding speaks_def by (metis append_Nil fst_conv)
  then obtain ph d where said: "(ph, d) \<in> set (said tr)" "wire_text rp (ph, d) = Some request"
    using assms(3) by (auto simp: voiced_def on_wire_def)
  note own = own_request [OF assms(2) said(2)]
  show "names_machine read_request m request" by (rule own(1))
  assume q: "heard read_request request = Some q"
  note names = heard_names(1) [of AssetsFetched] heard_names(1) [of RootAttached] heard_names(1) [of Running]
    heard_names(1) [of Assimilating] heard_names(2)
  have "slug q = ph \<and> q \<in> {AssetsFetched, RootAttached, Running} \<union> (if p_local_disk p \<noteq> None then {Assimilating} else {})"
    using script_phases [OF assms(1) said(1)] own(2) q names by (auto split: if_splits)
  moreover have "ph \<in> set (phases tr)" using said(1) by (auto simp: phases_said intro: rev_image_eqI)
  ultimately show "slug q \<in> set (phases tr)"
    "q \<in> {AssetsFetched, RootAttached, Running} \<union> (if p_local_disk p \<noteq> None then {Assimilating} else {})" by auto
qed

section \<open>From the request to the tracker\<close>

lemma serve_tracked:
  assumes "serve_script (Some m) hr granted s = (s', resp)" "map_of (app_boot s) m = Some st"
  shows "\<exists>st'. map_of (app_boot s') m = Some st' \<and> hs_phase st' = hs_phase st"
  using assms by (auto simp: serve_script_def Let_def map_of_set_pallet_version split: option.splits)

lemma untracked_after:
  assumes "map_of hosts m = None"
  shows "map_of (make_room m hosts) m = None"
proof -
  have "fst ` set (evict_finished hosts) \<subseteq> fst ` set hosts"
    by (auto simp: evict_finished_def Let_def set_delete)
  then show ?thesis using assms by (auto simp: make_room_def map_of_eq_None_iff)
qed

lemma admitted_tracked:
  assumes "boot_admitted api t1 t2 (Some m) hr s = (s', resp)" "rs_status resp = 200"
    "map_of (app_boot s) m = None"
  shows "\<exists>st. map_of (app_boot s') m = Some st \<and> hs_phase st = ScriptFetched"
proof -
  let ?s = "observe_opt t1 (Some m) ScriptFetched None s"
  obtain st where st: "map_of (app_boot ?s) m = Some st" "hs_phase st = ScriptFetched"
    using untracked_after [OF assms(3)] by (auto simp: observe_opt_def observe_def Let_def update_conv')
  have keep: "app_boot (fst (claim_for api (Some m) g ?s)) = app_boot ?s" for g
    by (simp add: claim_for_def split: option.split sum.split)
  show ?thesis
  proof (cases "claims_enabled (app_cfg ?s)")
    case True
    obtain s1 res where c: "claim_for api (Some m) (Option.bind hr hr_stack) ?s = (s1, res)" by (rule prod.exhaust)
    then have boot1: "map_of (app_boot s1) m = Some st" using keep [of "Option.bind hr hr_stack"] st(1) by simp
    obtain granted where "serve_script (Some m) hr granted s1 = (s', resp)"
      using assms(1,2) c by (cases res) (auto simp: boot_admitted_def Let_def True split: if_splits)
    from serve_tracked [OF this boot1] st(2) show ?thesis by simp
  next
    case False
    then have "serve_script (Some m) hr None ?s = (s', resp)"
      using assms(1,2) by (auto simp: boot_admitted_def Let_def observe_opt_def split: if_splits)
    from serve_tracked [OF this st(1)] st(2) show ?thesis by simp
  qed
qed

text \<open>A machine that is new to the server and is served a script is tracked, and no further than that.\<close>

lemma served_is_tracked:
  assumes "boot_script api t1 t2 (Some q) s = (s', resp)" "rs_status resp = 200" "mac_parse q = Inr m"
    "map_of (app_boot s) m = None"
  shows "\<exists>st. map_of (app_boot s') m = Some st \<and> hs_phase st = ScriptFetched"
proof -
  let ?s = "s\<lparr>app_metrics := (app_metrics s)\<lparr>mt_boot_script_requests := incr (mt_boot_script_requests (app_metrics s))\<rparr>\<rparr>"
  have "boot_identified api t1 t2 (Some m) ?s = (s', resp)" using assms(1,3) by (simp add: boot_script_def Let_def)
  then have "boot_admitted api t1 t2 (Some m) (lookup (app_hosts ?s) m) ?s = (s', resp)"
    using assms(2) by (auto simp: boot_identified_def Let_def split: if_splits option.splits)
  from admitted_tracked [OF this assms(2)] assms(4) show ?thesis by simp
qed

section \<open>From the tracker to the cluster\<close>

lemma reconcile_keeps_objects:
  "reconcile_loop patch now l written ks = (ks', n, reqs) \<Longrightarrow>
     map_option (\<lambda>ob. ob\<lparr>bh_status := None\<rparr>) (map_of (ks_index ks') m)
       = map_option (\<lambda>ob. ob\<lparr>bh_status := None\<rparr>) (map_of (ks_index ks) m)
     \<and> wanted_patch (ks_app ks') = wanted_patch (ks_app ks)"
proof (induction l arbitrary: written ks n reqs)
  case (Cons mo l)
  obtain k ob where mo: "mo = (k, ob)" by (rule prod.exhaust)
  show ?case
  proof (cases "MAX_PATCHES_PER_PASS \<le> written")
    case False
    show ?thesis
    proof (cases "wanted_patch (ks_app ks) now k ob")
      case None
      then show ?thesis using Cons.IH [of written ks n reqs] Cons.prems reconcile_turn(1) [OF False None] by (simp add: mo)
    next
      case (Some w)
      obtain ns name d where w: "w = (ns, name, d)" by (cases w)
      let ?rest = "\<lambda>written ks. reconcile_loop patch now l written ks"
      show ?thesis
      proof (cases "patch ns name d")
        case True
        let ?ks = "note_status k d (ks\<lparr>ks_app := count_status True (ks_app ks)\<rparr>)"
        obtain n2 reqs2 where "?rest (Suc written) ?ks = (ks', n2, reqs2)"
          using Cons.prems reconcile_turn(2) [where patch = patch, OF False Some [unfolded w] True, of l]
          by (cases "?rest (Suc written) ?ks") (simp add: mo del: reconcile_loop.simps)
        from Cons.IH [OF this] show ?thesis by (auto simp: note_status_map option.map_comp comp_def)
      next
        case no: False
        let ?ks = "ks\<lparr>ks_app := count_status False (ks_app ks)\<rparr>"
        obtain n2 reqs2 where "?rest written ?ks = (ks', n2, reqs2)"
          using Cons.prems reconcile_turn(3) [where patch = patch, OF False Some [unfolded w] no, of l]
          by (cases "?rest written ?ks") (simp add: mo del: reconcile_loop.simps)
        from Cons.IH [OF this] show ?thesis by simp
      qed
    qed
  qed (use Cons.prems mo in simp)
qed simp

lemma writer_keeps_objects:
  "map_option (\<lambda>ob. ob\<lparr>bh_status := None\<rparr>) (map_of (ks_index (status_writer passes ks)) m)
      = map_option (\<lambda>ob. ob\<lparr>bh_status := None\<rparr>) (map_of (ks_index ks) m)
    \<and> wanted_patch (ks_app (status_writer passes ks)) = wanted_patch (ks_app ks)"
proof (induction passes arbitrary: ks)
  case (Cons p passes)
  obtain patch now where p: "p = (patch, now)" by (rule prod.exhaust)
  obtain ks1 n reqs where r: "reconcile_status patch now ks = (ks1, n, reqs)" by (rule prod_cases3)
  have "status_writer (p # passes) ks = status_writer passes ks1" by (simp add: status_writer_def p r)
  then show ?case using Cons.IH [of ks1] reconcile_keeps_objects [OF r [unfolded reconcile_status_def], of m] by simp
qed (simp add: status_writer_def)

text \<open>When the writer has caught up, each object carries the status of what the tracker holds of its
  machine.\<close>

lemma writer_writes_phase:
  assumes "hm_wf (ks_index ks)" "\<forall>(patch, now) \<in> set passes. patch = (\<lambda>_ _ _. True)"
    and "length (ks_index ks) \<le> MAX_PATCHES_PER_PASS * length passes"
    and "map_of (ks_index ks) m = Some ob" "object_ref_of ob \<noteq> None"
  shows "\<exists>ob' status previous now. map_of (ks_index (status_writer passes ks)) m = Some ob' \<and> bh_status ob' = Some status
    \<and> status = desired_status (get_host (app_boot (ks_app ks)) m) (sp_online (bh_spec ob)) (claim_id (ks_app ks) m)
        (generation_of ob) previous now"
proof -
  note kept = writer_keeps_objects [of passes ks m]
  obtain ob' where ob': "map_of (ks_index (status_writer passes ks)) m = Some ob'" "ob'\<lparr>bh_status := None\<rparr> = ob\<lparr>bh_status := None\<rparr>"
    using kept assms(4) by auto
  have same: "bh_spec ob' = bh_spec ob" "bh_metadata ob' = bh_metadata ob"
    using arg_cong [OF ob'(2), of bh_spec] arg_cong [OF ob'(2), of bh_metadata] by simp_all
  have "m \<notin> behind (status_writer passes ks)" by (simp add: nobody_left [OF assms(1-3)])
  then have "wanted_patch (ks_app (status_writer passes ks)) [] m ob' = None"
    using ob'(1) by (cases "wanted_patch (ks_app (status_writer passes ks)) [] m ob'") (auto simp: behind_def)
  then have "wanted_patch (ks_app ks) [] m ob' = None" using kept by metis
  then have "bh_status ob' = Some (desired_status (get_host (app_boot (ks_app ks)) m) (sp_online (bh_spec ob))
      (claim_id (ks_app ks) m) (generation_of ob) (bh_status ob') [])"
    using assms(5) by (auto simp: wanted_patch_def same generation_of_def object_ref_of_def Let_def split: option.splits if_splits)
  then show ?thesis using ob'(1) by metis
qed

section \<open>Properties\<close>

text \<open>C16: The server is never ahead of the machine: whichever of the requests of a boot arrive, in whatever
  order and however often, and however the boot ended, the phase it shows is one the machine had
  announced before, or the one it showed already.\<close>

theorem never_ahead_of_the_machine:
  assumes "run w p rp [] = (tr, r)" "identified rp m" "set (map snd ds) \<subseteq> set (posted tr)"
    and "get_host (app_boot s) m = Some st"
  shows "\<exists>st'. get_host (app_boot (deliver read_request dbg ds s)) m = Some st' \<and> hs_phase st \<le> hs_phase st'
    \<and> (hs_phase st' = hs_phase st \<or> slug (hs_phase st') \<in> set (phases tr))"
proof -
  let ?H = "{ph. \<exists>d \<in> set ds. heard read_request (snd d) = Some ph}"
  have own: "\<forall>d \<in> set ds. names_machine read_request m (snd d)" using assms(3) announced(1) [OF assms(1,2)] by auto
  obtain st' where st': "map_of (app_boot (deliver read_request dbg ds s)) m = Some st'" "hs_phase st' = Max (insert (hs_phase st) ?H)"
    using deliver_tracked [OF assms(4) [unfolded get_host_def] own, where dbg = dbg] by blast
  have "hs_phase st' \<in> insert (hs_phase st) ?H" "hs_phase st \<le> hs_phase st'"
    unfolding st'(2) using Max_in [of "insert (hs_phase st) ?H"] by simp_all
  moreover have "slug q \<in> set (phases tr)" if "q \<in> ?H" for q
  proof -
    obtain d where "d \<in> set ds" "heard read_request (snd d) = Some q" using \<open>q \<in> ?H\<close> by blast
    then show ?thesis using assms(3) announced(2) [OF assms(1,2), of "snd d" q] by auto
  qed
  ultimately show ?thesis using st'(1) unfolding get_host_def by auto
qed

text \<open>C3: A new machine that is served a script, whose boot hands over and whose word of it reaches the
  server, is available in the cluster: once the status writer has had as many passes as the index takes,
  its object says available, still progressing (a flow-over may run), and not degraded, whichever of its other
  requests arrived, in whatever order and however often.\<close>

theorem booted_machine_is_available:
  assumes "boot_script api t1 t2 (Some q) s0 = (s, resp)" "rs_status resp = 200" "mac_parse q = Inr m"
    and "get_host (app_boot s0) m = None"
    and "run w p rp [] = (tr, Inl (HandedOver init))" "identified rp m"
    and "set (map snd ds) \<subseteq> set (posted tr)" "\<exists>d \<in> set ds. heard read_request (snd d) = Some Running"
    and "ks_app ks = deliver read_request dbg ds s" "map_of (ks_index ks) m = Some ob" "object_ref_of ob \<noteq> None"
    and "hm_wf (ks_index ks)" "\<forall>(patch, now) \<in> set passes. patch = (\<lambda>_ _ _. True)"
    and "length (ks_index ks) \<le> MAX_PATCHES_PER_PASS * length passes"
  shows "\<exists>ob' status. map_of (ks_index (status_writer passes ks)) m = Some ob' \<and> bh_status ob' = Some status
    \<and> bs_phase status \<in> {Some (slug Running)} \<union> (if p_local_disk p \<noteq> None then {Some (slug Assimilating)} else {})
    \<and> map (\<lambda>c. (cd_type c, cd_status c)) (bs_conditions status) =
        [(''Available'', ''True''), (''Progressing'', ''True''), (''Degraded'', ''False'')]"
proof -
  let ?H = "{ph. \<exists>d \<in> set ds. heard read_request (snd d) = Some ph}"
  obtain st where st: "map_of (app_boot s) m = Some st" "hs_phase st = ScriptFetched"
    using served_is_tracked [OF assms(1-3)] assms(4) unfolding get_host_def by blast
  have own: "\<forall>d \<in> set ds. names_machine read_request m (snd d)" using assms(7) announced(1) [OF assms(5,6)] by auto
  obtain st' where st': "map_of (app_boot (ks_app ks)) m = Some st'" "hs_phase st' = Max (insert ScriptFetched ?H)"
    using deliver_tracked [OF st(1) own, of dbg, folded assms(9), unfolded st(2)] by blast
  have "?H \<subseteq> {AssetsFetched, RootAttached, Running} \<union> (if p_local_disk p \<noteq> None then {Assimilating} else {})"
    using assms(7) announced(3) [OF assms(5,6)] by fastforce
  moreover have "hs_phase st' \<in> insert ScriptFetched ?H" "Running \<le> hs_phase st'"
    unfolding st'(2) using Max_in [of "insert ScriptFetched ?H"] assms(8) by (auto intro: Max_ge)
  ultimately have ph: "hs_phase st' = Running \<or> p_local_disk p \<noteq> None \<and> hs_phase st' = Assimilating"
    by (auto simp: less_eq_phase_def split: if_splits)
  obtain ob' status previous now where w: "map_of (ks_index (status_writer passes ks)) m = Some ob'" "bh_status ob' = Some status"
      "status = desired_status (Some st') (sp_online (bh_spec ob)) (claim_id (ks_app ks) m) (generation_of ob) previous now"
    using writer_writes_phase [OF assms(12-14) assms(10,11)] st'(1) unfolding get_host_def by metis
  have "bs_phase status = Some (slug (hs_phase st'))" by (simp add: w(3) desired_status_def)
  moreover have "map (\<lambda>c. (cd_type c, cd_status c)) (bs_conditions status) =
      [(''Available'', ''True''), (''Progressing'', ''True''), (''Degraded'', ''False'')]"
    using ph by (auto simp: w(3) desired_status_def proposed_conditions_def propose_def resolve_condition_def Let_def)
  ultimately show ?thesis using w(1,2) ph by auto
qed

section \<open>A boot that is heard\<close>

text \<open>Where the network takes every post, a boot that hands over is heard to run.\<close>

lemma taken_wired:
  assumes "takes_posts w rp"
  shows "\<exists>request. wire_text rp (ph, d) = Some request"
proof -
  obtain sent where "try_post (wd_net w []) rp ph d = Inr (Some sent)"
    using assms unfolding takes_posts_def by blast
  then show ?thesis by (auto simp: try_post_def wire_text_def split: option.splits sum.splits)
qed

lemma handover_is_heard:
  assumes "run w p rp [] = (tr, Inl (HandedOver init))" "identified rp m" "takes_posts w rp"
  shows "\<exists>request \<in> set (posted tr). heard read_request request = Some Running"
proof -
  obtain new l where "tr = [] @ new" "phases new \<in> boot_scripts p"
    using scriptE [OF script_run assms(1)] by metis
  then have "''running'' \<in> set (phases tr)" by (auto simp: boot_scripts_def)
  then obtain d where said: "(''running'', d) \<in> set (said tr)" by (auto simp: phases_said)
  obtain request where wire: "wire_text rp (''running'', d) = Some request"
    using taken_wired [OF assms(3)] by blast
  have "voiced w rp tr" using speaks_run [of w rp p] assms(1) unfolding speaks_def by (metis append_Nil fst_conv)
  then have "request \<in> set (posted tr)" using assms(3) said wire by (auto simp: voiced_def on_wire_def)
  moreover have "heard read_request request = Some Running"
    using own_request(2) [OF assms(2) wire] heard_names(1) [of Running] by simp
  ultimately show ?thesis by blast
qed

definition loud :: reporter where
  "loud = \<lparr>rp_url = Some ''http://10.0.0.1:8080/'', rp_mac = Some ''aa:bb:cc:dd:ee:ff''\<rparr>"

definition open_net :: "trace \<Rightarrow> network" where
  "open_net tr = \<lparr>nw_resolve = \<lambda>host. Some [host], nw_send = \<lambda>_ _. True\<rparr>"

definition loud_trace :: trace where
  "loud_trace = fst (run (demo_on open_net) demo_boot loud [])"

lemma loud_run: "run (demo_on open_net) demo_boot loud [] = (loud_trace, Inl (HandedOver ''/sbin/init''))"
  using demo_on_runs [of open_net loud] by (simp add: loud_trace_def)

lemma loud_mac: "mac_parse ''aa:bb:cc:dd:ee:ff'' = Inr (Mac 170 187 204 221 238 255)"
  by code_simp

lemma loud_identified: "identified loud (Mac 170 187 204 221 238 255)"
  using loud_mac by (simp add: identified_def loud_def)

lemma loud_taken: "takes_posts (demo_on open_net) loud"
proof -
  have "split_url ''http://10.0.0.1:8080/'' = Inr (''10.0.0.1:8080'', ''10.0.0.1:8080'')" by code_simp
  then show ?thesis by (simp add: takes_posts_def try_post_def loud_def demo_on_def open_net_def Let_def)
qed

definition loud_deliveries :: "(u64 \<times> string) list" where
  "loud_deliveries = map (Pair 5) (posted loud_trace)"

lemma loud_delivered: "set (map snd loud_deliveries) \<subseteq> set (posted loud_trace)"
    "\<exists>d \<in> set loud_deliveries. heard read_request (snd d) = Some Running"
  using handover_is_heard [OF loud_run loud_identified loud_taken] by (auto simp: loud_deliveries_def)

lemma new_host:
  obtains st where "get_host (app_boot (observe_opt 1 (Some m) ScriptFetched None demo_app)) m = Some st"
    "hs_phase st = ScriptFetched"
  by (simp add: get_host_def observe_opt_def observe_def demo_app_def app_new_def make_room_def MAX_TRACKED_def)

theorem never_ahead_of_the_machine_witness:
  "\<exists>st'. get_host (app_boot (deliver read_request id loud_deliveries (observe_opt 1 (Some (Mac 170 187 204 221 238 255)) ScriptFetched None demo_app)))
      (Mac 170 187 204 221 238 255) = Some st'
    \<and> (hs_phase st' = ScriptFetched \<or> slug (hs_phase st') \<in> set (phases loud_trace))"
proof -
  let ?m = "Mac 170 187 204 221 238 255"
  obtain st where st: "get_host (app_boot (observe_opt 1 (Some ?m) ScriptFetched None demo_app)) ?m = Some st"
      "hs_phase st = ScriptFetched"
    by (rule new_host)
  show ?thesis
    using never_ahead_of_the_machine [OF loud_run loud_identified loud_delivered(1) st(1), of id] st(2) by auto
qed

definition loud_served :: app_state where
  "loud_served = fst (boot_script demo_api 1 2 (Some ''aa:bb:cc:dd:ee:ff'') demo_app)"

lemma loud_boot: "boot_script demo_api 1 2 (Some ''aa:bb:cc:dd:ee:ff'') demo_app =
    (loud_served, snd (boot_script demo_api 1 2 (Some ''aa:bb:cc:dd:ee:ff'') demo_app))"
    "rs_status (snd (boot_script demo_api 1 2 (Some ''aa:bb:cc:dd:ee:ff'') demo_app)) = 200"
proof -
  show "rs_status (snd (boot_script demo_api 1 2 (Some ''aa:bb:cc:dd:ee:ff'') demo_app)) = 200"
    by (simp add: boot_script_def loud_mac boot_identified_def demo_app_def app_new_def demo_cfg_def default_config_def
        lookup_def empty_store_def loaded_default_def boot_admitted_def observe_opt_def claims_enabled_def claim_for_def claim_def
        demo_api_def demo_claim_def is_attachable_def claim_client_new_def serve_script_def asset_status_default_def Let_def)
qed (simp add: loud_served_def)

definition loud_cluster :: kube_state where
  "loud_cluster = \<lparr>ks_index = [(Mac 170 187 204 221 238 255, demo_object)],
     ks_app = deliver read_request id loud_deliveries loud_served\<rparr>"

theorem booted_machine_is_available_witness:
  "\<exists>ob' status. map_of (ks_index (status_writer [(\<lambda>_ _ _. True, ''t1'')] loud_cluster)) (Mac 170 187 204 221 238 255) = Some ob'
    \<and> bh_status ob' = Some status
    \<and> map (\<lambda>cd. (cd_type cd, cd_status cd)) (bs_conditions status) =
        [(''Available'', ''True''), (''Progressing'', ''True''), (''Degraded'', ''False'')]"
proof -
  let ?passes = "[(\<lambda>_ _ _. True, ''t1'')]"
  have new: "get_host (app_boot demo_app) (Mac 170 187 204 221 238 255) = None"
    by (simp add: get_host_def demo_app_def app_new_def)
  have cluster: "ks_app loud_cluster = deliver read_request id loud_deliveries loud_served"
    "map_of (ks_index loud_cluster) (Mac 170 187 204 221 238 255) = Some demo_object" "object_ref_of demo_object \<noteq> None"
    "hm_wf (ks_index loud_cluster)" "\<forall>(patch, now) \<in> set ?passes. patch = (\<lambda>_ _ _. True)"
    "length (ks_index loud_cluster) \<le> MAX_PATCHES_PER_PASS * length ?passes"
    by (simp_all add: loud_cluster_def hm_wf_def MAX_PATCHES_PER_PASS_def demo_object_def object_ref_of_def)
  show ?thesis
    using booted_machine_is_available [OF loud_boot(1) loud_boot(2) loud_mac new loud_run loud_identified
        loud_delivered(1) loud_delivered(2) cluster] by (elim exE conjE) (intro exI conjI)
qed

section \<open>A boot that fails\<close>

lemma speaks_trace: "speaks w rp m \<Longrightarrow> m tr = (tr', r) \<Longrightarrow> voiced w rp tr \<Longrightarrow> voiced w rp tr'"
  unfolding speaks_def by (metis fst_conv voiced_append)

text \<open>A boot that fails posts nothing but its reports, the failure among them.\<close>

lemma failure_told:
  assumes "wd_read w [] ''/proc/cmdline'' = Some cmdline" "p = boot_params_parse cmdline"
    and "rp = \<lparr>rp_url = p_report_url p, rp_mac = p_mac p\<rparr>" "run w p rp [] = (tr, Inl (BootError why))"
  shows "voiced w rp (fst (init_main w fuel []))" "(''failed'', Some why) \<in> set (said (fst (init_main w fuel [])))"
proof -
  let ?said = "then_io (act (Eprint (''stormnetboot-init: '' @ why)))
      (then_io (act (Eprint (''stormnetboot-init: cmdline was: '' @ cmdline)))
      (then_io (reporter_phase w rp ''failed'' (Some why)) (emergency_shell w fuel)))"
  have main: "init_main w fuel [] = ?said tr"
    using assms by (simp add: init_main_def Let_def del: append.simps)
  have eprint: "speaks w rp (act (Eprint e))" for e
    by (intro speaks_silent plain_act) (simp add: report_action_def)
  have run: "voiced w rp tr"
    by (rule speaks_trace [OF speaks_run assms(4)]) (simp add: voiced_def on_wire_def)
  have "speaks w rp ?said" by (intro speech eprint speaks_silent [OF plain_shell])
  from speaks_trace [OF this _ run] show "voiced w rp (fst (init_main w fuel []))"
    unfolding main by (metis prod.collapse)
  obtain rest where "init_main w fuel []
      = (tr @ [Eprint (''stormnetboot-init: '' @ why), Eprint (''stormnetboot-init: cmdline was: '' @ cmdline),
               PhaseReport ''failed'' (Some why)] @ rest, Inr ())"
    using failed_boot_trace [OF assms(1) assms(4) [unfolded assms(2,3)], of fuel] by blast
  then show "(''failed'', Some why) \<in> set (said (fst (init_main w fuel [])))"
    by (simp del: append.simps(2) add: append_Cons [of "Eprint _"])
qed

text \<open>C17: A boot that fails is degraded in the cluster: where the network takes every post and all the
  requests of the boot arrive, in whatever order and however often, the phase the server shows is
  failed and the status it wants for the object says degraded, not available, not progressing.\<close>

theorem failed_boot_is_degraded:
  assumes "wd_read w [] ''/proc/cmdline'' = Some cmdline" "p = boot_params_parse cmdline"
    and "rp = \<lparr>rp_url = p_report_url p, rp_mac = p_mac p\<rparr>" "run w p rp [] = (tr, Inl (BootError why))"
    and "identified rp m" "takes_posts w rp" "get_host (app_boot s) m = Some st"
    and "set (map snd ds) = set (posted (fst (init_main w fuel [])))"
  shows "map_option hs_phase (get_host (app_boot (deliver read_request dbg ds s)) m) = Some Failed
    \<and> map (\<lambda>cd. (cd_type cd, cd_status cd))
        (bs_conditions (desired_status (get_host (app_boot (deliver read_request dbg ds s)) m) online c g previous now)) =
        [(''Available'', ''False''), (''Progressing'', ''False''), (''Degraded'', ''True'')]"
proof -
  let ?tr = "fst (init_main w fuel [])"
  let ?H = "{ph. \<exists>d \<in> set ds. heard read_request (snd d) = Some ph}"
  note told = failure_told [OF assms(1-4), of fuel]
  have own: "\<forall>d \<in> set ds. names_machine read_request m (snd d)"
  proof
    fix d assume "d \<in> set ds"
    then have "snd d \<in> set (posted ?tr)" using assms(8) by auto
    then obtain ph det where "wire_text rp (ph, det) = Some (snd d)" using told(1) by (auto simp: voiced_def on_wire_def)
    then show "names_machine read_request m (snd d)" by (rule own_request(1) [OF assms(5)])
  qed
  obtain request where wire: "wire_text rp (''failed'', Some why) = Some request"
    using taken_wired [OF assms(6)] by blast
  then have "request \<in> set (posted ?tr)" using told assms(6) by (auto simp: voiced_def on_wire_def)
  then have "request \<in> snd ` set ds" using assms(8) by simp
  then obtain d where "d \<in> set ds" "request = snd d" by blast
  moreover have "heard read_request request = Some Failed"
    using own_request(2) [OF assms(5) wire] heard_names(1) [of Failed] by simp
  ultimately have "Failed \<in> ?H" by blast
  then have "Failed \<le> Max (insert (hs_phase st) ?H)" by (intro Max_ge) simp_all
  then have "Max (insert (hs_phase st) ?H) = Failed" by (intro antisym phase_le_Failed)
  moreover obtain st' where "map_of (app_boot (deliver read_request dbg ds s)) m = Some st'" "hs_phase st' = Max (insert (hs_phase st) ?H)"
    using deliver_tracked [OF assms(7) [unfolded get_host_def] own, of dbg] by blast
  ultimately show ?thesis
    by (simp add: get_host_def desired_status_def proposed_conditions_def propose_def resolve_condition_def Let_def)
qed

definition lost_cmdline :: string where
  "lost_cmdline = ''storm.report=http://10.0.0.1:8080/ storm.mac=aa:bb:cc:dd:ee:ff''"

definition lost_world :: world where
  "lost_world = (demo_on open_net)\<lparr>wd_read := \<lambda>_ path. if path = ''/proc/cmdline'' then Some lost_cmdline else None\<rparr>"

definition lost_params :: boot_params where
  "lost_params = boot_params_default\<lparr>p_report_url := rp_url loud, p_mac := rp_mac loud\<rparr>"

lemma lost_parsed: "boot_params_parse lost_cmdline = lost_params"
  unfolding lost_cmdline_def lost_params_def loud_def by code_simp

definition lost_trace :: trace where
  "lost_trace = fst (run lost_world lost_params loud [])"

lemma lost_run: "run lost_world lost_params loud [] = (lost_trace, Inl (BootError (no_root_source lost_params)))"
proof -
  have guard: "check_local_disk lost_params = Inr ()"
    by (simp add: check_local_disk_def lost_params_def boot_params_default_def)
  have src: "root_source lost_world lost_params = bail (no_root_source lost_params)"
    by (simp add: root_source_def is_network_boot_def nvme_uri_def boothost_claim_def lost_params_def boot_params_default_def)
  have bail: "stops_with (then_io (bail e) m) (BootError e)" for e and m :: "unit io"
    by (simp add: stops_with_def then_io_def bind_io_def io_defs)
  have "stops_with (run lost_world lost_params loud) (BootError (no_root_source lost_params))"
    unfolding run_def guard sum.case src by (intro then_stops smooth_rules bail)
  then show ?thesis unfolding lost_trace_def stops_with_def by (metis prod.collapse)
qed

theorem failed_boot_is_degraded_witness:
  "map_option hs_phase (get_host (app_boot (deliver read_request id (map (Pair 5) (posted (fst (init_main lost_world 3 []))))
      (observe_opt 1 (Some (Mac 170 187 204 221 238 255)) ScriptFetched None demo_app))) (Mac 170 187 204 221 238 255)) = Some Failed"
proof -
  have cmd: "wd_read lost_world [] ''/proc/cmdline'' = Some lost_cmdline" by (simp add: lost_world_def)
  have rp: "loud = \<lparr>rp_url = p_report_url lost_params, rp_mac = p_mac lost_params\<rparr>"
    by (simp add: lost_params_def loud_def)
  have taken: "takes_posts lost_world loud" using loud_taken by (simp add: takes_posts_def lost_world_def)
  obtain st where st: "get_host (app_boot (observe_opt 1 (Some (Mac 170 187 204 221 238 255)) ScriptFetched None demo_app))
      (Mac 170 187 204 221 238 255) = Some st" by (rule new_host)
  have "set (map snd (map (Pair (5::u64)) reqs)) = set reqs" for reqs :: "string list" by (simp add: image_image)
  from failed_boot_is_degraded [OF cmd lost_parsed [symmetric] rp lost_run loud_identified taken st this, of id]
  show ?thesis by (rule conjunct1)
qed

end
