(* ===== verification/Assimilation.thy ===== *)
theory Assimilation
  imports Journey
begin

text \<open>
  The rest of the machine's life, after \<open>switch_root\<close>: the agent on the node follows the log of the
  engine and posts what it makes of it. Its requests reach the tracker beside those of the
  initramfs, in whatever order. The server reads both with the same reader of JSON, which is an
  argument here; what is relied on is that it reads back what the agent's writer of JSON wrote
  and reads the hand-written bodies of the initramfs as they are. Shown here: a node is shown
  local only where a line of the log says that every extent has moved, and the verdict of the
  log ends in the node's object in the cluster.
\<close>

section \<open>The agent's requests\<close>

text \<open>The text a report is posted as, where the URL can be posted to.\<close>

definition agent_request :: "agent_net \<Rightarrow> agent_reporter \<Rightarrow> Agent.said \<Rightarrow> string option" where
  "agent_request net ag = (\<lambda>(ph, d).
     map_option (\<lambda>rest. let (authority, path) = post_target rest
                        in post_text path authority (an_json net (report_fields ag ph (Some d))))
       (strip_prefix ''http://'' (ag_url ag @ ''/api/v1/report'')))"

definition agent_requests :: "agent_net \<Rightarrow> agent_reporter \<Rightarrow> Agent.said list \<Rightarrow> string set" where
  "agent_requests net ag rs = {txt. \<exists>r \<in> set rs. agent_request net ag r = Some txt}"

text \<open>It is what a report puts on the wire.\<close>

lemma report_exchanges:
  "try_report net ag ph (Some d) =
     (case strip_prefix ''http://'' (ag_url ag @ ''/api/v1/report'') of
        None \<Rightarrow> Inl OnlyHttp
      | Some rest \<Rightarrow>
          (let address = connect_address (fst (post_target rest))
           in case an_exchange net address (the (agent_request net ag (ph, d))) of
                None \<Rightarrow> Inl (CannotConnect address)
              | Some response \<Rightarrow>
                  (case parse_status response of
                     None \<Rightarrow> Inl NoStatusLine
                   | Some st \<Rightarrow> if is_success st then Inr () else Inl (ServerReturned st))))"
  by (simp add: try_report_def agent_post_def ureq_post_def agent_request_def Let_def split_beta
      split: option.split)

text \<open>The reader of a request: what follows the blank line, as JSON.\<close>

definition json_request :: "(string \<Rightarrow> report_request option) \<Rightarrow> string \<Rightarrow> report_request option" where
  "json_request json_of txt = Option.bind (split_once_str (crlf @ crlf) txt) (\<lambda>(before, body). json_of body)"

text \<open>The reader of JSON is one for the agent's writer when it reads back the reports made, and one for
  the initramfs when it reads the bodies it wrote by hand as they are.\<close>

definition reads_back :: "(string \<Rightarrow> report_request option) \<Rightarrow> agent_net \<Rightarrow> agent_reporter \<Rightarrow> Agent.said list \<Rightarrow> bool" where
  "reads_back json_of net ag rs \<longleftrightarrow>
     (\<forall>(ph, d) \<in> set rs. json_of (an_json net (report_fields ag ph (Some d))) =
        Some \<lparr>rq_mac = ag_mac ag, rq_phase = ph, rq_detail = Some d\<rparr>)"

definition reads_by_hand :: "(string \<Rightarrow> report_request option) \<Rightarrow> trace \<Rightarrow> bool" where
  "reads_by_hand json_of tr \<longleftrightarrow> (\<forall>txt \<in> set (posted tr). json_request json_of txt = read_request txt)"

lemma post_ends_in:
  assumes "CR \<notin> set path" "CR \<notin> set authority"
  shows "ends_in body (post_text path authority body)"
proof -
  have "CR \<notin> set (''POST '' @ path @ '' HTTP/1.1'')" using assms(1) by simp
  from headers_end_in [OF this assms(2), of body] show ?thesis by (simp add: post_text_def crlf_def)
qed

lemma post_target_set:
  assumes "CR \<notin> set rest"
  shows "CR \<notin> set (fst (post_target rest))" "CR \<notin> set (snd (post_target rest))"
  using assms by (auto simp: post_target_def split: option.split dest!: split_once_Some)

text \<open>A request of the agent is read as the report it was made of.\<close>

lemma agent_request_read:
  assumes "CR \<notin> set (ag_url ag)" "reads_back json_of net ag rs" "(ph, d) \<in> set rs"
    "agent_request net ag (ph, d) = Some txt"
  shows "json_request json_of txt = Some \<lparr>rq_mac = ag_mac ag, rq_phase = ph, rq_detail = Some d\<rparr>"
proof -
  obtain rest where rest: "strip_prefix ''http://'' (ag_url ag @ ''/api/v1/report'') = Some rest"
      "txt = post_text (snd (post_target rest)) (fst (post_target rest)) (an_json net (report_fields ag ph (Some d)))"
    using assms(4) by (auto simp: agent_request_def Let_def split_beta)
  have "CR \<notin> set (ag_url ag @ ''/api/v1/report'')" using assms(1) by simp
  then have "CR \<notin> set rest" unfolding strip_prefix_Some [OF rest(1)] by simp
  from post_ends_in [OF post_target_set(2) [OF this] post_target_set(1) [OF this]]
  obtain before where "split_once_str (crlf @ crlf) txt = Some (before, an_json net (report_fields ag ph (Some d)))"
    unfolding ends_in_def rest(2) by blast
  then show ?thesis using assms(2,3) by (auto simp: json_request_def reads_back_def)
qed


section \<open>What the agent says\<close>

text \<open>The first line of the log that completes or aborts the flow-over, if there is one.\<close>

definition log_lines :: "string list \<Rightarrow> string list" where
  "log_lines pieces = concat (map read_lines pieces)"

definition log_verdict :: "string list \<Rightarrow> Agent.said option" where
  "log_verdict pieces = first_some verdict (log_lines pieces)"

lemma verdict_phase:
  assumes "log_verdict pieces = Some (ph, d)"
  shows "\<exists>q \<in> {Assimilating, Local, Failed}. ph = slug q"
proof -
  obtain l where "verdict l = Some (ph, d)" using first_some_Some assms unfolding log_verdict_def by metis
  then show ?thesis by (auto simp: verdict_def split: option.splits event.splits if_splits)
qed

text \<open>The agent says that the node runs, then that it assimilates, and the verdict last.\<close>

lemma agent_says:
  assumes "agent_main mc open_log args = (Some ag, rs, how)" "r \<in> set rs"
  shows "fst r = slug Running \<or> fst r = slug Assimilating
    \<or> (\<exists>path pieces. aa_engine_log args = Some path \<and> open_log path = Some pieces \<and> log_verdict pieces = Some r)"
proof (cases "aa_engine_log args")
  case (Some path)
  show ?thesis
  proof (cases "open_log path")
    case opened: (Some pieces)
    obtain before where b: "list_all (\<lambda>r. fst r = ''assimilating'') before"
        "follow_lines (log_lines pieces) 0 =
           (case first_some verdict (log_lines pieces) of Some r \<Rightarrow> (before @ [r], True) | None \<Rightarrow> (before, False))"
      using verdict_decides by blast
    have "r \<in> insert (''running'', summary (collect_node mc)) (set (fst (follow_engine_log pieces)))"
      using assms Some opened by (auto simp: agent_main_def Let_def split_beta split: option.splits if_splits)
    then have "r = (''running'', summary (collect_node mc)) \<or> r \<in> set before \<or> log_verdict pieces = Some r"
      using b(2) by (auto simp: follow_engine_log_def log_lines_def log_verdict_def split: option.splits)
    then show ?thesis using b(1) Some opened by (auto simp: list_all_iff)
  qed (use assms Some in \<open>auto simp: agent_main_def Let_def split: option.splits if_splits\<close>)
qed (use assms in \<open>auto simp: agent_main_def Let_def split: option.splits if_splits\<close>)

text \<open>And it does say the verdict, when it stays to follow the log.\<close>

lemma agent_concludes:
  assumes "agent_main mc open_log args = (Some ag, rs, how)" "aa_engine_log args = Some path" "open_log path = Some pieces"
    "log_verdict pieces = Some r" "\<not> aa_once args"
  shows "r \<in> set rs"
proof -
  obtain before where "follow_lines (log_lines pieces) 0 = (before @ [r], True)"
    using verdict_decides [of "log_lines pieces" 0] assms(4) by (auto simp: log_verdict_def)
  then have "r \<in> set (fst (follow_engine_log pieces))" by (simp add: follow_engine_log_def log_lines_def)
  then show ?thesis using assms(1-3,5) by (auto simp: agent_main_def Let_def split_beta split: option.splits)
qed

lemma agent_request_heard:
  assumes "CR \<notin> set (ag_url ag)" "mac_parse (ag_mac ag) = Inr m" "reads_back json_of net ag rs"
    "r \<in> set rs" "agent_request net ag r = Some txt"
  shows "names_machine (json_request json_of) m txt" "heard (json_request json_of) txt = parse_phase (fst r)"
proof -
  obtain ph d where r: "r = (ph, d)" by (rule prod.exhaust)
  have "json_request json_of txt = Some \<lparr>rq_mac = ag_mac ag, rq_phase = ph, rq_detail = Some d\<rparr>"
    by (rule agent_request_read [OF assms(1,3) assms(4,5) [unfolded r]])
  then show "names_machine (json_request json_of) m txt" "heard (json_request json_of) txt = parse_phase (fst r)"
    using assms(2) by (simp_all add: names_machine_def heard_def r)
qed

section \<open>The requests of the machine's life\<close>

text \<open>The requests of one machine: those of its boot and those of its agent, both known to the server by
  the same address.\<close>

definition machine_requests :: "trace \<Rightarrow> agent_net \<Rightarrow> agent_reporter \<Rightarrow> Agent.said list \<Rightarrow> string set" where
  "machine_requests tr net ag rs = set (posted tr) \<union> agent_requests net ag rs"

definition well_read :: "(string \<Rightarrow> report_request option) \<Rightarrow> trace \<Rightarrow> agent_net \<Rightarrow> agent_reporter \<Rightarrow> Agent.said list \<Rightarrow> bool" where
  "well_read json_of tr net ag rs \<longleftrightarrow>
     CR \<notin> set (ag_url ag) \<and> reads_by_hand json_of tr \<and> reads_back json_of net ag rs"

lemma life_heard:
  assumes "run w p rp [] = (tr, r)" "identified rp m"
    and "agent_main mc open_log args = (Some ag, rs, how)" "mac_parse (ag_mac ag) = Inr m"
    and "well_read json_of tr net ag rs" "txt \<in> machine_requests tr net ag rs"
  shows "names_machine (json_request json_of) m txt"
    "heard (json_request json_of) txt = Some q \<Longrightarrow> q \<le> Assimilating
       \<or> (\<exists>path pieces d. aa_engine_log args = Some path \<and> open_log path = Some pieces \<and> log_verdict pieces = Some (slug q, d))"
proof -
  have "names_machine (json_request json_of) m txt \<and> (\<forall>q. heard (json_request json_of) txt = Some q \<longrightarrow> q \<le> Assimilating
       \<or> (\<exists>path pieces d. aa_engine_log args = Some path \<and> open_log path = Some pieces \<and> log_verdict pieces = Some (slug q, d)))"
  proof (cases "txt \<in> set (posted tr)")
    case True
    then have "json_request json_of txt = read_request txt" using assms(5) by (simp add: well_read_def reads_by_hand_def)
    then have same: "names_machine (json_request json_of) m txt = names_machine read_request m txt"
      "heard (json_request json_of) txt = heard read_request txt" by (simp_all add: names_machine_def heard_def)
    have "q \<le> Assimilating" if "heard read_request txt = Some q" for q
      using announced(3) [OF assms(1,2) True that] by (auto simp: less_eq_phase_def split: if_splits)
    then show ?thesis using announced(1) [OF assms(1,2) True] by (simp add: same)
  next
    case False
    then obtain r where r: "r \<in> set rs" "agent_request net ag r = Some txt"
      using assms(6) by (auto simp: machine_requests_def agent_requests_def)
    have read: "CR \<notin> set (ag_url ag)" "reads_back json_of net ag rs" using assms(5) by (simp_all add: well_read_def)
    note heard = agent_request_heard [OF read(1) assms(4) read(2) r]
    have "q \<le> Assimilating
       \<or> (\<exists>path pieces d. aa_engine_log args = Some path \<and> open_log path = Some pieces \<and> log_verdict pieces = Some (slug q, d))"
      if "heard (json_request json_of) txt = Some q" for q
      using agent_says [OF assms(3) r(1)]
    proof (elim disjE exE conjE)
      assume "fst r = slug Running"
      then show ?thesis using that heard(2) parse_phase_slug [of Running] by (simp add: less_eq_phase_def)
    next
      assume "fst r = slug Assimilating"
      then show ?thesis using that heard(2) parse_phase_slug [of Assimilating] by (simp add: less_eq_phase_def)
    next
      fix path pieces
      assume v: "aa_engine_log args = Some path" "open_log path = Some pieces" "log_verdict pieces = Some r"
      then have "log_verdict pieces = Some (fst r, snd r)" by simp
      from verdict_phase [OF this] obtain q' where "fst r = slug q'" by blast
      then have "fst r = slug q" using that heard(2) parse_phase_slug [of q'] by simp
      then have "log_verdict pieces = Some (slug q, snd r)" using v(3) by (simp add: prod_eq_iff)
      then show ?thesis using v(1,2) by blast
    qed
    then show ?thesis using heard(1) by blast
  qed
  then show "names_machine (json_request json_of) m txt"
    "heard (json_request json_of) txt = Some q \<Longrightarrow> q \<le> Assimilating
       \<or> (\<exists>path pieces d. aa_engine_log args = Some path \<and> open_log path = Some pieces \<and> log_verdict pieces = Some (slug q, d))"
    by blast+
qed

text \<open>So the tracker holds the furthest phase heard of, and every one of them is at most assimilating or
  the verdict of the log.\<close>

lemma life_tracked:
  assumes "run w p rp [] = (tr, r)" "identified rp m"
    and "agent_main mc open_log args = (Some ag, rs, how)" "mac_parse (ag_mac ag) = Inr m"
    and "well_read json_of tr net ag rs" "set (map snd ds) \<subseteq> machine_requests tr net ag rs"
    and "get_host (app_boot s) m = Some st"
  defines "H \<equiv> {ph. \<exists>d \<in> set ds. heard (json_request json_of) (snd d) = Some ph}"
  shows "\<exists>st'. get_host (app_boot (deliver (json_request json_of) dbg ds s)) m = Some st'
      \<and> hs_phase st' = Max (insert (hs_phase st) H)"
    "q \<in> H \<Longrightarrow> q \<le> Assimilating
       \<or> (\<exists>path pieces d. aa_engine_log args = Some path \<and> open_log path = Some pieces \<and> log_verdict pieces = Some (slug q, d))"
proof -
  have "\<forall>d \<in> set ds. names_machine (json_request json_of) m (snd d)"
    using assms(6) life_heard(1) [OF assms(1-5)] by auto
  from deliver_tracked [OF assms(7) [unfolded get_host_def] this]
  show "\<exists>st'. get_host (app_boot (deliver (json_request json_of) dbg ds s)) m = Some st'
      \<and> hs_phase st' = Max (insert (hs_phase st) H)" by (simp add: get_host_def H_def)
next
  assume "q \<in> H"
  then obtain d where d: "d \<in> set ds" "heard (json_request json_of) (snd d) = Some q" by (auto simp: H_def)
  then have "snd d \<in> machine_requests tr net ag rs" using assms(6) by auto
  from life_heard(2) [OF assms(1-5) this d(2)] show "q \<le> Assimilating
       \<or> (\<exists>path pieces d. aa_engine_log args = Some path \<and> open_log path = Some pieces \<and> log_verdict pieces = Some (slug q, d))" .
qed

text \<open>What the cluster is told of a machine in one of the last phases.\<close>

lemma conditions_after_flow_over:
  assumes "hs_phase st = q" "q = Assimilating \<or> q = Local \<or> q = Failed"
  shows "map (\<lambda>cd. (cd_type cd, cd_status cd)) (bs_conditions (desired_status (Some st) online cl g previous now)) =
    [(''Available'', if q = Failed then ''False'' else ''True''),
     (''Progressing'', if q = Assimilating then ''True'' else ''False''),
     (''Degraded'', if q = Failed then ''True'' else ''False'')]"
  using assms(2)
  by (elim disjE)
    (simp_all add: assms(1) desired_status_def proposed_conditions_def propose_def resolve_condition_def Let_def)

text \<open>The verdict is what is shown, once it has arrived: nothing else that was said goes further.\<close>

lemma verdict_is_shown:
  assumes "run w p rp [] = (tr, r)" "identified rp m"
    and "agent_main mc open_log args = (Some ag, rs, how)" "mac_parse (ag_mac ag) = Inr m"
    and "well_read json_of tr net ag rs" "set (map snd ds) \<subseteq> machine_requests tr net ag rs"
    and "get_host (app_boot s) m = Some st" "hs_phase st \<le> Assimilating"
    and "aa_engine_log args = Some path" "open_log path = Some pieces" "log_verdict pieces = Some (ph, d)"
    and "\<not> aa_once args" "req \<in> set (map snd ds)" "agent_request net ag (ph, d) = Some req"
  shows "\<exists>q st'. ph = slug q \<and> (q = Assimilating \<or> q = Local \<or> q = Failed)
    \<and> get_host (app_boot (deliver (json_request json_of) dbg ds s)) m = Some st' \<and> hs_phase st' = q"
proof -
  let ?H = "{ph. \<exists>d \<in> set ds. heard (json_request json_of) (snd d) = Some ph}"
  note life = life_tracked [OF assms(1-7)]
  obtain q where q: "ph = slug q" "q = Assimilating \<or> q = Local \<or> q = Failed"
    using verdict_phase [OF assms(11)] by blast
  have told: "(ph, d) \<in> set rs" by (rule agent_concludes [OF assms(3,9-12)])
  have read: "CR \<notin> set (ag_url ag)" "reads_back json_of net ag rs" using assms(5) by (simp_all add: well_read_def)
  have "heard (json_request json_of) req = Some q"
    using agent_request_heard(2) [OF read(1) assms(4) read(2) told assms(14)] q(1) parse_phase_slug [of q] by simp
  then have "q \<in> ?H" using assms(13) by auto
  moreover have "x \<le> q" if "x \<in> ?H" for x
    using life(2) [OF that]
  proof (elim disjE exE conjE)
    assume "x \<le> Assimilating"
    then show ?thesis using q(2) by (auto simp: less_eq_phase_def)
  next
    fix path' pieces' d'
    assume "aa_engine_log args = Some path'" "open_log path' = Some pieces'" "log_verdict pieces' = Some (slug x, d')"
    then have "slug x = slug q" using assms(9-11) q(1) by simp
    then have "parse_phase (slug x) = parse_phase (slug q)" by (rule arg_cong)
    then have "x = q" by (simp only: parse_phase_slug option.inject)
    then show ?thesis by simp
  qed
  moreover have "hs_phase st \<le> q" using assms(8) q(2) by (auto simp: less_eq_phase_def)
  ultimately have "Max (insert (hs_phase st) ?H) = q" by (intro Max_eqI) auto
  moreover obtain st' where st': "get_host (app_boot (deliver (json_request json_of) dbg ds s)) m = Some st'"
      "hs_phase st' = Max (insert (hs_phase st) ?H)" using life(1) [of dbg] by blast
  ultimately have last: "hs_phase st' = q" by simp
  show ?thesis using q st'(1) last by blast
qed

section \<open>Properties\<close>


text \<open>C4: The verdict of the log reaches the cluster: once the request that carries it has arrived, whichever
  others have, and the status writer has had as many passes as the index takes, the object of the node carries
  the phase the verdict stands for (local, still assimilating where extents failed, or failed), and says available
  unless the flow-over was aborted, progressing only while extents are left, degraded only when it was aborted.\<close>

theorem verdict_reaches_the_cluster:
  assumes "run w p rp [] = (tr, r)" "identified rp m"
    and "agent_main mc open_log args = (Some ag, rs, how)" "mac_parse (ag_mac ag) = Inr m"
    and "well_read json_of tr net ag rs" "set (map snd ds) \<subseteq> machine_requests tr net ag rs"
    and "get_host (app_boot s) m = Some st" "hs_phase st \<le> Assimilating"
    and "aa_engine_log args = Some path" "open_log path = Some pieces" "log_verdict pieces = Some (ph, d)"
    and "\<not> aa_once args" "req \<in> set (map snd ds)" "agent_request net ag (ph, d) = Some req"
    and "ks_app ks = deliver (json_request json_of) dbg ds s" "map_of (ks_index ks) m = Some ob" "object_ref_of ob \<noteq> None"
    and "hm_wf (ks_index ks)" "\<forall>(patch, now) \<in> set passes. patch = (\<lambda>_ _ _. True)"
    and "length (ks_index ks) \<le> MAX_PATCHES_PER_PASS * length passes"
  shows "\<exists>q ob' status. ph = slug q
    \<and> map_option hs_phase (get_host (app_boot (ks_app ks)) m) = Some q
    \<and> map_of (ks_index (status_writer passes ks)) m = Some ob' \<and> bh_status ob' = Some status
    \<and> bs_phase status = Some ph
    \<and> map (\<lambda>cd. (cd_type cd, cd_status cd)) (bs_conditions status) =
        [(''Available'', if q = Failed then ''False'' else ''True''),
         (''Progressing'', if q = Assimilating then ''True'' else ''False''),
         (''Degraded'', if q = Failed then ''True'' else ''False'')]"
proof -
  obtain q st' where q: "ph = slug q" "q = Assimilating \<or> q = Local \<or> q = Failed" "hs_phase st' = q"
      "get_host (app_boot (ks_app ks)) m = Some st'"
    using verdict_is_shown [OF assms(1-14), of dbg] unfolding assms(15) by blast
  obtain ob' status previous now where w: "map_of (ks_index (status_writer passes ks)) m = Some ob'" "bh_status ob' = Some status"
      "status = desired_status (Some st') (sp_online (bh_spec ob)) (claim_id (ks_app ks) m) (generation_of ob) previous now"
    using writer_writes_phase [OF assms(18-20) assms(16,17)] unfolding q(4) by metis
  have ph: "bs_phase status = Some ph" by (simp add: w(3) desired_status_def q(1,3))
  note conditions = conditions_after_flow_over [OF q(3,2), of "sp_online (bh_spec ob)" "claim_id (ks_app ks) m"
      "generation_of ob" previous now, folded w(3)]
  have shown: "map_option hs_phase (get_host (app_boot (ks_app ks)) m) = Some q" by (simp add: q(3,4))
  show ?thesis
    by (intro exI conjI) (rule q(1), rule shown, rule w(1), rule w(2), rule ph, rule conditions)
qed

section \<open>A node that moves home\<close>

text \<open>The node of the boot above, whose engine moves three extents.\<close>

definition moving_net :: agent_net where
  "moving_net = \<lparr>
     an_json = (\<lambda>fs. case fs of [(_, JString t), (_, JString ph), (_, JString d)] \<Rightarrow> build_body t ph (Some d) | _ \<Rightarrow> []),
     an_exchange = (\<lambda>_ _. Some ''HTTP/1.1 202 Accepted'')\<rparr>"

definition hand_reader :: "string \<Rightarrow> report_request option" where
  "hand_reader body = map_option (\<lambda>(t, ph, d). \<lparr>rq_mac = t, rq_phase = ph, rq_detail = d\<rparr>) (read_body body)"

definition moving_args :: agent_args where
  "moving_args = \<lparr>aa_report_url = ''http://10.0.0.1:8080/'', aa_mac = Some ''aa:bb:cc:dd:ee:ff'',
     aa_engine_log = Some ''/log'', aa_once = False\<rparr>"

definition moving_agent :: agent_reporter where
  "moving_agent = \<lparr>ag_url = ''http://10.0.0.1:8080'', ag_mac = ''aa:bb:cc:dd:ee:ff''\<rparr>"

definition moving_log :: "string list" where
  "moving_log = [migrated_line 3 0 @ [LF]]"

definition moving_said :: "Agent.said list" where
  "moving_said = [(''running'', summary (collect_node routeless)), (''local'', ''3 extent(s) local, 0 failed'')]"

lemma moving_detail: "moved_detail 3 0 = ''3 extent(s) local, 0 failed''"
  unfolding moved_detail_def by code_simp

lemma moving_lines: "log_lines moving_log = [migrated_line 3 0 @ [LF]]"
proof -
  have "LF \<notin> set (migrated_line 3 0)" by (simp add: migrated_line_def LF_not_in_number)
  then show ?thesis by (simp add: log_lines_def moving_log_def read_lines_line)
qed

lemma moving_verdict: "log_verdict moving_log = Some (''local'', ''3 extent(s) local, 0 failed'')"
  using parse_migrated_LF [of 3 0] by (simp add: log_verdict_def moving_lines verdict_def moving_detail)

lemma moving_runs: "agent_main routeless (\<lambda>_. Some moving_log) moving_args = (Some moving_agent, moving_said, Finished)"
proof -
  have "follow_engine_log moving_log = ([(''local'', ''3 extent(s) local, 0 failed'')], True)"
    using parse_migrated_LF [of 3 0] moving_lines by (simp add: follow_engine_log_def log_lines_def moving_detail)
  moreover have "trim_end_matches (\<lambda>c. c = CHR ''/'') ''http://10.0.0.1:8080/'' = ''http://10.0.0.1:8080''"
    by (simp add: trim_end_matches_def)
  ultimately show ?thesis
    by (simp add: agent_main_def moving_args_def moving_agent_def moving_said_def Let_def)
qed

lemma moving_summary: "summary (collect_node routeless) = ''inventory unavailable''"
  by code_simp

lemma moving_read: "well_read hand_reader tr moving_net moving_agent moving_said"
proof -
  have plain: "blank_controls ''aa:bb:cc:dd:ee:ff'' = ''aa:bb:cc:dd:ee:ff''" "blank_controls ''running'' = ''running''"
    "blank_controls ''inventory unavailable'' = ''inventory unavailable''" "blank_controls ''local'' = ''local''"
    "blank_controls ''3 extent(s) local, 0 failed'' = ''3 extent(s) local, 0 failed''"
    by code_simp+
  have "reads_back hand_reader moving_net moving_agent moving_said"
    by (simp add: reads_back_def moving_said_def moving_summary hand_reader_def moving_net_def moving_agent_def
        report_fields_def body_read plain)
  moreover have "reads_by_hand hand_reader tr"
    by (simp add: reads_by_hand_def json_request_def read_request_def hand_reader_def)
  ultimately show ?thesis by (simp add: well_read_def moving_agent_def)
qed

definition moving_request :: string where
  "moving_request = the (agent_request moving_net moving_agent (''local'', ''3 extent(s) local, 0 failed''))"

lemma moving_sent:
  "agent_request moving_net moving_agent (''local'', ''3 extent(s) local, 0 failed'') = Some moving_request"
  by (simp add: moving_request_def agent_request_def moving_agent_def strip_prefix_def starts_with_def)

definition moving_deliveries :: "(u64 \<times> string) list" where
  "moving_deliveries = (9, moving_request) # loud_deliveries"

lemma moving_delivered: "set (map snd moving_deliveries) \<subseteq> machine_requests loud_trace moving_net moving_agent moving_said"
    "moving_request \<in> set (map snd moving_deliveries)"
proof -
  have "moving_request \<in> agent_requests moving_net moving_agent moving_said"
    unfolding agent_requests_def using moving_sent by (auto simp: moving_said_def)
  then show "set (map snd moving_deliveries) \<subseteq> machine_requests loud_trace moving_net moving_agent moving_said"
    "moving_request \<in> set (map snd moving_deliveries)"
    using loud_delivered(1) by (auto simp: moving_deliveries_def machine_requests_def)
qed

definition moving_state :: app_state where
  "moving_state = observe_opt 1 (Some (Mac 170 187 204 221 238 255)) ScriptFetched None demo_app"

lemma moving_args_facts:
  "mac_parse (ag_mac moving_agent) = Inr (Mac 170 187 204 221 238 255)"
  "aa_engine_log moving_args = Some ''/log''" "\<not> aa_once moving_args"
  using loud_mac by (simp_all add: moving_agent_def moving_args_def)

lemma moving_tracked:
  obtains st where "get_host (app_boot moving_state) (Mac 170 187 204 221 238 255) = Some st" "hs_phase st = ScriptFetched"
  using new_host unfolding moving_state_def by blast

lemma moving_shown:
  "map_option hs_phase (get_host (app_boot (deliver (json_request hand_reader) id moving_deliveries moving_state))
      (Mac 170 187 204 221 238 255)) = Some Local"
proof -
  obtain st where st: "get_host (app_boot moving_state) (Mac 170 187 204 221 238 255) = Some st" "hs_phase st = ScriptFetched"
    by (rule moving_tracked)
  then have "hs_phase st \<le> Assimilating" by (simp add: less_eq_phase_def)
  from verdict_is_shown [OF loud_run loud_identified moving_runs moving_args_facts(1) moving_read moving_delivered(1)
      st(1) this moving_args_facts(2) refl moving_verdict moving_args_facts(3) moving_delivered(2) moving_sent, of id]
  show ?thesis by auto
qed


definition moving_cluster :: kube_state where
  "moving_cluster = \<lparr>ks_index = [(Mac 170 187 204 221 238 255, demo_object)],
     ks_app = deliver (json_request hand_reader) id moving_deliveries moving_state\<rparr>"

theorem verdict_reaches_the_cluster_witness:
  "\<exists>ob' status. map_of (ks_index (status_writer [(\<lambda>_ _ _. True, ''t1'')] moving_cluster)) (Mac 170 187 204 221 238 255) = Some ob'
    \<and> bh_status ob' = Some status \<and> bs_phase status = Some ''local''
    \<and> map (\<lambda>cd. (cd_type cd, cd_status cd)) (bs_conditions status) =
        [(''Available'', ''True''), (''Progressing'', ''False''), (''Degraded'', ''False'')]"
proof -
  obtain st where st: "get_host (app_boot moving_state) (Mac 170 187 204 221 238 255) = Some st" "hs_phase st = ScriptFetched"
    by (rule moving_tracked)
  then have early: "hs_phase st \<le> Assimilating" by (simp add: less_eq_phase_def)
  let ?passes = "[(\<lambda>_ _ _. True, ''t1'')]"
  have cluster: "ks_app moving_cluster = deliver (json_request hand_reader) id moving_deliveries moving_state"
    "map_of (ks_index moving_cluster) (Mac 170 187 204 221 238 255) = Some demo_object" "object_ref_of demo_object \<noteq> None"
    "hm_wf (ks_index moving_cluster)" "\<forall>(patch, now) \<in> set ?passes. patch = (\<lambda>_ _ _. True)"
    "length (ks_index moving_cluster) \<le> MAX_PATCHES_PER_PASS * length ?passes"
    by (simp_all add: moving_cluster_def hm_wf_def MAX_PATCHES_PER_PASS_def demo_object_def object_ref_of_def)
  from verdict_reaches_the_cluster [OF loud_run loud_identified moving_runs moving_args_facts(1) moving_read
      moving_delivered(1) st(1) early moving_args_facts(2) refl moving_verdict moving_args_facts(3) moving_delivered(2) moving_sent
      cluster]
  obtain q ob' status where q: "''local'' = slug q"
      "map_of (ks_index (status_writer ?passes moving_cluster)) (Mac 170 187 204 221 238 255) = Some ob'"
      "bh_status ob' = Some status" "bs_phase status = Some ''local''"
      "map (\<lambda>cd. (cd_type cd, cd_status cd)) (bs_conditions status) =
      [(''Available'', if q = Failed then ''False'' else ''True''),
       (''Progressing'', if q = Assimilating then ''True'' else ''False''),
       (''Degraded'', if q = Failed then ''True'' else ''False'')]"
    by (elim exE conjE)
  have "q = Local" using q(1) by (cases q) simp_all
  then have finished: "map (\<lambda>cd. (cd_type cd, cd_status cd)) (bs_conditions status) =
      [(''Available'', ''True''), (''Progressing'', ''False''), (''Degraded'', ''False'')]" using q(5) by simp
  show ?thesis by (intro exI conjI) (rule q(2), rule q(3), rule q(4), rule finished)
qed

end
