(* ===== verification/Server.thy ===== *)
theory Server
  imports Http Kube_Store
begin

text \<open>
  Start-up and the refresh loop of the server (\<open>crates/stormnetboot-server/src/main.rs\<close>): what the
  server says it can serve before the first request, and one turn of the loop that asks the
  registry for a new boot pallet. The cache directory is part of the state here, so that the
  status that is reported can be compared with what is on disk. The lemmas show that a ready
  server has a bootable cache after every history of refreshes, that a failed refresh never
  takes a served pallet away, and what a second look at the same pallet reports.
\<close>

record server =
  sv_cache :: cache
  sv_app :: app_state

text \<open>Whether a claim client and a pallet source exist, from the configuration that was accepted.\<close>

definition startup_claim_client :: "config \<Rightarrow> claim_client option" where
  "startup_claim_client cfg =
     (if claims_enabled cfg
      then (case (cfg_registry cfg, cfg_golden cfg) of
              (Some r, Some g) \<Rightarrow> Some (claim_client_new r g)
            | _ \<Rightarrow> None)
      else None)"

definition startup_source :: "config \<Rightarrow> pallet_source option" where
  "startup_source cfg =
     map_option (\<lambda>r. pallet_source_new r (cfg_pallet_repo cfg) (cfg_pallet_ref cfg) (cfg_trusted_keys cfg)
                       (\<not> cfg_allow_unsigned cfg)) (cfg_registry cfg)"

definition startup_hosts :: "(string \<Rightarrow> host_record list option) \<Rightarrow> host_file \<Rightarrow> config \<Rightarrow> host_store" where
  "startup_hosts parse file cfg =
     (case cfg_hosts_file cfg of Some path \<Rightarrow> from_file parse file path | None \<Rightarrow> empty_store)"

definition directory_status :: "config \<Rightarrow> cache \<Rightarrow> asset_status" where
  "directory_status cfg c =
     (if cache_is_complete c
      then \<lparr>as_ready = True, as_detail = ''directory '' @ cfg_asset_dir cfg, as_version = None,
            as_digest = None, as_signature_verified = False\<rparr>
      else \<lparr>as_ready = False, as_detail = ''no kernel or initramfs in '' @ cfg_asset_dir cfg, as_version = None,
            as_digest = None, as_signature_verified = False\<rparr>)"

definition initial_status :: "pallet_env \<Rightarrow> config \<Rightarrow> pallet_source option \<Rightarrow> cache \<Rightarrow> cache \<times> asset_status" where
  "initial_status env cfg source c =
     (case source of
        None \<Rightarrow> (c, directory_status cfg c)
      | Some src \<Rightarrow>
          (case refresh env src None c of
             (c', Inr r) \<Rightarrow> (c', rf_status r)
           | (c', Inl e) \<Rightarrow> (c', directory_status cfg c')))"

definition startup ::
  "(string \<Rightarrow> host_record list option) \<Rightarrow> host_file \<Rightarrow> pallet_env \<Rightarrow> config \<Rightarrow> cache \<Rightarrow> server" where
  "startup parse file env cfg c =
     (case initial_status env cfg (startup_source cfg) c of
        (c', status) \<Rightarrow>
          \<lparr>sv_cache = c',
           sv_app = app_new cfg (startup_hosts parse file cfg) (startup_claim_client cfg) status\<rparr>)"

text \<open>One turn of the refresh loop.\<close>

definition refresh_turn :: "pallet_env \<Rightarrow> pallet_source \<Rightarrow> server \<Rightarrow> server" where
  "refresh_turn env src sv =
     (case refresh env src (as_digest (app_assets (sv_app sv))) (sv_cache sv) of
        (c, Inr r) \<Rightarrow>
          (let app = (if rf_changed r
                      then (sv_app sv)\<lparr>app_metrics := (app_metrics (sv_app sv))
                             \<lparr>mt_pallet_refreshes := incr (mt_pallet_refreshes (app_metrics (sv_app sv)))\<rparr>\<rparr>
                      else sv_app sv)
           in \<lparr>sv_cache = c, sv_app = set_asset_status (rf_status r) app\<rparr>)
      | (c, Inl e) \<Rightarrow>
          \<lparr>sv_cache = c,
           sv_app = (sv_app sv)\<lparr>app_metrics := (app_metrics (sv_app sv))
             \<lparr>mt_pallet_refresh_failures := incr (mt_pallet_refresh_failures (app_metrics (sv_app sv)))\<rparr>\<rparr>\<rparr>)"

section \<open>A ready server has a bootable cache\<close>

text \<open>A disk on which a failed write does not delete the file.\<close>

definition keeps_files :: "pallet_env \<Rightarrow> bool" where
  "keeps_files env \<longleftrightarrow> (\<forall>n. pe_write env n \<noteq> WriteFailed None)"

lemma fetch_layer_keeps:
  assumes "keeps_files env" "fetch_layer env src spec layer c = (c', r)" "f \<in> served_names" "c f \<noteq> None"
  shows "c' f \<noteq> None"
proof -
  have fetched: "c'' f \<noteq> None"
    if "fetch_member env src layer filename c = (c'', r')" "filename_for_role role = Some filename"
    for c'' r' role filename
    using fetch_member_cases [OF that(1) assms(3) filename_served [OF that(2)]] assms(4) by auto
  have written: "c'' f \<noteq> None" if "write_file env name b c = (c'', ok)" for name b c'' ok
    using that assms(1) [unfolded keeps_files_def, rule_format, of name] assms(4)
    by (auto simp: write_file_def split: write_outcome.splits)
  show ?thesis
    using assms(2,4) fetched written
    by (auto simp: fetch_layer_def split: option.splits prod.splits bool.splits sum.splits)
qed

lemma fetch_layers_keeps:
  "keeps_files env \<Longrightarrow> fetch_layers env src spec layers served c = (c', r) \<Longrightarrow> f \<in> served_names \<Longrightarrow>
    c f \<noteq> None \<Longrightarrow> c' f \<noteq> None"
proof (induction layers arbitrary: served c)
  case (Cons layer rest)
  obtain c1 o1 where o1: "fetch_layer env src spec layer c = (c1, o1)" by fastforce
  have "c1 f \<noteq> None" by (rule fetch_layer_keeps [OF Cons.prems(1) o1 Cons.prems(3,4)])
  with Cons o1 show ?case by (auto split: sum.splits option.splits)
qed simp

lemma refresh_keeps:
  assumes "keeps_files env" "refresh env src current c = (c', r)" "f \<in> served_names" "c f \<noteq> None"
  shows "c' f \<noteq> None"
  using assms fetch_layers_keeps [OF assms(1), where c' = c' and f = f]
  by (auto simp: refresh_def materialise_def split: sum.splits prod.splits option.splits if_splits)

lemma refresh_keeps_complete:
  assumes "keeps_files env" "refresh env src current c = (c', r)" "cache_is_complete c"
  shows "cache_is_complete c'"
  using refresh_keeps [OF assms(1,2)] assms(3) by (auto simp: cache_is_complete_def served_names_def)

text \<open>A change that is reported leaves a complete cache (the step behind the property of the pallet).\<close>

lemma refresh_changed_complete:
  assumes "refresh env src current c = (c', Inr r)" "rf_changed r"
  shows "cache_is_complete c'"
proof -
  obtain bytes digest sv where "materialise env src bytes digest sv c = (c', Inr r)"
    using assms by (auto simp: refresh_def map_sum_def split: sum.splits prod.splits if_splits)
  then obtain m names where l: "fetch_layers env src (read_spec env src m) (mf_layers m) [] c = (c', Inr names)"
    and n: "''vmlinuz'' \<in> set names" "''initramfs.img'' \<in> set names"
    by (auto simp: materialise_def split: option.splits if_splits prod.splits sum.splits)
  have "\<forall>f \<in> set names. f \<in> served_names \<and> c' f \<noteq> None" by (rule fetch_layers_served [OF l]) simp
  with n show ?thesis by (auto simp: cache_is_complete_def)
qed

lemma refresh_unchanged_ready:
  assumes "refresh env src current c = (c', Inr r)" "\<not> rf_changed r"
  shows "c' = c \<and> current = as_digest (rf_status r) \<and> as_digest (rf_status r) \<noteq> None"
  using assms
  by (auto simp: refresh_def status_for_def materialise_def map_sum_def split: sum.splits prod.splits option.splits if_splits)

definition honest :: "server \<Rightarrow> bool" where
  "honest sv \<longleftrightarrow>
     (as_ready (app_assets (sv_app sv)) \<longrightarrow> cache_is_complete (sv_cache sv))
     \<and> (as_digest (app_assets (sv_app sv)) \<noteq> None \<longrightarrow> cache_is_complete (sv_cache sv))"

lemma refresh_none_changes: "refresh env src None c = (c', Inr r) \<Longrightarrow> rf_changed r"
  using refresh_unchanged_ready [of env src None c c' r] by (cases "rf_changed r") auto

lemma honest_startup: "honest (startup parse hf env cfg c)"
proof -
  obtain c' st where i: "initial_status env cfg (startup_source cfg) c = (c', st)" by fastforce
  have "(as_ready st \<longrightarrow> cache_is_complete c') \<and> (as_digest st \<noteq> None \<longrightarrow> cache_is_complete c')"
    using i
    by (auto simp: initial_status_def directory_status_def split: option.splits prod.splits sum.splits if_splits
        dest: refresh_changed_complete [OF _ refresh_none_changes])
  then show ?thesis by (simp add: honest_def startup_def i app_new_def)
qed

lemma honest_turn:
  assumes "keeps_files env" "honest sv"
  shows "honest (refresh_turn env src sv)"
proof -
  obtain c r where rf: "refresh env src (as_digest (app_assets (sv_app sv))) (sv_cache sv) = (c, r)" by fastforce
  show ?thesis
  proof (cases r)
    case (Inl e)
    with rf refresh_keeps_complete [OF assms(1) rf] assms(2) show ?thesis
      by (auto simp: refresh_turn_def honest_def)
  next
    case (Inr x)
    have "cache_is_complete c"
    proof (cases "rf_changed x")
      case True
      with rf Inr show ?thesis by (auto intro: refresh_changed_complete)
    next
      case False
      from refresh_unchanged_ready [OF rf [unfolded Inr] False] assms(2) show ?thesis
        by (auto simp: honest_def)
    qed
    with rf Inr show ?thesis by (auto simp: refresh_turn_def honest_def set_asset_status_def Let_def)
  qed
qed

section \<open>Properties\<close>

text \<open>From start-up on, through every sequence of refreshes, successful or not, a server that says it is
  ready, or names the digest it serves, has a kernel and an initramfs in its cache, provided that
  the disk does not delete a file when a write to it fails.\<close>

theorem ready_means_bootable:
  assumes "\<forall>env \<in> set envs. keeps_files env"
  shows "honest (foldl (\<lambda>sv env. refresh_turn env src sv) (startup parse hf env0 cfg c) envs)"
  using assms
proof (induction envs rule: rev_induct)
  case Nil
  show ?case by (simp add: honest_startup)
next
  case (snoc env envs)
  then show ?case by (simp add: honest_turn)
qed

theorem ready_means_bootable_witness:
  "honest (foldl (\<lambda>sv env. refresh_turn env demo_src sv)
     (startup (\<lambda>_. None) \<lparr>hf_mtime = None, hf_read = FileNotFound\<rparr> (demo_env pallet_spec_default 10) default_config (\<lambda>_. None))
     [demo_env pallet_spec_default 11])"
  by (rule ready_means_bootable) (simp add: keeps_files_def)

text \<open>A refresh that fails leaves what is announced as it was, and counts the failure.\<close>

theorem failed_refresh_keeps_status:
  assumes "refresh env src (as_digest (app_assets (sv_app sv))) (sv_cache sv) = (c, Inl e)"
  shows "app_assets (sv_app (refresh_turn env src sv)) = app_assets (sv_app sv)
    \<and> app_hosts (sv_app (refresh_turn env src sv)) = app_hosts (sv_app sv)
    \<and> app_boot (sv_app (refresh_turn env src sv)) = app_boot (sv_app sv)
    \<and> mt_pallet_refresh_failures (app_metrics (sv_app (refresh_turn env src sv))) =
        mt_pallet_refresh_failures (app_metrics (sv_app sv)) + 1"
  using assms by (simp add: refresh_turn_def incr_def)

text \<open>A second look at a pallet that was fetched without a signature reports it as verified: the status
  says so although no signature was ever checked.\<close>

theorem second_look_claims_verified:
  assumes "refresh env src current c = (c', Inr r)" "rf_changed r"
  shows "\<exists>r'. refresh env src (as_digest (rf_status r)) c' = (c', Inr r')
    \<and> as_signature_verified (rf_status r') \<and> as_digest (rf_status r') = as_digest (rf_status r)"
proof -
  obtain bytes digest sv where fm: "fetch_manifest env src = Inr (bytes, digest)"
    and m: "materialise env src bytes digest sv c = (c', Inr r)"
    using assms by (auto simp: refresh_def map_sum_def split: sum.splits prod.splits if_splits)
  then obtain mf where "pe_manifest env bytes = Some mf" "as_digest (rf_status r) = Some digest"
    by (auto simp: materialise_def status_for_def split: option.splits if_splits prod.splits sum.splits)
  with fm show ?thesis by (auto simp: refresh_def status_for_def)
qed

definition open_src :: pallet_source where
  "open_src = demo_src\<lparr>src_trusted_keys := [], src_require_signature := False\<rparr>"

lemma open_src_urls [simp]:
  "repo_url open_src k r = repo_url demo_src k r" "src_trusted_keys open_src = []"
  "\<not> src_require_signature open_src" "src_reference open_src = src_reference demo_src"
  by (simp_all add: open_src_def repo_url_def)

lemma open_refresh:
  "\<exists>c' r. refresh (demo_env pallet_spec_default 11) open_src None (\<lambda>_. None) = (c', Inr r)
    \<and> rf_changed r \<and> \<not> as_signature_verified (rf_status r)"
proof -
  let ?env = "demo_env pallet_spec_default 11"
  have m: "mf_layers (demo_manifest ''spec'') = [demo_layer ''kernel'' (demo_hash 10), demo_layer ''initramfs'' (demo_hash 11)]"
    "is_pallet (demo_manifest ''spec'')"
    by (simp_all add: demo_manifest_def is_pallet_def)
  have fm: "fetch_manifest ?env open_src = Inr ([1], demo_hash 1)"
    using demo_fetched(1) [of pallet_spec_default 11] by (simp add: fetch_manifest_def)
  have spec: "read_spec ?env open_src (demo_manifest ''spec'') = pallet_spec_default"
    using demo_read(1) [of pallet_spec_default 11] by (simp add: read_spec_def fetch_blob_or_manifest_def)
  have "inline_text pallet_spec_default role = None" for role
    by (simp add: inline_text_def pallet_spec_default_def)
  then show ?thesis
    by (simp add: refresh_def fm verify_signature_def materialise_def m spec status_for_def fetch_layer_def
        filename_for_role_def fetch_member_def write_file_def rename_file_def)
qed

theorem second_look_claims_verified_witness:
  "\<exists>c c' r r'. refresh (demo_env pallet_spec_default 11) open_src None c = (c', Inr r)
     \<and> \<not> as_signature_verified (rf_status r)
     \<and> refresh (demo_env pallet_spec_default 11) open_src (as_digest (rf_status r)) c' = (c', Inr r')
     \<and> as_signature_verified (rf_status r')"
  using open_refresh second_look_claims_verified by meson

theorem failed_refresh_keeps_status_witness:
  "app_assets (sv_app (refresh_turn (demo_env pallet_spec_default 10) demo_src
      \<lparr>sv_cache = (\<lambda>_. Some [0]), sv_app = demo_app\<rparr>)) = asset_status_default"
proof -
  let ?sv = "\<lparr>sv_cache = (\<lambda>_. Some [0]), sv_app = demo_app\<rparr>"
  have d: "as_digest (app_assets (sv_app ?sv)) = None" "app_assets (sv_app ?sv) = asset_status_default"
    by (simp_all add: demo_app_def app_new_def asset_status_default_def)
  obtain e where "snd (refresh (demo_env pallet_spec_default 10) demo_src None (\<lambda>_. Some [0])) = Inl e"
    using failed_refresh_is_partial by blast
  then have "refresh (demo_env pallet_spec_default 10) demo_src (as_digest (app_assets (sv_app ?sv))) (sv_cache ?sv) =
      (fst (refresh (demo_env pallet_spec_default 10) demo_src None (\<lambda>_. Some [0])), Inl e)"
    unfolding d(1) by (simp add: prod_eq_iff)
  from failed_refresh_keeps_status [OF this] d(2) show ?thesis by simp
qed

end
