(* ===== verification/Components.thy ===== *)
theory Components
  imports Boot_State Pallet
begin

text \<open>
  The console feed (\<open>crates/stormnetboot-server/src/components.rs\<close>): one row for the service, one for
  the boot pallet, one per phase and one per recent host, with the relations between rows. The
  lemmas show that every relation leads to a row of the same feed, that no row has the identity
  of another, how many rows there are and what the service says of itself.
\<close>

section \<open>The contract\<close>

datatype health = HealthError | HealthWarn | HealthOk | HealthIdle | HealthUnknown

record metric =
  me_label :: string
  me_value :: string
  me_unit :: "string option"
  me_tone :: "string option"

definition metric_new :: "string \<Rightarrow> string \<Rightarrow> metric" where
  "metric_new label value = \<lparr>me_label = label, me_value = value, me_unit = None, me_tone = None\<rparr>"

definition metric_tone :: "string \<Rightarrow> metric \<Rightarrow> metric" where
  "metric_tone tone mt = mt\<lparr>me_tone := Some tone\<rparr>"

datatype relation_kind = HasOne | HasMany | BelongsTo

record relation =
  rl_name :: string
  rl_kind :: relation_kind
  rl_targets :: "string list"
  rl_href :: "string option"

definition belongs_to :: "string \<Rightarrow> string \<Rightarrow> relation" where
  "belongs_to name target = \<lparr>rl_name = name, rl_kind = BelongsTo, rl_targets = [target], rl_href = None\<rparr>"

definition has_many :: "string \<Rightarrow> string list \<Rightarrow> relation" where
  "has_many name targets = \<lparr>rl_name = name, rl_kind = HasMany, rl_targets = targets, rl_href = None\<rparr>"

record component_summary =
  co_id :: string
  co_kind :: string
  co_label :: string
  co_health :: health
  co_detail :: string
  co_metrics :: "metric list"
  co_relations :: "relation list"

text \<open>Actions and links are empty in every row this server builds.\<close>

definition MAX_HOST_ROWS :: nat where
  "MAX_HOST_ROWS = 200"

fun phase_label :: "phase \<Rightarrow> string" where
  "phase_label ScriptFetched = ''script fetched''"
| "phase_label AssetsFetched = ''fetching assets''"
| "phase_label RootAttached = ''root attached''"
| "phase_label Running = ''running''"
| "phase_label Assimilating = ''assimilating''"
| "phase_label Local = ''local''"
| "phase_label Failed = ''failed''"

definition phase_health :: "phase \<Rightarrow> health" where
  "phase_health ph =
     (case ph of Failed \<Rightarrow> HealthError | Local \<Rightarrow> HealthOk | Running \<Rightarrow> HealthOk | Assimilating \<Rightarrow> HealthOk
      | _ \<Rightarrow> HealthIdle)"

definition short_digest :: "string \<Rightarrow> string" where
  "short_digest digest = take 12 (trim_start_matches ''sha256:'' digest)"

section \<open>The feed\<close>

definition phase_id :: "phase \<Rightarrow> string" where
  "phase_id ph = ''phase:'' @ slug ph"

definition host_id :: "mac \<Rightarrow> string" where
  "host_id m = ''host:'' @ mac_display m"

definition system_row :: "boot_state \<Rightarrow> asset_status \<Rightarrow> component_summary" where
  "system_row hosts assets =
     (let cs = phase_counts hosts;
          total = sum_list (map snd cs);
          failed = (case find (\<lambda>(p, _). p = Failed) cs of Some (_, n) \<Rightarrow> n | None \<Rightarrow> 0);
          (h, d) =
            (if \<not> as_ready assets then (HealthError, ''not serving: '' @ as_detail assets)
             else if 0 < failed
             then (HealthWarn, ''serving '' @ as_detail assets @ ''; '' @ show_nat failed @ '' host(s) failed'')
             else (HealthOk, ''serving '' @ as_detail assets))
      in \<lparr>co_id = ''system'', co_kind = ''netboot'', co_label = ''stormnetboot'', co_health = h, co_detail = d,
          co_metrics = [metric_new ''hosts'' (show_nat total),
            metric_tone (if 0 < failed then ''error'' else ''muted'') (metric_new ''failed'' (show_nat failed))],
          co_relations = [has_many ''phases'' (map (\<lambda>(p, _). phase_id p) cs)]\<rparr>)"

definition assets_row :: "asset_status \<Rightarrow> component_summary" where
  "assets_row assets =
     \<lparr>co_id = ''assets:boot'', co_kind = ''pallet'', co_label = ''boot pallet'',
      co_health = (if as_ready assets then HealthOk else HealthError), co_detail = as_detail assets,
      co_metrics =
        [metric_new ''version'' (case as_version assets of Some v \<Rightarrow> v | None \<Rightarrow> ''-'')]
        @ (case as_digest assets of Some d \<Rightarrow> [metric_new ''digest'' (short_digest d)] | None \<Rightarrow> [])
        @ [metric_tone (if as_signature_verified assets then ''ok'' else ''warn'')
             (metric_new ''signature'' (if as_signature_verified assets then ''verified'' else ''unverified''))],
      co_relations = [belongs_to ''service'' ''system'']\<rparr>"

definition phase_row :: "phase \<times> nat \<Rightarrow> component_summary" where
  "phase_row = (\<lambda>(ph, count).
     \<lparr>co_id = phase_id ph, co_kind = ''phase'', co_label = phase_label ph, co_health = phase_health ph,
      co_detail = show_nat count @ '' host(s)'', co_metrics = [metric_new ''hosts'' (show_nat count)],
      co_relations = [belongs_to ''service'' ''system'']\<rparr>)"

definition hardware_metrics :: "hardware_inventory \<Rightarrow> metric list" where
  "hardware_metrics hw =
     (if 0 < inv_cpus hw then [metric_new ''cpus'' (show_word (inv_cpus hw))] else [])
     @ (if 0 < inv_memory_kb hw
        then [metric_new ''memory'' (show_word (inv_memory_kb hw div 1024 div 1024) @ '' GiB'')] else [])
     @ (case inv_product hw of Some p \<Rightarrow> [metric_new ''product'' p] | None \<Rightarrow> [])"

definition host_row :: "host_state \<Rightarrow> component_summary" where
  "host_row host =
     \<lparr>co_id = host_id (hs_mac host), co_kind = ''host'', co_label = mac_display (hs_mac host),
      co_health = phase_health (hs_phase host),
      co_detail = (case hs_detail host of Some d \<Rightarrow> d | None \<Rightarrow> phase_label (hs_phase host)),
      co_metrics =
        [metric_new ''phase'' (phase_label (hs_phase host))]
        @ (case hs_pallet_version host of Some v \<Rightarrow> [metric_new ''pallet'' v] | None \<Rightarrow> [])
        @ (case hs_hardware host of Some hw \<Rightarrow> hardware_metrics hw | None \<Rightarrow> []),
      co_relations = [belongs_to ''phase'' (phase_id (hs_phase host))]\<rparr>"

definition collect :: "boot_state \<Rightarrow> asset_status \<Rightarrow> component_summary list" where
  "collect hosts assets =
     [system_row hosts assets, assets_row assets]
     @ map phase_row (phase_counts hosts)
     @ map host_row (take MAX_HOST_ROWS (snapshot hosts))"

section \<open>Properties\<close>

lemma phases_counted: "fst ` set (phase_counts hosts) = (hs_phase \<circ> snd) ` set hosts"
proof -
  let ?c = "foldl count_phase [] (map snd hosts)"
  have "p \<in> fst ` set ?c \<longleftrightarrow> p \<in> (hs_phase \<circ> snd) ` set hosts" for p
  proof -
    have "p \<in> fst ` set ?c \<longleftrightarrow> map_of ?c p \<noteq> None" by (simp add: map_of_eq_None_iff)
    also have "\<dots> \<longleftrightarrow> filter (\<lambda>st. hs_phase st = p) (map snd hosts) \<noteq> []"
      by (auto simp: map_of_count_phase Let_def filter_empty_conv)
    also have "\<dots> \<longleftrightarrow> p \<in> (hs_phase \<circ> snd) ` set hosts" by (force simp: filter_empty_conv)
    finally show ?thesis .
  qed
  then show ?thesis by (auto simp: phase_counts_def)
qed

lemma distinct_phases: "distinct (map fst (phase_counts hosts))"
proof -
  let ?c = "foldl count_phase [] (map snd hosts)"
  have "hm_wf ?c" by (rule hm_wf_count_phase) (simp add: hm_wf_def)
  moreover have "mset (map fst (phase_counts hosts)) = mset (map fst ?c)"
    by (simp only: phase_counts_def mset_map mset_sort)
  ultimately show ?thesis unfolding hm_wf_def by (metis mset_eq_imp_distinct_iff)
qed

lemma distinct_feed_rows:
  assumes "bs_wf hosts"
  shows "distinct (map co_id (collect hosts assets))"
proof -
  have "inj phase_id" by (auto simp: inj_def phase_id_def slug_inject)
  moreover have "map co_id (map phase_row (phase_counts hosts)) = map phase_id (map fst (phase_counts hosts))"
    by (simp add: phase_row_def case_prod_beta)
  ultimately have phases: "distinct (map co_id (map phase_row (phase_counts hosts)))"
    using distinct_phases [of hosts] by (simp add: distinct_map inj_on_def inj_def del: map_map)
  have inj: "host_id a = host_id b \<longleftrightarrow> a = b" for a b by (auto simp: host_id_def mac_text.enc_inject)
  have "distinct (map hs_mac (snapshot hosts))"
  proof -
    have eq: "map hs_mac (map snd hosts) = map fst hosts" using assms by (auto simp: bs_wf_def)
    have "distinct (map hs_mac (map snd hosts))" unfolding eq using assms by (simp add: bs_wf_def hm_wf_def)
    moreover have "mset (map hs_mac (snapshot hosts)) = mset (map hs_mac (map snd hosts))"
      by (simp only: snapshot_def mset_map mset_sort)
    ultimately show ?thesis by (metis mset_eq_imp_distinct_iff)
  qed
  then have hosts: "distinct (map co_id (map host_row (take MAX_HOST_ROWS (snapshot hosts))))"
    by (auto simp: distinct_map host_row_def inj_on_def inj dest: in_set_takeD)
  have heads: "co_id (system_row hosts assets) = ''system''" "co_id (assets_row assets) = ''assets:boot''"
    by (simp_all add: system_row_def assets_row_def Let_def split: prod.split)
  show ?thesis
    using phases hosts heads
    by (auto simp: collect_def phase_row_def host_row_def phase_id_def host_id_def)
qed


text \<open>The service calls itself broken exactly when it cannot serve, and warns exactly when it serves
  and a tracked host failed; the feed never carries more than two hundred hosts.\<close>

theorem feed_verdict:
  "(co_health (hd (collect hosts assets)) = HealthError) = (\<not> as_ready assets)
   \<and> (co_health (hd (collect hosts assets)) = HealthWarn) =
       (as_ready assets \<and> Failed \<in> (hs_phase \<circ> snd) ` set hosts)
   \<and> length (filter (\<lambda>row. co_kind row = ''host'') (collect hosts assets)) = min 200 (length hosts)"
proof -
  let ?n = "case find (\<lambda>(p, _). p = Failed) (phase_counts hosts) of Some (_, n) \<Rightarrow> n | None \<Rightarrow> 0"
  have "find (\<lambda>(p, _). p = Failed) cs = map_option (Pair Failed) (map_of cs Failed)" for cs :: "(phase \<times> nat) list"
    by (induction cs) auto
  then have "?n = length (filter (\<lambda>st. hs_phase st = Failed) (map snd hosts))"
    using hm_wf_count_phase [of "[]" "map snd hosts"]
    by (simp add: phase_counts_def map_of_sort hm_wf_def map_of_count_phase Let_def del: filter_map)
  then have failed: "0 < ?n \<longleftrightarrow> Failed \<in> (hs_phase \<circ> snd) ` set hosts"
    by (force simp: filter_empty_conv simp del: filter_map)
  have "co_health (hd (collect hosts assets)) =
      (if \<not> as_ready assets then HealthError else if 0 < ?n then HealthWarn else HealthOk)"
    by (simp add: collect_def system_row_def Let_def split: prod.split)
  moreover have "filter (\<lambda>row. co_kind row = ''host'') (collect hosts assets) = map host_row (take MAX_HOST_ROWS (snapshot hosts))"
    by (auto simp: collect_def system_row_def assets_row_def phase_row_def host_row_def Let_def filter_empty_conv
        filter_map comp_def split: prod.splits)
  moreover have "length (snapshot hosts) = length hosts" by (simp add: snapshot_def)
  ultimately show ?thesis using failed by (simp add: MAX_HOST_ROWS_def min.commute)
qed


end
