(* ===== verification/Netboot_Server.thy ===== *)
theory Netboot_Server
  imports Server Components
begin

text \<open>
  The server as a whole (\<open>crates/stormnetboot-server/src/http.rs\<close>, the routers; \<open>main.rs\<close>, what runs
  side by side). Two surfaces, one for the firmware and one for the management network, each a
  table of routes; and the steps that interleave once the server is up: a request on either
  surface, an event of the cluster watch, a pass of the status writer, a turn of the refresh
  loop. What the HTTP package does with a table (which handler a request reaches, what it answers
  itself) is an argument. The lemmas show that every interleaving keeps the invariants of all
  parts together, and which part of the state each surface can change.
\<close>

section \<open>Routes\<close>

datatype http_method = GET | POST | OtherMethod

datatype endpoint =
    EpHealth | EpReadyz | EpBootScript | EpBootListing | EpReport | EpInventory | EpAssets
  | EpMetrics | EpComponents | EpWsComponents | EpState | EpHosts | EpHostsReload

datatype route = Route http_method string endpoint | Nest string endpoint

definition boot_router :: "route list" where
  "boot_router =
     [Route GET ''/health'' EpHealth, Route GET ''/readyz'' EpReadyz, Route GET ''/boot.ipxe'' EpBootScript,
      Route GET ''/boot.json'' EpBootListing, Route POST ''/api/v1/report'' EpReport,
      Route POST ''/api/v1/inventory'' EpInventory, Nest ''/boot'' EpAssets]"

definition mgmt_router :: "route list" where
  "mgmt_router =
     [Route GET ''/health'' EpHealth, Route GET ''/metrics'' EpMetrics,
      Route GET ''/api/v1/components'' EpComponents, Route GET ''/ws/components'' EpWsComponents,
      Route GET ''/api/v1/state'' EpState, Route GET ''/api/v1/hosts'' EpHosts,
      Route POST ''/api/v1/hosts/reload'' EpHostsReload]"

fun endpoint_of :: "route \<Rightarrow> endpoint" where
  "endpoint_of (Route _ _ ep) = ep"
| "endpoint_of (Nest _ ep) = ep"

text \<open>What the HTTP package makes of a table and a request: its own answer (no such path, no such
  method) or a handler. It is relied on for reaching only handlers of the table.\<close>

type_synonym routing = "route list \<Rightarrow> http_method \<Rightarrow> string \<Rightarrow> response + endpoint"

definition only_registered :: "routing \<Rightarrow> bool" where
  "only_registered rt \<longleftrightarrow>
     (\<forall>table meth path ep. rt table meth path = Inr ep \<longrightarrow> ep \<in> endpoint_of ` set table)"

section \<open>Requests\<close>

text \<open>A request, with what the extractors of the HTTP package make of its query and body: the
  arguments of the handler, or a refusal.\<close>

record request =
  hq_method :: http_method
  hq_path :: string
  hq_query :: "response + string option"
  hq_report :: "response + report_request"
  hq_inventory :: "response + string \<times> hardware_inventory"

text \<open>What the handlers consult: the registry, the clock, the asset directory and the service for its
  files, the file of host records, and the writers of JSON and errors.\<close>

record surroundings =
  su_registry :: registry_api
  su_t1 :: u64
  su_t2 :: u64
  su_debug :: "string \<Rightarrow> string"
  su_listing :: "(string \<times> u64 option) option list option"
  su_asset :: "cache \<Rightarrow> string \<Rightarrow> response"
  su_parse :: "string \<Rightarrow> host_record list option"
  su_hosts_file :: host_file
  su_version :: string
  su_listing_json :: "(string \<times> u64) list \<Rightarrow> string"
  su_feed_json :: "component_summary list \<Rightarrow> string"
  su_state_json :: "host_state list \<Rightarrow> string"
  su_hosts_json :: "host_counts \<times> host_record list \<Rightarrow> string"
  su_reload_error :: "reload_error \<Rightarrow> string"
  su_directory_error :: string
  su_upgrade :: response

definition ok_response :: "string \<Rightarrow> response" where
  "ok_response text = \<lparr>rs_status = 200, rs_body = text\<rparr>"

definition listing_response :: "surroundings \<Rightarrow> response" where
  "listing_response su =
     (case boot_listing (su_listing su) of
        Some assets \<Rightarrow> ok_response (su_listing_json su assets)
      | None \<Rightarrow> \<lparr>rs_status = 503, rs_body = ''asset directory unreadable: '' @ su_directory_error su @ [LF]\<rparr>)"

definition reload_response :: "surroundings \<Rightarrow> reload_error + nat \<Rightarrow> response" where
  "reload_response su r =
     (case r of
        Inr n \<Rightarrow> ok_response (''{'' @ [DQUOTE] @ ''records'' @ [DQUOTE] @ '':'' @ show_nat n @ ''}'')
      | Inl e \<Rightarrow> \<lparr>rs_status = 500, rs_body = ''reload failed: '' @ su_reload_error su e @ [LF]\<rparr>)"

text \<open>A handler with its extractor: a refused extraction is answered before the handler runs.\<close>

definition extracted :: "(response + 'a) \<Rightarrow> ('a \<Rightarrow> app_state \<Rightarrow> app_state \<times> response) \<Rightarrow> app_state \<Rightarrow> app_state \<times> response" where
  "extracted x handler s = (case x of Inl refusal \<Rightarrow> (s, refusal) | Inr v \<Rightarrow> handler v s)"

fun handle :: "surroundings \<Rightarrow> cache \<Rightarrow> request \<Rightarrow> endpoint \<Rightarrow> app_state \<Rightarrow> app_state \<times> response" where
  "handle su c rq EpHealth s = (s, health)"
| "handle su c rq EpReadyz s = (s, readyz (\<lambda>name. c name \<noteq> None))"
| "handle su c rq EpBootScript s =
     extracted (hq_query rq) (boot_script (su_registry su) (su_t1 su) (su_t2 su)) s"
| "handle su c rq EpBootListing s = (s, listing_response su)"
| "handle su c rq EpReport s = extracted (hq_report rq) (report (su_debug su) (su_t1 su)) s"
| "handle su c rq EpInventory s = extracted (hq_inventory rq) (\<lambda>(m, hw). inventory (su_t1 su) m hw) s"
| "handle su c rq EpAssets s = (s, su_asset su c (hq_path rq))"
| "handle su c rq EpMetrics s = (s, metrics_handler (su_version su) s)"
| "handle su c rq EpComponents s = (s, ok_response (su_feed_json su (collect (app_boot s) (app_assets s))))"
| "handle su c rq EpWsComponents s = (s, su_upgrade su)"
| "handle su c rq EpState s = (s, ok_response (su_state_json su (state_dump s)))"
| "handle su c rq EpHosts s = (s, ok_response (su_hosts_json su (hosts_list s)))"
| "handle su c rq EpHostsReload s =
     (case hosts_reload (su_parse su) (su_hosts_file su) s of (s', r) \<Rightarrow> (s', reload_response su r))"

definition routed :: "routing \<Rightarrow> route list \<Rightarrow> surroundings \<Rightarrow> cache \<Rightarrow> request \<Rightarrow> app_state \<Rightarrow> app_state \<times> response" where
  "routed rt table su c rq s =
     (case rt table (hq_method rq) (hq_path rq) of
        Inl own \<Rightarrow> (s, own)
      | Inr ep \<Rightarrow> handle su c rq ep s)"

text \<open>The two surfaces: only the one for the firmware is counted.\<close>

definition serve_boot :: "routing \<Rightarrow> surroundings \<Rightarrow> cache \<Rightarrow> request \<Rightarrow> app_state \<Rightarrow> app_state \<times> response" where
  "serve_boot rt su c rq = count_requests (hq_path rq) (routed rt boot_router su c rq)"

definition serve_mgmt :: "routing \<Rightarrow> surroundings \<Rightarrow> cache \<Rightarrow> request \<Rightarrow> app_state \<Rightarrow> app_state \<times> response" where
  "serve_mgmt rt = routed rt mgmt_router"

section \<open>The feed over a socket\<close>

text \<open>The turns of the socket's loop: the feed at the time and whether the send succeeds. The frames that
  were sent, and whether the loop ended. \<open>js\<close> is the JSON writer.\<close>

definition feed_text :: "(component_summary list \<Rightarrow> string option) \<Rightarrow> component_summary list \<Rightarrow> string" where
  "feed_text js feed = (case js feed of Some t \<Rightarrow> t | None \<Rightarrow> [])"

fun ws_components ::
  "(component_summary list \<Rightarrow> string option) \<Rightarrow> string \<Rightarrow> (component_summary list \<times> bool) list \<Rightarrow> string list \<times> bool" where
  "ws_components js sent [] = ([], False)"
| "ws_components js sent ((feed, ok) # turns) =
     (let json = feed_text js feed
      in if json \<noteq> sent
         then (if \<not> ok then ([], True)
               else (case ws_components js json turns of (frames, ended) \<Rightarrow> (json # frames, ended)))
         else ws_components js sent turns)"

text \<open>While the socket holds, what is pushed is the feed without its repetitions.\<close>

lemma pushes_are_changes:
  "list_all snd turns \<Longrightarrow>
    ws_components js sent turns = (tl (remdups_adj (sent # map (feed_text js \<circ> fst) turns)), False)"
proof (induction turns arbitrary: sent)
  case (Cons t turns)
  obtain feed ok where t: "t = (feed, ok)" by (cases t)
  have "tl (remdups_adj (x # y # zs)) = (if x = y then tl (remdups_adj (x # zs)) else remdups_adj (y # zs))"
    for x y :: string and zs by simp
  moreover have "remdups_adj (y # zs) = y # tl (remdups_adj (y # zs))" for y :: string and zs
    by (metis list.collapse list.distinct(1) remdups_adj_Cons_alt remdups_adj_Nil_iff hd_remdups_adj list.sel(1))
  ultimately show ?case using Cons by (auto simp: t Let_def)
qed simp

section \<open>What runs side by side\<close>

text \<open>The served cache, and the state of the watch, which holds the index and what the handlers share.\<close>

record system =
  sy_cache :: cache
  sy_watch :: watch_state

definition sys_app :: "system \<Rightarrow> app_state" where
  "sys_app sy = ks_app (snd (sy_watch sy))"

definition on_kube :: "(kube_state \<Rightarrow> kube_state) \<Rightarrow> system \<Rightarrow> system" where
  "on_kube f sy = sy\<lparr>sy_watch := map_prod id f (sy_watch sy)\<rparr>"

definition set_app :: "app_state \<Rightarrow> system \<Rightarrow> system" where
  "set_app s = on_kube (\<lambda>ks. ks\<lparr>ks_app := s\<rparr>)"

definition system_start ::
  "(string \<Rightarrow> host_record list option) \<Rightarrow> host_file \<Rightarrow> pallet_env \<Rightarrow> config \<Rightarrow> cache \<Rightarrow> system" where
  "system_start parse hf env cfg c =
     (let sv = startup parse hf env cfg c
      in \<lparr>sy_cache = sv_cache sv, sy_watch = ([], \<lparr>ks_index = [], ks_app = sv_app sv\<rparr>)\<rparr>)"

datatype sys_event =
    BootRequest surroundings request
  | MgmtRequest surroundings request
  | WatchEvent watch_event
  | StatusPass "string \<Rightarrow> string \<Rightarrow> boot_host_status \<Rightarrow> bool" string
  | RefreshTurn pallet_env

text \<open>The watch, the writer and the refresh loop run only when they were started.\<close>

definition refresh_system :: "pallet_env \<Rightarrow> system \<Rightarrow> system" where
  "refresh_system env sy =
     (case startup_source (app_cfg (sys_app sy)) of
        None \<Rightarrow> sy
      | Some src \<Rightarrow>
          (let sv = refresh_turn env src \<lparr>sv_cache = sy_cache sy, sv_app = sys_app sy\<rparr>
           in set_app (sv_app sv) (sy\<lparr>sy_cache := sv_cache sv\<rparr>)))"

fun sys_step :: "routing \<Rightarrow> system \<Rightarrow> sys_event \<Rightarrow> system" where
  "sys_step rt sy (BootRequest su rq) = set_app (fst (serve_boot rt su (sy_cache sy) rq (sys_app sy))) sy"
| "sys_step rt sy (MgmtRequest su rq) = set_app (fst (serve_mgmt rt su (sy_cache sy) rq (sys_app sy))) sy"
| "sys_step rt sy (WatchEvent e) =
     (if cfg_kube (app_cfg (sys_app sy)) then sy\<lparr>sy_watch := watch_step (sy_watch sy) e\<rparr> else sy)"
| "sys_step rt sy (StatusPass patch now) =
     (if writes_status (app_cfg (sys_app sy)) then on_kube (\<lambda>ks. fst (reconcile_status patch now ks)) sy else sy)"
| "sys_step rt sy (RefreshTurn env) = refresh_system env sy"

section \<open>What a step can change\<close>

text \<open>What no boot request changes: the configuration, the announced pallet and the records; and
  what no request at all changes, where a reload replaces the records of the file.\<close>

definition fixed :: "app_state \<Rightarrow> config \<times> asset_status \<times> host_store" where
  "fixed s = (app_cfg s, app_assets s, app_hosts s)"

definition settled :: "app_state \<Rightarrow> config \<times> asset_status \<times> (mac \<Rightarrow> host_record option)" where
  "settled s = (app_cfg s, app_assets s, kube_layer (app_hosts s))"

lemma settled_fixed: "fixed s = fixed s' \<Longrightarrow> settled s = settled s'"
  by (simp add: fixed_def settled_def)

lemma fixed_simps [simp]:
  "fixed (s\<lparr>app_metrics := x\<rparr>) = fixed s" "fixed (s\<lparr>app_boot := b\<rparr>) = fixed s"
  "fixed (s\<lparr>app_claims := cl\<rparr>) = fixed s" "fixed (count_refused s) = fixed s"
  "fixed (count_request uri s) = fixed s" "fixed (count_response r s) = fixed s"
  "fixed (observe_opt t m ph d s) = fixed s" "fixed (fst (serve_script m hr c s)) = fixed s"
  by (simp_all add: fixed_def count_refused_def count_request_def count_response_def observe_opt_def
      serve_script_def Let_def split: option.split)

lemma fixed_claim_for [simp]: "fixed (fst (claim_for api m g s)) = fixed s"
  by (simp add: claim_for_def split: option.split sum.split)

lemma fixed_admitted [simp]: "fixed (fst (boot_admitted api t1 t2 m hr s)) = fixed s"
proof -
  let ?s = "observe_opt t1 m ScriptFetched None s"
  obtain s1 r where cf: "claim_for api m (Option.bind hr hr_stack) ?s = (s1, r)" by fastforce
  then have "fixed s1 = fixed s" using fixed_claim_for [of api m "Option.bind hr hr_stack" ?s] by simp
  then show ?thesis using cf by (simp add: boot_admitted_def Let_def split: sum.split)
qed

lemma fixed_requests [simp]:
  "fixed (fst (boot_script api t1 t2 q s)) = fixed s"
  "fixed (fst (report dbg now rr s)) = fixed s"
  "fixed (fst (inventory now txt hw s)) = fixed s"
  by (simp_all add: boot_script_def boot_identified_def report_def inventory_def Let_def split: option.split sum.split)

text \<open>A request is one of four events of the application, or reads.\<close>

fun request_event :: "app_event \<Rightarrow> bool" where
  "request_event (BootScript _ _ _ _) = True"
| "request_event (Report _ _ _) = True"
| "request_event (InventoryReport _ _ _) = True"
| "request_event (HostsReload _ _) = True"
| "request_event _ = False"

lemma settled_reload [simp]: "settled (fst (hosts_reload parse hf s)) = settled s"
  using reload_replaces_or_keeps [THEN conjunct1, of parse hf "app_hosts s"]
  by (simp add: hosts_reload_def settled_def split_beta)

lemma settled_request: "request_event e \<Longrightarrow> settled (app_step s e) = settled s"
  by (cases e) (simp_all add: settled_fixed [OF fixed_requests(1)] settled_fixed [OF fixed_requests(2)]
      settled_fixed [OF fixed_requests(3)])

lemma handle_is_event:
  "fst (handle su c rq ep s) = s \<or> (\<exists>e. request_event e \<and> fst (handle su c rq ep s) = app_step s e)"
proof (cases "(su, c, rq, ep, s)" rule: handle.cases)
  case (3 su c rq s)
  then show ?thesis
    by (cases "hq_query rq") (auto simp: extracted_def intro: exI [of _ "BootScript a b d e" for a b d e])
next
  case (5 su c rq s)
  then show ?thesis
    by (cases "hq_report rq") (auto simp: extracted_def intro: exI [of _ "Report a b d" for a b d])
next
  case (6 su c rq s)
  then show ?thesis
    by (cases "hq_inventory rq") (auto simp: extracted_def intro: exI [of _ "InventoryReport a b d" for a b d])
next
  case (13 su c rq s)
  then show ?thesis
    by (auto simp: split_beta intro: exI [of _ "HostsReload a b" for a b])
qed auto

lemma routed_keeps:
  assumes "app_inv s"
  shows "app_inv (fst (routed rt table su c rq s))" and "settled (fst (routed rt table su c rq s)) = settled s"
  using assms handle_is_event [of su c rq _ s] settled_request [of _ s] app.inv_step [of s]
  by (auto simp: routed_def split: sum.split) metis+

lemma app_inv_counts [simp]:
  "app_inv (count_request uri s) = app_inv s" "app_inv (count_response r s) = app_inv s"
  by (simp_all add: count_request_def count_response_def)

lemma settled_counts [simp]:
  "settled (count_request uri s) = settled s" "settled (count_response r s) = settled s"
  by (rule settled_fixed, simp)+

lemma serve_boot_keeps:
  assumes "app_inv s"
  shows "app_inv (fst (serve_boot rt su c rq s))" and "settled (fst (serve_boot rt su c rq s)) = settled s"
  using assms routed_keeps [of "count_request (hq_path rq) s" rt boot_router su c rq]
  by (simp_all add: serve_boot_def count_requests_def split_beta)

section \<open>The invariant of the whole\<close>

definition sys_server :: "system \<Rightarrow> server" where
  "sys_server sy = \<lparr>sv_cache = sy_cache sy, sv_app = sys_app sy\<rparr>"

definition sys_inv :: "system \<Rightarrow> bool" where
  "sys_inv sy \<longleftrightarrow> app_inv (sys_app sy) \<and> honest (sys_server sy) \<and> coherent (snd (sy_watch sy))"

lemma on_app_simps [simp]:
  "sys_app (set_app s sy) = s" "sy_cache (on_kube f sy) = sy_cache sy" "sy_cache (set_app s sy) = sy_cache sy"
  "sy_watch (on_kube f sy) = (fst (sy_watch sy), f (snd (sy_watch sy)))"
  "sy_watch (set_app s sy) = (fst (sy_watch sy), (snd (sy_watch sy))\<lparr>ks_app := s\<rparr>)"
  "sys_app (on_kube f sy) = ks_app (f (snd (sy_watch sy)))"
  by (simp_all add: sys_app_def set_app_def on_kube_def map_prod_def split_beta)

lemma server_eta [simp]: "\<lparr>sv_cache = sv_cache sv, sv_app = sv_app sv\<rparr> = sv"
  by simp

lemma honest_cong:
  "app_assets s = app_assets s' \<Longrightarrow> honest \<lparr>sv_cache = c, sv_app = s\<rparr> = honest \<lparr>sv_cache = c, sv_app = s'\<rparr>"
  by (simp add: honest_def)

lemma sys_inv_request:
  assumes "sys_inv sy" "app_inv s" "settled s = settled (sys_app sy)"
  shows "sys_inv (set_app s sy)"
proof -
  have "kube_layer (app_hosts s) = kube_records (snd (sy_watch sy))" "app_assets s = app_assets (sys_app sy)"
    using assms(3) by (simp_all add: settled_def kube_records_def sys_app_def)
  then show ?thesis
    using assms(1,2) honest_cong [of s "sys_app sy"] by (simp add: sys_inv_def sys_server_def coherent_app)
qed

lemma watch_keeps:
  "app_inv (ks_app ks) \<Longrightarrow> app_inv (ks_app (snd (watch_step (buf, ks) e)))"
  "app_assets (ks_app (snd (watch_step (buf, ks) e))) = app_assets (ks_app ks)"
  by (cases e; auto simp: index_reset_def index_apply_def index_delete_def on_hosts_def app_inv_def Let_def
      intro: wf_intros split: option.split)+

lemma reconcile_keeps:
  "coherent ks \<Longrightarrow> app_inv (ks_app ks) \<Longrightarrow> reconcile_loop patch now l written ks = (ks', r) \<Longrightarrow>
    coherent ks' \<and> app_inv (ks_app ks') \<and> app_assets (ks_app ks') = app_assets (ks_app ks)"
proof (induction l arbitrary: written ks r)
  case (Cons mo l)
  obtain m ob where mo: "mo = (m, ob)" by (cases mo)
  have counted: "coherent (ks\<lparr>ks_app := count_status ok (ks_app ks)\<rparr>)"
    "app_inv (count_status ok (ks_app ks))" "app_assets (count_status ok (ks_app ks)) = app_assets (ks_app ks)" for ok
    using Cons.prems(1,2) by (auto intro: coherent_app simp: count_status_def kube_records_def)
  show ?case
  proof (cases "MAX_PATCHES_PER_PASS \<le> written \<or> wanted_patch (ks_app ks) now m ob = None")
    case True
    with Cons.prems Cons.IH [OF Cons.prems(1,2), of written] show ?thesis by (auto simp: mo split: if_splits)
  next
    case False
    then obtain ns name d where w: "wanted_patch (ks_app ks) now m ob = Some (ns, name, d)" by auto
    let ?ks = "\<lambda>ok. ks\<lparr>ks_app := count_status ok (ks_app ks)\<rparr>"
    obtain r' where r': "reconcile_loop patch now l (if patch ns name d then Suc written else written)
        (if patch ns name d then note_status m d (?ks True) else ?ks False) = (ks', r')"
      using Cons.prems(3) False w by (auto simp: mo Let_def split: prod.splits if_splits)
    from Cons.IH [OF _ _ this] show ?thesis
      using counted [of True] counted [of False] coherent_note [of "?ks True" m d] by (auto split: if_splits)
  qed
qed simp

lemma refresh_turn_keeps:
  "app_inv (sv_app (refresh_turn env src sv)) = app_inv (sv_app sv)"
  "app_hosts (sv_app (refresh_turn env src sv)) = app_hosts (sv_app sv)"
  by (auto simp: refresh_turn_def set_asset_status_def app_inv_def Let_def split: prod.split sum.split)

lemma sys_inv_refresh:
  assumes "sys_inv sy" "keeps_files env"
  shows "sys_inv (refresh_system env sy)"
proof (cases "startup_source (app_cfg (sys_app sy))")
  case (Some src)
  let ?sv = "refresh_turn env src (sys_server sy)"
  have sv: "sv_app (sys_server sy) = sys_app sy" by (simp add: sys_server_def)
  have "honest ?sv" using honest_turn [OF assms(2)] assms(1) by (simp add: sys_inv_def)
  moreover have "coherent ((snd (sy_watch sy))\<lparr>ks_app := sv_app ?sv\<rparr>)"
    using assms(1) refresh_turn_keeps(2) [of env src "sys_server sy"]
    by (intro coherent_app) (simp_all add: sys_inv_def kube_records_def sv sys_app_def)
  ultimately show ?thesis
    using assms(1) refresh_turn_keeps(1) [of env src "sys_server sy"] Some
    by (simp add: refresh_system_def sys_inv_def Let_def sys_server_def)
qed (use assms in \<open>simp add: refresh_system_def\<close>)

lemma sys_inv_start: "sys_inv (system_start parse hf env cfg c)"
proof -
  let ?sv = "startup parse hf env cfg c"
  have hosts: "store_wf (startup_hosts parse hf cfg)"
    by (auto simp: startup_hosts_def from_file_def empty_store_def intro: store_wf_reload store_wf_empty split: option.split)
  have kube: "kube_layer (startup_hosts parse hf cfg) m = None" for m
    using reload_replaces_or_keeps [THEN conjunct1, of parse hf "\<lparr>st_path = p, st_loaded = loaded_default\<rparr>" for p]
    by (simp add: startup_hosts_def from_file_def empty_store_def loaded_default_def split: option.split)
  obtain st where app: "sv_app ?sv = app_new cfg (startup_hosts parse hf cfg) (startup_claim_client cfg) st"
    by (simp add: startup_def split_beta)
  have "app_inv (sv_app ?sv)"
    unfolding app by (simp add: app_inv_def app_new_def bs_inv_def bs_wf_empty hosts)
  moreover have "coherent \<lparr>ks_index = [], ks_app = sv_app ?sv\<rparr>"
    unfolding app by (simp add: coherent_def hm_wf_def kube_records_def app_new_def kube fun_eq_iff)
  moreover have "\<lparr>sv_cache = sv_cache ?sv, sv_app = sv_app ?sv\<rparr> = ?sv" by simp
  ultimately show ?thesis
    using honest_startup [of parse hf env cfg c]
    by (simp only: sys_inv_def system_start_def Let_def sys_app_def sys_server_def system.select_convs
        kube_state.select_convs snd_conv)
qed

fun tame :: "sys_event \<Rightarrow> bool" where
  "tame (RefreshTurn env) = keeps_files env"
| "tame _ = True"

interpretation whole: guarded_system "sys_step rt" sys_inv tame for rt
proof
  fix sy e assume inv: "sys_inv sy" and t: "tame e"
  then have app: "app_inv (sys_app sy)" by (simp add: sys_inv_def)
  obtain buf ks where ws: "sy_watch sy = (buf, ks)" by fastforce
  have ks: "coherent ks" "app_inv (ks_app ks)" "sys_app sy = ks_app ks"
    using inv ws by (auto simp: sys_inv_def sys_app_def)
  show "sys_inv (sys_step rt sy e)"
  proof (cases e)
    case (BootRequest su rq)
    with sys_inv_request [OF inv serve_boot_keeps [OF app]] show ?thesis by simp
  next
    case (MgmtRequest su rq)
    with sys_inv_request [OF inv routed_keeps [OF app]] show ?thesis by (simp add: serve_mgmt_def)
  next
    case (WatchEvent we)
    have "coherent (snd (watch_step (buf, ks) we))" using coherent_watch [OF ks(1)] .
    with WatchEvent inv watch_keeps(1) [of ks buf we] watch_keeps(2) [of buf ks we] ks ws show ?thesis
      by (auto simp: sys_inv_def sys_app_def sys_server_def honest_def)
  next
    case (StatusPass patch now)
    obtain ks' r where "reconcile_loop patch now (ks_index ks) 0 ks = (ks', r)" by (rule prod.exhaust)
    with StatusPass inv reconcile_keeps [OF ks(1,2) this] ks(3) ws show ?thesis
      by (auto simp: sys_inv_def sys_server_def reconcile_status_def honest_def)
  next
    case (RefreshTurn env)
    with inv t show ?thesis by (simp add: sys_inv_refresh)
  qed
qed

section \<open>Properties\<close>

lemma ready_answers:
  "cache_is_complete c \<Longrightarrow> rs_status (snd (handle su c rq EpReadyz s)) = 200"
  by (simp add: readyz_def Http.REQUIRED_ASSETS_def cache_is_complete_def)


definition exact_router :: routing where
  "exact_router table meth path =
     (case find (\<lambda>r. case r of Route m p _ \<Rightarrow> m = meth \<and> p = path
                            | Nest p _ \<Rightarrow> path = p \<or> starts_with (p @ ''/'') path) table of
        Some r \<Rightarrow> Inr (endpoint_of r)
      | None \<Rightarrow> Inl \<lparr>rs_status = 404, rs_body = []\<rparr>)"

lemma exact_router_registered: "only_registered exact_router"
  by (auto simp: only_registered_def exact_router_def find_Some_iff split: option.splits)

definition demo_request :: "http_method \<Rightarrow> string \<Rightarrow> request" where
  "demo_request meth path =
     \<lparr>hq_method = meth, hq_path = path, hq_query = Inr (Some ''aa:bb:cc:dd:ee:ff''),
      hq_report = Inl \<lparr>rs_status = 415, rs_body = []\<rparr>, hq_inventory = Inl \<lparr>rs_status = 415, rs_body = []\<rparr>\<rparr>"

definition demo_surroundings :: surroundings where
  "demo_surroundings =
     \<lparr>su_registry = demo_api, su_t1 = 1, su_t2 = 2, su_debug = id, su_listing = None,
      su_asset = (\<lambda>_ _. \<lparr>rs_status = 404, rs_body = []\<rparr>), su_parse = (\<lambda>_. Some []),
      su_hosts_file = \<lparr>hf_mtime = None, hf_read = FileText []\<rparr>, su_version = ''0.1.0'',
      su_listing_json = (\<lambda>_. []), su_feed_json = (\<lambda>_. []), su_state_json = (\<lambda>_. []), su_hosts_json = (\<lambda>_. []),
      su_reload_error = (\<lambda>_. []), su_directory_error = [], su_upgrade = \<lparr>rs_status = 101, rs_body = []\<rparr>\<rparr>"

definition demo_system :: system where
  "demo_system = system_start (\<lambda>_. None) \<lparr>hf_mtime = None, hf_read = FileNotFound\<rparr>
     (demo_env pallet_spec_default 11) (default_config\<lparr>cfg_kube := True\<rparr>) (\<lambda>_. None)"


text \<open>What a request may change is decided by the surface it comes in on.\<close>

lemma boot_endpoint_fixed:
  assumes "ep \<in> endpoint_of ` set boot_router"
  shows "fixed (fst (handle su c rq ep s)) = fixed s"
  using assms by (auto simp: boot_router_def extracted_def split: sum.split prod.split)

lemma mgmt_endpoint_reads:
  assumes "ep \<in> endpoint_of ` set mgmt_router"
  shows "fst (handle su c rq ep s) = s
    \<or> ep = EpHostsReload \<and> fst (handle su c rq ep s) = s\<lparr>app_hosts := fst (reload (su_parse su) (su_hosts_file su) (app_hosts s))\<rparr>"
  using assms by (auto simp: mgmt_router_def hosts_reload_def split_beta)

lemma set_app_id [simp]: "set_app (sys_app sy) sy = sy"
  by (simp add: set_app_def on_kube_def sys_app_def map_prod_def split_beta)

text \<open>C31: The surfaces are separated: a request on the firmware's surface never changes the records that
  decide who boots what, nor the configuration or the announced pallet; a request on the
  management surface changes nothing at all, unless it is the reload, which replaces the records
  of the file and nothing else.\<close>

theorem surfaces_are_separated:
  assumes "only_registered rt"
  shows "fixed (sys_app (sys_step rt sy (BootRequest su rq))) = fixed (sys_app sy)
    \<and> (sys_step rt sy (MgmtRequest su rq) = sy
       \<or> rt mgmt_router (hq_method rq) (hq_path rq) = Inr EpHostsReload
         \<and> sys_step rt sy (MgmtRequest su rq) =
             set_app ((sys_app sy)\<lparr>app_hosts := fst (reload (su_parse su) (su_hosts_file su) (app_hosts (sys_app sy)))\<rparr>) sy)"
proof -
  have reach: "ep \<in> endpoint_of ` set table" if "rt table m path = Inr ep" for table m path ep
    using assms that unfolding only_registered_def by blast
  have "fixed (fst (routed rt boot_router su (sy_cache sy) rq s)) = fixed s" for s
    using boot_endpoint_fixed [OF reach] by (simp add: routed_def split: sum.split)
  then have "fixed (sys_app (sys_step rt sy (BootRequest su rq))) = fixed (sys_app sy)"
    by (simp add: serve_boot_def count_requests_def split_beta)
  moreover have "sys_step rt sy (MgmtRequest su rq) = sy
      \<or> rt mgmt_router (hq_method rq) (hq_path rq) = Inr EpHostsReload
        \<and> sys_step rt sy (MgmtRequest su rq) =
            set_app ((sys_app sy)\<lparr>app_hosts := fst (reload (su_parse su) (su_hosts_file su) (app_hosts (sys_app sy)))\<rparr>) sy"
  proof (cases "rt mgmt_router (hq_method rq) (hq_path rq)")
    case (Inr ep)
    with mgmt_endpoint_reads [OF reach [OF Inr], of su "sy_cache sy" rq "sys_app sy"] show ?thesis
      by (auto simp: serve_mgmt_def routed_def simp del: handle.simps)
  qed (simp add: serve_mgmt_def routed_def)
  ultimately show ?thesis by blast
qed

theorem surfaces_are_separated_witness:
  "fixed (sys_app (sys_step exact_router demo_system
      (BootRequest demo_surroundings (demo_request GET ''/boot.ipxe'')))) = fixed (sys_app demo_system)"
  using surfaces_are_separated [OF exact_router_registered] by blast

end
