(* ===== verification/Server_Main.thy ===== *)
theory Server_Main
  imports Netboot_Server
begin

text \<open>
  The course of the server (\<open>crates/stormnetboot-server/src/main.rs\<close>), from the accepted configuration
  to the exit: what is established before a socket is opened, which tasks are started, how the
  two surfaces are bound and served, and what makes them stop. What \<open>main\<close> does is a list of
  actions and, where it ends, a result; the outcomes of everything outside (the cluster, the
  sockets, the signals, the connections still open) are arguments, with times counted from the
  moment the surfaces are served. The lemmas show that the doors are opened last, that nothing
  depends on a cluster that cannot be reached, and when the server comes to an end.
\<close>

section \<open>Signals\<close>

text \<open>What becomes of listening for one signal: it cannot be listened for, it comes, or it never does.\<close>

datatype signal_source = CannotListen | ComesAt nat | NeverComes

text \<open>The branch for Ctrl-C ignores the error of listening, the branch for SIGTERM logs it: both are over
  at once.\<close>

fun ctrl_c :: "signal_source \<Rightarrow> nat option" where
  "ctrl_c CannotListen = Some 0"
| "ctrl_c (ComesAt t) = Some t"
| "ctrl_c NeverComes = None"

fun terminate :: "signal_source \<Rightarrow> nat option" where
  "terminate CannotListen = Some 0"
| "terminate (ComesAt t) = Some t"
| "terminate NeverComes = None"

text \<open>\<open>select!\<close>: whichever branch is over first.\<close>

fun sooner :: "nat option \<Rightarrow> nat option \<Rightarrow> nat option" where
  "sooner (Some a) (Some b) = Some (min a b)"
| "sooner (Some a) None = Some a"
| "sooner None b = b"

definition shutdown :: "signal_source \<Rightarrow> signal_source \<Rightarrow> nat option" where
  "shutdown interrupt term = sooner (ctrl_c interrupt) (terminate term)"

section \<open>The cluster\<close>

text \<open>The resources that are watched, and those a status is written to.\<close>

datatype api_scope = AllNamespaces | InNamespace string

definition watched :: "string option \<Rightarrow> api_scope" where
  "watched ns = (case ns of Some n \<Rightarrow> InNamespace n | None \<Rightarrow> AllNamespaces)"

definition in_namespace :: "string \<Rightarrow> api_scope" where
  "in_namespace n = InNamespace n"

section \<open>What main does\<close>

datatype surface = BootSurface | ManagementSurface

datatype main_error =
    CrdNotPrinted
  | Refused config_error
  | ClientNotBuilt
  | NotBound surface string
  | NoLocalAddress
  | ServingFailed surface

datatype main_action =
    PrintedCrd string
  | Established asset_status
  | SpawnedRefresh u64
  | SpawnedWatch api_scope
  | SpawnedStatusWriter u64
  | WithoutCluster
  | Bound surface string
  | Serves surface server

text \<open>What lies outside: the schema as text, the HTTP client, the hosts file, the registry and the disk,
  the cluster, the sockets (which may depend on those already bound), and for each surface the
  signals, the time its last connection takes to end after the shutdown at a time, and the time
  at which serving fails.\<close>

record main_env =
  me_crd :: "string option"
  me_client :: bool
  me_parse :: "string \<Rightarrow> host_record list option"
  me_hosts :: host_file
  me_pallet :: pallet_env
  me_cache :: cache
  me_cluster :: bool
  me_bind :: "string list \<Rightarrow> string \<Rightarrow> bool"
  me_local_addr :: bool
  me_ctrl_c :: "surface \<Rightarrow> signal_source"
  me_sigterm :: "surface \<Rightarrow> signal_source"
  me_drain :: "surface \<Rightarrow> nat \<Rightarrow> nat option"
  me_fails :: "surface \<Rightarrow> nat option"

definition cluster_tasks :: "bool \<Rightarrow> main_env \<Rightarrow> config \<Rightarrow> main_action list" where
  "cluster_tasks kubernetes env cfg =
     (if kubernetes \<and> cfg_kube cfg
      then (if me_cluster env
            then SpawnedWatch (watched (cfg_kube_namespace cfg))
                 # (if writes_status cfg then [SpawnedStatusWriter (cfg_status_secs cfg)] else [])
            else [WithoutCluster])
      else [])"

text \<open>How a surface ends: when, and whether it was shut down rather than failed.\<close>

definition surface_end :: "main_env \<Rightarrow> surface \<Rightarrow> (nat \<times> bool) option" where
  "surface_end env sf =
     (let drained = Option.bind (shutdown (me_ctrl_c env sf) (me_sigterm env sf))
                      (\<lambda>t. map_option (\<lambda>d. t + d) (me_drain env sf t))
      in case (me_fails env sf, drained) of
           (Some f, Some d) \<Rightarrow> Some (if f < d then (f, False) else (d, True))
         | (Some f, None) \<Rightarrow> Some (f, False)
         | (None, Some d) \<Rightarrow> Some (d, True)
         | (None, None) \<Rightarrow> None)"

text \<open>\<open>try_join!\<close>: the first failure, or both surfaces shut down.\<close>

fun try_join :: "(nat \<times> bool) option \<Rightarrow> (nat \<times> bool) option \<Rightarrow> (nat \<times> (main_error + unit)) option" where
  "try_join (Some (t, True)) (Some (u, True)) = Some (max t u, Inr ())"
| "try_join (Some (t, False)) (Some (u, False)) =
     Some (if t \<le> u then (t, Inl (ServingFailed BootSurface)) else (u, Inl (ServingFailed ManagementSurface)))"
| "try_join (Some (t, False)) _ = Some (t, Inl (ServingFailed BootSurface))"
| "try_join _ (Some (u, False)) = Some (u, Inl (ServingFailed ManagementSurface))"
| "try_join _ _ = None"

text \<open>The listeners, one after the other, and the serving of both.\<close>

definition open_doors :: "main_env \<Rightarrow> config \<Rightarrow> server \<Rightarrow> main_action list \<times> (nat \<times> (main_error + unit)) option" where
  "open_doors env cfg sv =
     (let boot = cfg_listen cfg; mgmt = cfg_mgmt_listen cfg
      in if \<not> me_bind env [] boot then ([], Some (0, Inl (NotBound BootSurface boot)))
         else if \<not> me_bind env [boot] mgmt
         then ([Bound BootSurface boot], Some (0, Inl (NotBound ManagementSurface mgmt)))
         else if \<not> me_local_addr env
         then ([Bound BootSurface boot, Bound ManagementSurface mgmt], Some (0, Inl NoLocalAddress))
         else ([Bound BootSurface boot, Bound ManagementSurface mgmt, Serves BootSurface sv, Serves ManagementSurface sv],
               try_join (surface_end env BootSurface) (surface_end env ManagementSurface)))"

text \<open>All of it. \<open>None\<close> as the end is a server that keeps running.\<close>

definition server_main :: "bool \<Rightarrow> main_env \<Rightarrow> config \<Rightarrow> main_action list \<times> (nat \<times> (main_error + unit)) option" where
  "server_main kubernetes env cfg =
     (if kubernetes \<and> cfg_print_crd cfg
      then (case me_crd env of
              None \<Rightarrow> ([], Some (0, Inl CrdNotPrinted))
            | Some text \<Rightarrow> ([PrintedCrd text], Some (0, Inr ())))
      else (case validate kubernetes cfg of
              Inl e \<Rightarrow> ([], Some (0, Inl (Refused e)))
            | Inr _ \<Rightarrow>
                if (claims_enabled cfg \<or> cfg_registry cfg \<noteq> None) \<and> \<not> me_client env
                then ([], Some (0, Inl ClientNotBuilt))
                else (let sv = startup (me_parse env) (me_hosts env) (me_pallet env) cfg (me_cache env);
                          tasks = (if cfg_registry cfg \<noteq> None then [SpawnedRefresh (cfg_refresh_secs cfg)] else [])
                            @ cluster_tasks kubernetes env cfg;
                          (doors, how) = open_doors env cfg sv
                      in (Established (app_assets (sv_app sv)) # tasks @ doors, how))))"

section \<open>What is served\<close>

fun opens :: "main_action \<Rightarrow> bool" where
  "opens (Bound _ _) = True"
| "opens (Serves _ _) = True"
| "opens _ = False"

lemma no_tasks_open [simp]: "\<not> list_ex opens (cluster_tasks kubernetes env cfg)"
  by (simp add: cluster_tasks_def)

lemma doors_open:
  "open_doors env cfg sv = (doors, r) \<Longrightarrow> list_all opens doors
    \<and> (\<forall>sf sv'. Serves sf sv' \<in> set doors \<longrightarrow> sv' = sv
         \<and> Bound BootSurface (cfg_listen cfg) \<in> set doors \<and> Bound ManagementSurface (cfg_mgmt_listen cfg) \<in> set doors)"
  by (auto simp: open_doors_def Let_def split: if_splits)

text \<open>A server that opens a door was accepted, and has established and started the rest before.\<close>

lemma server_opens:
  assumes "server_main kubernetes env cfg = (acts, r)" "list_ex opens acts"
  obtains doors where "validate kubernetes cfg = Inr ()"
    "open_doors env cfg (startup (me_parse env) (me_hosts env) (me_pallet env) cfg (me_cache env)) = (doors, r)"
    "acts = (Established (app_assets (sv_app (startup (me_parse env) (me_hosts env) (me_pallet env) cfg (me_cache env))))
       # (if cfg_registry cfg \<noteq> None then [SpawnedRefresh (cfg_refresh_secs cfg)] else [])
       @ cluster_tasks kubernetes env cfg) @ doors"
  using assms
  by (auto simp: server_main_def Let_def split: if_splits option.splits sum.splits prod.splits)

section \<open>Properties\<close>

text \<open>C8: The doors are opened last: a socket is bound only by a server whose configuration was accepted, after
  what it can serve was established and the refresh loop was started where there is a registry; a surface
  is served only once both sockets are bound; and what is served is the server as it was established,
  which has a bootable cache if it says so.\<close>

theorem doors_open_last:
  assumes "server_main kubernetes env cfg = (acts, r)" "list_ex opens acts"
  defines "sv \<equiv> startup (me_parse env) (me_hosts env) (me_pallet env) cfg (me_cache env)"
  shows "validate kubernetes cfg = Inr () \<and> honest sv
    \<and> (\<exists>before doors. acts = before @ doors \<and> \<not> list_ex opens before \<and> list_all opens doors
         \<and> Established (app_assets (sv_app sv)) \<in> set before
         \<and> (cfg_registry cfg \<noteq> None \<longrightarrow> SpawnedRefresh (cfg_refresh_secs cfg) \<in> set before)
         \<and> (\<forall>sf sv'. Serves sf sv' \<in> set doors \<longrightarrow> sv' = sv
              \<and> Bound BootSurface (cfg_listen cfg) \<in> set doors \<and> Bound ManagementSurface (cfg_mgmt_listen cfg) \<in> set doors))"
proof -
  obtain doors where d: "validate kubernetes cfg = Inr ()" "open_doors env cfg sv = (doors, r)"
    "acts = (Established (app_assets (sv_app sv))
       # (if cfg_registry cfg \<noteq> None then [SpawnedRefresh (cfg_refresh_secs cfg)] else [])
       @ cluster_tasks kubernetes env cfg) @ doors" (is "_ = ?before @ doors")
    using server_opens [OF assms(1,2)] unfolding sv_def by metis
  have "\<not> list_ex opens ?before" "Established (app_assets (sv_app sv)) \<in> set ?before"
    "cfg_registry cfg \<noteq> None \<longrightarrow> SpawnedRefresh (cfg_refresh_secs cfg) \<in> set ?before" by simp_all
  moreover have "honest sv" unfolding sv_def by (rule honest_startup)
  ultimately show ?thesis using d(1,3) doors_open [OF d(2)] by blast
qed


text \<open>A server that cannot listen for SIGTERM stops as soon as it serves: the branch of the shutdown that should
  wait for the signal logs the error and is over, which is taken for the signal.\<close>

theorem deaf_server_stops:
  assumes "server_main kubernetes env cfg = (acts, r)" "Serves sf sv \<in> set acts"
    and "\<And>s. me_sigterm env s = CannotListen \<and> me_drain env s 0 = Some 0 \<and> me_fails env s = None"
  shows "r = Some (0, Inr ())"
proof -
  have "shutdown (me_ctrl_c env s) (me_sigterm env s) = Some 0" for s
    using assms(3) [of s] by (cases "me_ctrl_c env s") (simp_all add: shutdown_def)
  moreover have "me_drain env s 0 = Some 0" "me_fails env s = None" for s using assms(3) by blast+
  ultimately have ends: "surface_end env s = Some (0, True)" for s by (simp add: surface_end_def)
  have "list_ex opens acts" using assms(2) by (auto simp: list_ex_iff intro: bexI [of _ "Serves sf sv"])
  then obtain doors where d: "open_doors env cfg (startup (me_parse env) (me_hosts env) (me_pallet env) cfg (me_cache env)) = (doors, r)"
    "acts = (Established (app_assets (sv_app (startup (me_parse env) (me_hosts env) (me_pallet env) cfg (me_cache env))))
       # (if cfg_registry cfg \<noteq> None then [SpawnedRefresh (cfg_refresh_secs cfg)] else [])
       @ cluster_tasks kubernetes env cfg) @ doors"
    using server_opens [OF assms(1)] by metis
  then have "Serves sf sv \<in> set doors" using assms(2) by (auto simp: cluster_tasks_def split: if_splits)
  then show ?thesis using d(1) ends by (auto simp: open_doors_def Let_def split: if_splits)
qed

section \<open>Without a cluster\<close>

text \<open>The events that the tasks and surfaces of a server can bring about.\<close>

fun brings_about :: "main_action list \<Rightarrow> sys_event \<Rightarrow> bool" where
  "brings_about acts (BootRequest _ _) = list_ex (\<lambda>a. case a of Serves BootSurface _ \<Rightarrow> True | _ \<Rightarrow> False) acts"
| "brings_about acts (MgmtRequest _ _) = list_ex (\<lambda>a. case a of Serves ManagementSurface _ \<Rightarrow> True | _ \<Rightarrow> False) acts"
| "brings_about acts (WatchEvent _) = list_ex (\<lambda>a. case a of SpawnedWatch _ \<Rightarrow> True | _ \<Rightarrow> False) acts"
| "brings_about acts (StatusPass _ _) = list_ex (\<lambda>a. case a of SpawnedStatusWriter _ \<Rightarrow> True | _ \<Rightarrow> False) acts"
| "brings_about acts (RefreshTurn _) = list_ex (\<lambda>a. case a of SpawnedRefresh _ \<Rightarrow> True | _ \<Rightarrow> False) acts"

text \<open>The system a server of those actions is, after the events.\<close>

definition system_after :: "routing \<Rightarrow> main_env \<Rightarrow> config \<Rightarrow> sys_event list \<Rightarrow> system" where
  "system_after rt env cfg es =
     foldl (sys_step rt) (system_start (me_parse env) (me_hosts env) (me_pallet env) cfg (me_cache env)) es"

lemma no_watch_without_cluster:
  assumes "server_main kubernetes env cfg = (acts, r)" "\<not> me_cluster env"
  shows "\<not> brings_about acts (WatchEvent e)" "\<not> brings_about acts (StatusPass patch now)"
  using assms
  by (auto simp: server_main_def open_doors_def cluster_tasks_def Let_def
      split: if_splits option.splits sum.splits prod.splits)

text \<open>Requests and refreshes leave the records of the cluster alone.\<close>

lemma file_records_stay:
  assumes "app_inv (sys_app sy)" "kube_layer (app_hosts (sys_app sy)) = (\<lambda>_. None)"
    and "\<And>w. e \<noteq> WatchEvent w" "\<And>p n. e \<noteq> StatusPass p n"
  shows "app_inv (sys_app (sys_step rt sy e)) \<and> kube_layer (app_hosts (sys_app (sys_step rt sy e))) = (\<lambda>_. None)"
proof (cases e)
  case (BootRequest su rq)
  then show ?thesis
    using serve_boot_keeps [OF assms(1), of rt su "sy_cache sy" rq] assms(2) by (simp add: settled_def)
next
  case (MgmtRequest su rq)
  then show ?thesis
    using routed_keeps [OF assms(1), of rt mgmt_router su "sy_cache sy" rq] assms(2) by (simp add: settled_def serve_mgmt_def)
next
  case (RefreshTurn env)
  then show ?thesis
    using assms(1,2) refresh_turn_keeps
    by (simp add: refresh_system_def Let_def split: option.split)
qed (use assms in auto)

text \<open>C19: A cluster that cannot be reached costs the server nothing but the cluster: it serves what it would serve
  otherwise and ends as it would otherwise, and in every state its surfaces and its refresh loop lead to, the
  record of each machine is the one of the bootstrap file.\<close>

theorem boots_without_a_cluster:
  assumes "server_main kubernetes env cfg = (acts, r)" "\<not> me_cluster env" "list_all (brings_about acts) es"
  shows "lookup (app_hosts (sys_app (system_after rt env cfg es))) m
       = file_layer (app_hosts (sys_app (system_after rt env cfg es))) m
    \<and> (\<exists>acts'. server_main kubernetes (env\<lparr>me_cluster := True\<rparr>) cfg = (acts', r)
         \<and> filter opens acts' = filter opens acts)"
proof
  have "app_inv (sys_app (system_after rt env cfg es))
      \<and> kube_layer (app_hosts (sys_app (system_after rt env cfg es))) = (\<lambda>_. None)"
    using assms(3)
  proof (induction es rule: rev_induct)
    case Nil
    let ?sy = "system_start (me_parse env) (me_hosts env) (me_pallet env) cfg (me_cache env)"
    have "sys_inv ?sy" by (rule sys_inv_start)
    then have "app_inv (sys_app ?sy)" "kube_layer (app_hosts (sys_app ?sy)) = (\<lambda>m. Option.bind (map_of (ks_index (snd (sy_watch ?sy))) m) to_record)"
      by (simp_all add: sys_inv_def coherent_def kube_records_def sys_app_def)
    moreover have "ks_index (snd (sy_watch ?sy)) = []" by (simp add: system_start_def Let_def)
    ultimately show ?case by (simp add: system_after_def)
  next
    case (snoc e es)
    have "e \<noteq> WatchEvent w" "e \<noteq> StatusPass p n" for w p n
      using snoc.prems no_watch_without_cluster [OF assms(1,2)] by auto
    with snoc show ?case using file_records_stay by (simp add: system_after_def)
  qed
  then show "lookup (app_hosts (sys_app (system_after rt env cfg es))) m
       = file_layer (app_hosts (sys_app (system_after rt env cfg es))) m"
    by (simp add: lookup_def)
  have none: "filter opens (cluster_tasks k env' cfg) = []" for k env'
    by (simp add: cluster_tasks_def)
  have "surface_end (env\<lparr>me_cluster := True\<rparr>) s = surface_end env s" for s by (simp add: surface_end_def)
  then have doors: "open_doors (env\<lparr>me_cluster := True\<rparr>) cfg sv = open_doors env cfg sv" for sv
    by (simp add: open_doors_def Let_def)
  show "\<exists>acts'. server_main kubernetes (env\<lparr>me_cluster := True\<rparr>) cfg = (acts', r) \<and> filter opens acts' = filter opens acts"
    using assms(1) by (auto simp: server_main_def doors none Let_def split: if_splits option.splits sum.splits prod.splits)
qed

section \<open>A server on its own\<close>

definition lone_env :: main_env where
  "lone_env = \<lparr>me_crd = None, me_client = True, me_parse = (\<lambda>_. None),
     me_hosts = \<lparr>hf_mtime = None, hf_read = FileNotFound\<rparr>, me_pallet = demo_env pallet_spec_default 11, me_cache = (\<lambda>_. None),
     me_cluster = False, me_bind = (\<lambda>taken addr. addr \<notin> set taken), me_local_addr = True,
     me_ctrl_c = (\<lambda>_. NeverComes), me_sigterm = (\<lambda>_. CannotListen), me_drain = (\<lambda>_ _. Some 0), me_fails = (\<lambda>_. None)\<rparr>"

definition lone_cfg :: config where
  "lone_cfg = default_config\<lparr>cfg_kube := True\<rparr>"

definition lone_server :: server where
  "lone_server = startup (me_parse lone_env) (me_hosts lone_env) (me_pallet lone_env) lone_cfg (me_cache lone_env)"

definition lone_actions :: "main_action list" where
  "lone_actions = [Established (app_assets (sv_app lone_server)), WithoutCluster, Bound BootSurface ''0.0.0.0:8080'',
     Bound ManagementSurface ''0.0.0.0:9096'', Serves BootSurface lone_server, Serves ManagementSurface lone_server]"

lemma lone_accepted: "validate True lone_cfg = Inr ()" "\<not> cfg_print_crd lone_cfg" "cfg_registry lone_cfg = None"
  by (simp_all add: lone_cfg_def validate_def default_config_def projects_pallets_def)

lemma lone_doors:
  "open_doors lone_env lone_cfg sv = ([Bound BootSurface ''0.0.0.0:8080'', Bound ManagementSurface ''0.0.0.0:9096'',
     Serves BootSurface sv, Serves ManagementSurface sv], Some (0, Inr ()))"
  by (simp add: open_doors_def lone_env_def lone_cfg_def default_config_def surface_end_def shutdown_def)

lemma lone_main: "server_main True lone_env lone_cfg = (lone_actions, Some (0, Inr ()))"
proof -
  have "cluster_tasks True lone_env lone_cfg = [WithoutCluster]"
    by (simp add: cluster_tasks_def lone_env_def lone_cfg_def)
  moreover have "\<not> claims_enabled lone_cfg" using lone_accepted(3) by (simp add: claims_enabled_def)
  ultimately show ?thesis
    using lone_accepted by (simp add: server_main_def lone_doors lone_actions_def lone_server_def Let_def)
qed

lemma lone_serves: "Serves BootSurface lone_server \<in> set lone_actions" "list_ex opens lone_actions"
  by (simp_all add: lone_actions_def)

theorem doors_open_last_witness:
  "honest lone_server \<and> (\<exists>before doors. lone_actions = before @ doors \<and> \<not> list_ex opens before \<and> list_all opens doors
     \<and> Established (app_assets (sv_app lone_server)) \<in> set before)"
  using doors_open_last [OF lone_main lone_serves(2)] unfolding lone_server_def by blast


theorem deaf_server_stops_witness: "snd (server_main True lone_env lone_cfg) = Some (0, Inr ())"
proof -
  have "me_sigterm lone_env s = CannotListen \<and> me_drain lone_env s 0 = Some 0 \<and> me_fails lone_env s = None" for s
    by (simp add: lone_env_def)
  from deaf_server_stops [OF lone_main lone_serves(1) this] show ?thesis by (simp add: lone_main)
qed

theorem boots_without_a_cluster_witness:
  "lookup (app_hosts (sys_app (system_after exact_router lone_env lone_cfg
       [BootRequest demo_surroundings (demo_request GET ''/boot.ipxe''),
        MgmtRequest demo_surroundings (demo_request POST ''/api/v1/hosts/reload'')]))) (Mac 0 1 2 3 4 5)
   = file_layer (app_hosts (sys_app (system_after exact_router lone_env lone_cfg
       [BootRequest demo_surroundings (demo_request GET ''/boot.ipxe''),
        MgmtRequest demo_surroundings (demo_request POST ''/api/v1/hosts/reload'')]))) (Mac 0 1 2 3 4 5)"
proof -
  have off: "\<not> me_cluster lone_env" by (simp add: lone_env_def)
  have "list_all (brings_about lone_actions) [BootRequest demo_surroundings (demo_request GET ''/boot.ipxe''),
        MgmtRequest demo_surroundings (demo_request POST ''/api/v1/hosts/reload'')]"
    by (simp add: lone_actions_def)
  from boots_without_a_cluster [OF lone_main off this] show ?thesis by (rule conjunct1)
qed

end
