(* ===== verification/Concurrent_Boots.thy ===== *)
theory Concurrent_Boots
  imports Http
begin

text \<open>
  Boot requests in flight together (\<open>crates/stormnetboot-server/src/http.rs\<close>). The handlers run on
  many threads and share the state through locks that are taken one at a time; only the lock of
  the claims is held across a request to the registry. Here the handler of a boot script is cut at
  every place where another request can come in between, and any number of them interleave with
  each other and with everything else that happens to the state. The lemmas show that a request
  that nobody interrupts is the handler of \<open>Http\<close>, that no interleaving claims twice for one machine,
  and that some request can always go on; and what happens when a client goes away in the middle
  of its claim.
\<close>

section \<open>The stages of a request\<close>

text \<open>Where a request stands: it has come in; it names a machine; it may boot, with its record; it has
  been observed and wants a claim; it holds the lock and the registry is asked; its claim failed; it
  has what it needs for its script; it was answered.\<close>

datatype stage =
    Arrived "string option"
  | Identified "mac option"
  | Admitted "mac option" "host_record option"
  | Claiming "mac option" "host_record option"
  | Asking "mac option" "host_record option"
  | ClaimFailed "mac option" string
  | Granted "mac option" "host_record option" "claim_response option"
  | Answered response

record boots =
  bo_app :: app_state
  bo_stage :: "nat \<Rightarrow> stage option"
  bo_lock :: "nat option"
  bo_posts :: "(mac option \<times> (string + claim_response)) list"

definition malformed_body :: "mac_parse_error \<Rightarrow> string" where
  "malformed_body err = ''#!ipxe'' @ [LF] @ ''# malformed mac: '' @ mac_error_display err @ [LF] @ ''shell'' @ [LF]"

definition no_claim_body :: "string \<Rightarrow> string" where
  "no_claim_body err =
     ''#!ipxe'' @ [LF] @ ''# could not claim a root volume: '' @ err @ [LF] @ ''shell'' @ [LF]"

text \<open>The stages that need no lock across a wait. The clock when the request is recorded is \<open>t1\<close>, when
  its failure is recorded \<open>t2\<close>.\<close>

fun stage_turn :: "u64 \<Rightarrow> u64 \<Rightarrow> stage \<Rightarrow> app_state \<Rightarrow> app_state \<times> stage" where
  "stage_turn t1 t2 (Arrived q) s0 =
     (let s = s0\<lparr>app_metrics := (app_metrics s0)
               \<lparr>mt_boot_script_requests := incr (mt_boot_script_requests (app_metrics s0))\<rparr>\<rparr>
      in (case map_option mac_parse q of
            Some (Inl err) \<Rightarrow> (count_refused s, Answered \<lparr>rs_status = 400, rs_body = malformed_body err\<rparr>)
          | Some (Inr m) \<Rightarrow> (s, Identified (Some m))
          | None \<Rightarrow> (s, Identified None)))"
| "stage_turn t1 t2 (Identified m) s =
     (case Option.bind m (lookup (app_hosts s)) of
        None \<Rightarrow>
          if cfg_unknown_hosts (app_cfg s) = Deny
          then (count_refused s, Answered \<lparr>rs_status = 403, rs_body = no_record_body\<rparr>)
          else (s, Admitted m None)
      | Some r \<Rightarrow>
          if \<not> hr_online r
          then (count_refused s, Answered \<lparr>rs_status = 403, rs_body = offline_body (hr_name r)\<rparr>)
          else (s, Admitted m (Some r)))"
| "stage_turn t1 t2 (Admitted m rec) s =
     (observe_opt t1 m ScriptFetched None s,
      if claims_enabled (app_cfg s) then Claiming m rec else Granted m rec None)"
| "stage_turn t1 t2 (ClaimFailed m err) s =
     (observe_opt t2 m Failed (Some (''claim failed: '' @ err))
        (s\<lparr>app_metrics := (app_metrics s)\<lparr>mt_claim_failures := incr (mt_claim_failures (app_metrics s))\<rparr>\<rparr>),
      Answered \<lparr>rs_status = 503, rs_body = no_claim_body err\<rparr>)"
| "stage_turn t1 t2 (Granted m rec granted) s =
     (case serve_script m rec granted s of (s', r) \<Rightarrow> (s', Answered r))"
| "stage_turn t1 t2 stage s = (s, stage)"

text \<open>One turn of request \<open>i\<close>, \<open>None\<close> when it is blocked or over. With a claim already made the lock is
  taken and given back at once; else it is held until the registry has answered.\<close>

definition ask_for :: "nat \<Rightarrow> mac option \<Rightarrow> host_record option \<Rightarrow> boots \<Rightarrow> boots option" where
  "ask_for i m rec b =
     (if app_claim_client (bo_app b) = None
      then Some (b\<lparr>bo_stage := (bo_stage b)(i \<mapsto> ClaimFailed m ''claims are not configured'')\<rparr>)
      else if bo_lock b \<noteq> None then None
      else (case Option.bind m (map_of (app_claims (bo_app b))) of
              Some existing \<Rightarrow> Some (b\<lparr>bo_stage := (bo_stage b)(i \<mapsto> Granted m rec (Some existing))\<rparr>)
            | None \<Rightarrow> Some (b\<lparr>bo_stage := (bo_stage b)(i \<mapsto> Asking m rec), bo_lock := Some i\<rparr>)))"

definition remember :: "mac option \<Rightarrow> claim_response \<Rightarrow> app_state \<Rightarrow> app_state" where
  "remember m c s =
     (case m of Some addr \<Rightarrow> s\<lparr>app_claims := AList.update addr c (app_claims s)\<rparr> | None \<Rightarrow> s)"

definition told :: "registry_api \<Rightarrow> nat \<Rightarrow> mac option \<Rightarrow> host_record option \<Rightarrow> boots \<Rightarrow> boots option" where
  "told api i m rec b =
     map_option (\<lambda>client.
       (let r = claim api client m (Option.bind rec hr_stack);
            b' = b\<lparr>bo_lock := None, bo_posts := bo_posts b @ [(m, r)]\<rparr>
        in (case r of
              Inl err \<Rightarrow> b'\<lparr>bo_stage := (bo_stage b)(i \<mapsto> ClaimFailed m err)\<rparr>
            | Inr c \<Rightarrow> b'\<lparr>bo_app := remember m c (bo_app b),
                          bo_stage := (bo_stage b)(i \<mapsto> Granted m rec (Some c))\<rparr>)))
       (app_claim_client (bo_app b))"

definition turn :: "registry_api \<Rightarrow> u64 \<Rightarrow> u64 \<Rightarrow> nat \<Rightarrow> boots \<Rightarrow> boots option" where
  "turn api t1 t2 i b =
     (case bo_stage b i of
        None \<Rightarrow> None
      | Some (Answered _) \<Rightarrow> None
      | Some (Claiming m rec) \<Rightarrow> ask_for i m rec b
      | Some (Asking m rec) \<Rightarrow> told api i m rec b
      | Some stage \<Rightarrow>
          (case stage_turn t1 t2 stage (bo_app b) of
             (s, stage') \<Rightarrow> Some (b\<lparr>bo_app := s, bo_stage := (bo_stage b)(i \<mapsto> stage')\<rparr>)))"

definition arrive :: "nat \<Rightarrow> string option \<Rightarrow> boots \<Rightarrow> boots" where
  "arrive i q b = b\<lparr>bo_stage := (bo_stage b)(i \<mapsto> Arrived q)\<rparr>"

section \<open>Interleavings\<close>

fun other_event :: "app_event \<Rightarrow> bool" where
  "other_event (BootScript _ _ _ _) = False"
| "other_event _ = True"

inductive boots_step :: "boots \<Rightarrow> boots \<Rightarrow> bool" where
  arrives: "bo_stage b i = None \<Longrightarrow> boots_step b (arrive i q b)"
| proceeds: "turn api t1 t2 i b = Some b' \<Longrightarrow> boots_step b b'"
| elsewhere: "other_event e \<Longrightarrow> boots_step b (b\<lparr>bo_app := app_step (bo_app b) e\<rparr>)"

definition boots_start :: "app_state \<Rightarrow> boots" where
  "boots_start s = \<lparr>bo_app = s, bo_stage = (\<lambda>_. None), bo_lock = None, bo_posts = []\<rparr>"

inductive boots_reachable :: "app_state \<Rightarrow> boots \<Rightarrow> bool" for s where
  start: "boots_reachable s (boots_start s)"
| step: "boots_reachable s b \<Longrightarrow> boots_step b b' \<Longrightarrow> boots_reachable s b'"

inductive_cases boots_stepE: "boots_step b b'"

section \<open>A request that is not interrupted\<close>

fun turns :: "nat \<Rightarrow> registry_api \<Rightarrow> u64 \<Rightarrow> u64 \<Rightarrow> nat \<Rightarrow> boots \<Rightarrow> boots" where
  "turns 0 api t1 t2 i b = b"
| "turns (Suc n) api t1 t2 i b =
     (case turn api t1 t2 i b of None \<Rightarrow> b | Some b' \<Rightarrow> turns n api t1 t2 i b')"

text \<open>\<open>ends n\<close>: alone for \<open>n\<close> turns, the request is answered, the others stand where they stood and the
  lock is free.\<close>

definition ends :: "nat \<Rightarrow> registry_api \<Rightarrow> u64 \<Rightarrow> u64 \<Rightarrow> nat \<Rightarrow> boots \<Rightarrow> app_state \<times> response \<Rightarrow> bool" where
  "ends n api t1 t2 i b res \<longleftrightarrow>
     bo_app (turns n api t1 t2 i b) = fst res \<and> bo_lock (turns n api t1 t2 i b) = None
     \<and> bo_stage (turns n api t1 t2 i b) = (bo_stage b)(i \<mapsto> Answered (snd res))"

lemma turns_answered: "bo_stage b i = Some (Answered r) \<Longrightarrow> turns n api t1 t2 i b = b"
  by (cases n) (simp_all add: turn_def)

lemma ends_answered:
  "bo_stage b i = Some (Answered r) \<Longrightarrow> bo_lock b = None \<Longrightarrow> ends n api t1 t2 i b (bo_app b, r)"
  by (auto simp: ends_def turns_answered)

lemma ends_turn:
  assumes "turn api t1 t2 i b = Some b'" "bo_stage b' = (bo_stage b)(i \<mapsto> st)" "ends n api t1 t2 i b' res"
  shows "ends (Suc n) api t1 t2 i b res"
  using assms by (simp add: ends_def)

text \<open>A stage without a lock: what is left is left from the stage it leads to.\<close>

lemma ends_stage:
  assumes "bo_stage b i = Some st" "\<nexists>r. st = Answered r" "\<nexists>m hr. st = Claiming m hr" "\<nexists>m hr. st = Asking m hr"
    and "stage_turn t1 t2 st (bo_app b) = (s, st')"
    and "ends n api t1 t2 i (b\<lparr>bo_app := s, bo_stage := (bo_stage b)(i \<mapsto> st')\<rparr>) res"
  shows "ends (Suc n) api t1 t2 i b res"
proof (rule ends_turn)
  show "turn api t1 t2 i b = Some (b\<lparr>bo_app := s, bo_stage := (bo_stage b)(i \<mapsto> st')\<rparr>)"
    using assms(1-5) by (cases st) (simp_all add: turn_def)
qed (use assms(6) in simp_all)

lemma ends_granted:
  assumes "bo_stage b i = Some (Granted m hr c)" "bo_lock b = None"
  shows "ends (Suc n) api t1 t2 i b (serve_script m hr c (bo_app b))"
proof -
  obtain s r where sr: "serve_script m hr c (bo_app b) = (s, r)" by fastforce
  have "ends n api t1 t2 i (b\<lparr>bo_app := s, bo_stage := (bo_stage b)(i \<mapsto> Answered r)\<rparr>) (s, r)"
    using ends_answered [of "b\<lparr>bo_app := s, bo_stage := (bo_stage b)(i \<mapsto> Answered r)\<rparr>" i r] assms(2) by simp
  then show ?thesis unfolding sr by (rule ends_stage [OF assms(1), rotated -1]) (simp_all add: sr)
qed

definition claim_refused :: "u64 \<Rightarrow> mac option \<Rightarrow> string \<Rightarrow> app_state \<Rightarrow> app_state \<times> response" where
  "claim_refused t2 m err s =
     (observe_opt t2 m Failed (Some (''claim failed: '' @ err))
        (s\<lparr>app_metrics := (app_metrics s)\<lparr>mt_claim_failures := incr (mt_claim_failures (app_metrics s))\<rparr>\<rparr>),
      \<lparr>rs_status = 503, rs_body = no_claim_body err\<rparr>)"

lemma ends_failed:
  assumes "bo_stage b i = Some (ClaimFailed m err)" "bo_lock b = None"
  shows "ends (Suc n) api t1 t2 i b (claim_refused t2 m err (bo_app b))"
proof -
  obtain s r where sr: "claim_refused t2 m err (bo_app b) = (s, r)" by fastforce
  have "ends n api t1 t2 i (b\<lparr>bo_app := s, bo_stage := (bo_stage b)(i \<mapsto> Answered r)\<rparr>) (s, r)"
    using ends_answered [of "b\<lparr>bo_app := s, bo_stage := (bo_stage b)(i \<mapsto> Answered r)\<rparr>" i r] assms(2) by simp
  moreover have "stage_turn t1 t2 (ClaimFailed m err) (bo_app b) = (s, Answered r)"
    using sr by (auto simp: claim_refused_def)
  ultimately show ?thesis unfolding sr by (intro ends_stage [OF assms(1)]) simp_all
qed

text \<open>From the claim on, by what \<open>claim_for\<close> gives.\<close>

lemma ends_claiming:
  assumes "bo_stage b i = Some (Claiming m hr)" "bo_lock b = None"
  shows "ends (Suc (Suc (Suc n))) api t1 t2 i b
    (case claim_for api m (Option.bind hr hr_stack) (bo_app b) of
       (s1, Inr c) \<Rightarrow> serve_script m hr (Some c) s1
     | (s1, Inl err) \<Rightarrow> claim_refused t2 m err s1)"
proof (cases "app_claim_client (bo_app b)")
  case None
  let ?b = "b\<lparr>bo_stage := (bo_stage b)(i \<mapsto> ClaimFailed m ''claims are not configured'')\<rparr>"
  have "turn api t1 t2 i b = Some ?b" using assms None by (simp add: turn_def ask_for_def)
  from ends_turn [OF this _ ends_failed] show ?thesis using None assms by (simp add: claim_for_def)
next
  case (Some client)
  show ?thesis
  proof (cases "Option.bind m (map_of (app_claims (bo_app b)))")
    case None
    let ?b = "b\<lparr>bo_stage := (bo_stage b)(i \<mapsto> Asking m hr), bo_lock := Some i\<rparr>"
    have t: "turn api t1 t2 i b = Some ?b" using assms Some None by (simp add: turn_def ask_for_def)
    obtain b' where t': "turn api t1 t2 i ?b = Some b'" and b': "bo_lock b' = None"
      "claim api client m (Option.bind hr hr_stack) = Inl err \<Longrightarrow>
         bo_stage b' = (bo_stage ?b)(i \<mapsto> ClaimFailed m err) \<and> bo_app b' = bo_app b"
      "claim api client m (Option.bind hr hr_stack) = Inr c \<Longrightarrow>
         bo_stage b' = (bo_stage ?b)(i \<mapsto> Granted m hr (Some c)) \<and> bo_app b' = remember m c (bo_app b)" for err c
      using Some by (auto simp: turn_def told_def Let_def split: sum.split)
    show ?thesis
    proof (cases "claim api client m (Option.bind hr hr_stack)")
      case (Inl err)
      have "ends (Suc n) api t1 t2 i b' (claim_refused t2 m err (bo_app b))"
        using ends_failed [of b' i m err] b'(1) b'(2) [OF Inl] by simp
      then have "ends (Suc (Suc n)) api t1 t2 i ?b (claim_refused t2 m err (bo_app b))"
        using b'(2) [OF Inl] by (intro ends_turn [OF t']) auto
      from ends_turn [OF t _ this] show ?thesis using Some None Inl by (simp add: claim_for_def)
    next
      case (Inr c)
      have "ends (Suc n) api t1 t2 i b' (serve_script m hr (Some c) (remember m c (bo_app b)))"
        using ends_granted [of b' i m hr "Some c"] b'(1) b'(3) [OF Inr] by simp
      then have "ends (Suc (Suc n)) api t1 t2 i ?b (serve_script m hr (Some c) (remember m c (bo_app b)))"
        using b'(3) [OF Inr] by (intro ends_turn [OF t']) auto
      from ends_turn [OF t _ this, of "Asking m hr"] show ?thesis
        using Some None Inr by (cases m) (simp_all add: claim_for_def remember_def)
    qed
  next
    case (Some existing)
    let ?b = "b\<lparr>bo_stage := (bo_stage b)(i \<mapsto> Granted m hr (Some existing))\<rparr>"
    have "turn api t1 t2 i b = Some ?b"
      using assms Some \<open>app_claim_client (bo_app b) = Some client\<close> by (simp add: turn_def ask_for_def)
    from ends_turn [OF this _ ends_granted] show ?thesis
      using assms Some \<open>app_claim_client (bo_app b) = Some client\<close> by (simp add: claim_for_def)
  qed
qed

lemma ends_admitted:
  assumes "bo_stage b i = Some (Admitted m hr)" "bo_lock b = None"
  shows "ends (Suc (Suc (Suc (Suc n)))) api t1 t2 i b (boot_admitted api t1 t2 m hr (bo_app b))"
proof -
  let ?s = "observe_opt t1 m ScriptFetched None (bo_app b)"
  let ?b = "\<lambda>st. b\<lparr>bo_app := ?s, bo_stage := (bo_stage b)(i \<mapsto> st)\<rparr>"
  let ?next = "if claims_enabled (app_cfg (bo_app b)) then Claiming m hr else Granted m hr None"
  have cfg: "app_cfg ?s = app_cfg (bo_app b)" by (simp add: observe_opt_def split: option.split)
  have "ends (Suc (Suc (Suc n))) api t1 t2 i (?b ?next) (boot_admitted api t1 t2 m hr (bo_app b))"
  proof (cases "claims_enabled (app_cfg (bo_app b))")
    case True
    then show ?thesis
      using ends_claiming [of "?b (Claiming m hr)" i m hr n api t1 t2] assms cfg
      by (simp add: boot_admitted_def Let_def claim_refused_def no_claim_body_def)
  next
    case False
    then show ?thesis
      using ends_granted [of "?b (Granted m hr None)" i m hr None "Suc (Suc n)" api t1 t2] assms cfg
      by (simp add: boot_admitted_def Let_def)
  qed
  then show ?thesis by (rule ends_stage [OF assms(1), rotated -1]) simp_all
qed

lemma ends_identified:
  assumes "bo_stage b i = Some (Identified m)" "bo_lock b = None"
  shows "ends (Suc (Suc (Suc (Suc (Suc n))))) api t1 t2 i b (boot_identified api t1 t2 m (bo_app b))"
proof -
  let ?hrec = "Option.bind m (lookup (app_hosts (bo_app b)))"
  obtain s st where t: "stage_turn t1 t2 (Identified m) (bo_app b) = (s, st)" by fastforce
  let ?b = "b\<lparr>bo_app := s, bo_stage := (bo_stage b)(i \<mapsto> st)\<rparr>"
  have "ends (Suc (Suc (Suc (Suc n)))) api t1 t2 i ?b (boot_identified api t1 t2 m (bo_app b))"
    using t assms(2) ends_admitted [of ?b i m ?hrec n api t1 t2] ends_answered [of ?b i]
    by (auto simp: boot_identified_def Let_def split: option.splits if_splits)
  then show ?thesis by (rule ends_stage [OF assms(1) _ _ _ t, rotated -1]) simp_all
qed

lemma ends_arrived:
  assumes "bo_stage b i = Some (Arrived q)" "bo_lock b = None"
  shows "ends (Suc (Suc (Suc (Suc (Suc (Suc n)))))) api t1 t2 i b (boot_script api t1 t2 q (bo_app b))"
proof -
  obtain s st where t: "stage_turn t1 t2 (Arrived q) (bo_app b) = (s, st)" by fastforce
  let ?b = "b\<lparr>bo_app := s, bo_stage := (bo_stage b)(i \<mapsto> st)\<rparr>"
  have "ends (Suc (Suc (Suc (Suc (Suc n))))) api t1 t2 i ?b (boot_script api t1 t2 q (bo_app b))"
    using t assms(2) ends_identified [of ?b i _ n api t1 t2] ends_answered [of ?b i]
    by (auto simp: boot_script_def Let_def malformed_body_def split: option.splits sum.splits)
  then show ?thesis by (rule ends_stage [OF assms(1) _ _ _ t, rotated -1]) simp_all
qed

section \<open>What every interleaving keeps\<close>

text \<open>The clones the registry made for a machine.\<close>

definition clones :: "(mac option \<times> (string + claim_response)) list \<Rightarrow> mac \<Rightarrow> claim_response list" where
  "clones posts m =
     List.map_filter (\<lambda>(m', r). case r of Inr c \<Rightarrow> if m' = Some m then Some c else None | Inl _ \<Rightarrow> None) posts"

lemma clones_simps [simp]:
  "clones [] m = []" "clones (ps @ qs) m = clones ps m @ clones qs m"
  "clones ((m', Inl err) # ps) m = clones ps m"
  "clones ((m', Inr c) # ps) m = (if m' = Some m then [c] else []) @ clones ps m"
  by (simp_all add: clones_def map_filter_def)

definition lock_agrees :: "boots \<Rightarrow> bool" where
  "lock_agrees b \<longleftrightarrow> (\<forall>i. bo_lock b = Some i \<longleftrightarrow> (\<exists>m hr. bo_stage b i = Some (Asking m hr)))"

definition claims_agree :: "boots \<Rightarrow> bool" where
  "claims_agree b \<longleftrightarrow>
     (\<forall>m. clones (bo_posts b) m = (case map_of (app_claims (bo_app b)) m of None \<Rightarrow> [] | Some c \<Rightarrow> [c]))
     \<and> (\<forall>i m hr. bo_stage b i = Some (Asking (Some m) hr) \<longrightarrow> map_of (app_claims (bo_app b)) m = None)
     \<and> (\<forall>i m hr c. bo_stage b i = Some (Granted (Some m) hr (Some c)) \<longrightarrow> map_of (app_claims (bo_app b)) m = Some c)
     \<and> (\<forall>i m hr. bo_stage b i = Some (Asking m hr) \<longrightarrow> app_claim_client (bo_app b) \<noteq> None)"

definition boots_inv :: "boots \<Rightarrow> bool" where
  "boots_inv b \<longleftrightarrow> lock_agrees b \<and> claims_agree b"

lemma client_observe [simp]: "app_claim_client (observe_opt t m ph d s) = app_claim_client s"
  by (simp add: observe_opt_def split: option.split)

lemma client_serve [simp]: "app_claim_client (fst (serve_script m hr c s)) = app_claim_client s"
  by (simp add: serve_script_def Let_def split: option.split)

lemma claims_refused [simp]:
  "app_claims (count_refused s) = app_claims s" "app_claim_client (count_refused s) = app_claim_client s"
  by (simp_all add: count_refused_def)

lemma client_other: "app_claim_client (app_step s e) = app_claim_client s" if "other_event e"
  using that by (cases e) (auto simp: report_def inventory_def hosts_reload_def set_asset_status_def on_hosts_def
      split: sum.split option.split prod.split)

lemma claims_other: "app_claims (app_step s e) = app_claims s" if "other_event e"
  using that by (cases e) (auto simp: report_def inventory_def hosts_reload_def set_asset_status_def on_hosts_def
      split: sum.split option.split prod.split)

text \<open>A stage without a lock leaves the claims alone, never asks, and grants no claim.\<close>

lemma stage_turn_frame:
  assumes "stage_turn t1 t2 st s = (s', st')" "\<nexists>m hr. st = Asking m hr" "\<nexists>m hr. st = Claiming m hr"
    "\<nexists>r. st = Answered r"
  shows "app_claims s' = app_claims s \<and> app_claim_client s' = app_claim_client s
    \<and> (\<forall>m hr. st' \<noteq> Asking m hr) \<and> (\<forall>m hr c. st' \<noteq> Granted m hr (Some c))"
proof (cases st)
  case (Granted m hr c)
  then have "s' = fst (serve_script m hr c s)" "st' = Answered (snd (serve_script m hr c s))"
    using assms(1) by (auto split: prod.splits)
  then show ?thesis by simp
qed (use assms in \<open>auto simp: Let_def split: option.splits sum.splits if_splits\<close>)

lemma boots_inv_quiet:
  assumes "boots_inv b" "app_claims s = app_claims (bo_app b)" "app_claim_client s = app_claim_client (bo_app b)"
    and "\<And>m hr. st \<noteq> Some (Asking m hr)" "\<And>m hr c. st = Some (Granted (Some m) hr (Some c)) \<Longrightarrow> map_of (app_claims s) m = Some c"
    and "\<And>m hr. bo_stage b i \<noteq> Some (Asking m hr)"
  shows "boots_inv (b\<lparr>bo_app := s, bo_stage := (bo_stage b)(i := st)\<rparr>)"
  using assms unfolding boots_inv_def lock_agrees_def claims_agree_def by auto

lemma boots_inv_ask:
  assumes "boots_inv b" "bo_stage b i = Some (Claiming m hr)" "ask_for i m hr b = Some b'"
  shows "boots_inv b'"
proof (cases "app_claim_client (bo_app b) = None \<or> Option.bind m (map_of (app_claims (bo_app b))) \<noteq> None")
  case True
  have settles: "boots_inv (b\<lparr>bo_stage := (bo_stage b)(i \<mapsto> st)\<rparr>)"
    if "\<forall>m hr. st \<noteq> Asking m hr"
      "\<forall>m hr c. st = Granted (Some m) hr (Some c) \<longrightarrow> map_of (app_claims (bo_app b)) m = Some c" for st
    using assms(1,2) that boots_inv_quiet [of b "bo_app b" "Some st" i] by auto
  show ?thesis
  proof (cases "app_claim_client (bo_app b)")
    case None
    then show ?thesis
      using assms(3) settles [of "ClaimFailed m ''claims are not configured''"] by (simp add: ask_for_def)
  next
    case (Some client)
    with True obtain c where c: "Option.bind m (map_of (app_claims (bo_app b))) = Some c" by auto
    then show ?thesis
      using assms(3) Some settles [of "Granted m hr (Some c)"]
      by (auto simp: ask_for_def bind_eq_Some_conv split: if_splits)
  qed
next
  case False
  then have b': "b' = b\<lparr>bo_stage := (bo_stage b)(i \<mapsto> Asking m hr), bo_lock := Some i\<rparr>" and free: "bo_lock b = None"
    using assms(3) by (auto simp: ask_for_def split: if_splits option.splits)
  have "lock_agrees b'"
    using assms(1) free by (auto simp: boots_inv_def lock_agrees_def b')
  moreover have "claims_agree b'"
    using assms(1) False by (auto simp: boots_inv_def claims_agree_def b')
  ultimately show ?thesis by (simp add: boots_inv_def)
qed

lemma remember_simps [simp]:
  "map_of (app_claims (remember m c s)) a = (if m = Some a then Some c else map_of (app_claims s) a)"
  "app_claim_client (remember m c s) = app_claim_client s"
  by (cases m; simp add: remember_def update_conv')+

lemma boots_inv_told:
  assumes "boots_inv b" "bo_stage b i = Some (Asking m hr)" "told api i m hr b = Some b'"
  shows "boots_inv b'"
proof -
  have agree: "bo_lock b = Some j \<longleftrightarrow> (\<exists>m hr. bo_stage b j = Some (Asking m hr))" for j
    using assms(1) by (simp add: boots_inv_def lock_agrees_def)
  have only: "j = i" if "bo_stage b j = Some (Asking m' hr')" for j m' hr'
    using agree [of j] agree [of i] that assms(2) by auto
  have new: "map_of (app_claims (bo_app b)) a = None" if "m = Some a" for a
    using assms(1,2) that by (auto simp: boots_inv_def claims_agree_def)
  obtain client where c: "app_claim_client (bo_app b) = Some client"
    using assms(3) by (auto simp: told_def)
  show ?thesis
  proof (cases "claim api client m (Option.bind hr hr_stack)")
    case (Inl err)
    then have b': "b' = b\<lparr>bo_lock := None, bo_posts := bo_posts b @ [(m, Inl err)],
        bo_stage := (bo_stage b)(i \<mapsto> ClaimFailed m err)\<rparr>"
      using assms(3) c by (simp add: told_def)
    have "lock_agrees b'" using only by (auto simp: b' lock_agrees_def)
    moreover have "claims_agree b'" using assms(1) c by (simp add: b' boots_inv_def claims_agree_def)
    ultimately show ?thesis by (simp add: boots_inv_def)
  next
    case (Inr cl)
    then have b': "b' = b\<lparr>bo_lock := None, bo_posts := bo_posts b @ [(m, Inr cl)], bo_app := remember m cl (bo_app b),
        bo_stage := (bo_stage b)(i \<mapsto> Granted m hr (Some cl))\<rparr>"
      using assms(3) c by (simp add: told_def)
    have "lock_agrees b'" using only by (auto simp: b' lock_agrees_def)
    moreover have "claims_agree b'"
    proof -
      note ca = assms(1) [unfolded boots_inv_def claims_agree_def, THEN conjunct2]
      have no_asking: "bo_stage b' j \<noteq> Some (Asking m' hr')" for j m' hr'
        using only [of j m' hr'] by (cases "j = i") (auto simp: b')
      have granted: "map_of (app_claims (bo_app b')) a = Some c" if "bo_stage b' j = Some (Granted (Some a) hr' (Some c))" for j a hr' c
      proof (cases "j = i")
        case False
        then have "map_of (app_claims (bo_app b)) a = Some c" using that ca by (simp add: b')
        with new [of a] show ?thesis by (auto simp: b')
      qed (use that in \<open>simp add: b'\<close>)
      have "clones (bo_posts b') a = (case map_of (app_claims (bo_app b')) a of None \<Rightarrow> [] | Some c \<Rightarrow> [c])" for a
        using ca new [of a] by (simp add: b')
      with granted no_asking show ?thesis unfolding claims_agree_def by blast
    qed
    ultimately show ?thesis by (simp add: boots_inv_def)
  qed
qed

lemma boots_inv_turn:
  assumes "boots_inv b" "turn api t1 t2 i b = Some b'"
  shows "boots_inv b'"
proof -
  obtain st where st: "bo_stage b i = Some st" "\<nexists>r. st = Answered r"
    using assms(2) by (auto simp: turn_def split: option.splits stage.splits)
  show ?thesis
  proof (cases "(\<exists>m hr. st = Claiming m hr) \<or> (\<exists>m hr. st = Asking m hr)")
    case True
    then show ?thesis
      using assms st boots_inv_ask [OF assms(1)] boots_inv_told [OF assms(1)] by (auto simp: turn_def)
  next
    case False
    obtain s st' where t: "stage_turn t1 t2 st (bo_app b) = (s, st')" by fastforce
    then have "b' = b\<lparr>bo_app := s, bo_stage := (bo_stage b)(i \<mapsto> st')\<rparr>"
      using assms(2) st False by (cases st) (simp_all add: turn_def del: stage_turn.simps)
    then show ?thesis
      using stage_turn_frame [OF t] st False assms(1) by (auto intro!: boots_inv_quiet)
  qed
qed

lemma boots_inv_step:
  assumes "boots_step b b'" "boots_inv b"
  shows "boots_inv b'"
  using assms(1)
proof cases
  case (arrives i q)
  then show ?thesis
    using boots_inv_quiet [OF assms(2), of "bo_app b" "Some (Arrived q)" i] by (simp add: arrive_def)
next
  case proceeds
  then show ?thesis using assms(2) by (simp add: boots_inv_turn)
next
  case (elsewhere e)
  then show ?thesis
    using assms(2) claims_other [of e "bo_app b"] client_other [of e "bo_app b"]
    by (simp add: boots_inv_def lock_agrees_def claims_agree_def)
qed

lemma boots_inv_reachable: "boots_reachable s b \<Longrightarrow> app_claims s = [] \<Longrightarrow> boots_inv b"
proof (induction rule: boots_reachable.induct)
  case start
  then show ?case by (simp add: boots_start_def boots_inv_def lock_agrees_def claims_agree_def)
next
  case (step b b')
  then show ?case using boots_inv_step by blast
qed

section \<open>Properties\<close>




text \<open>C18: No interleaving locks the boot path up: as long as a request is unanswered, some request can
  take its next turn, whatever the registry and the clock say.\<close>

theorem some_request_proceeds:
  assumes "boots_reachable s b" "app_claims s = []" "bo_stage b i = Some st" "\<nexists>r. st = Answered r"
  shows "\<exists>j. turn api t1 t2 j b \<noteq> None"
proof (cases "bo_lock b")
  case None
  then have "turn api t1 t2 i b \<noteq> None" if "\<nexists>m hr. st = Asking m hr"
    using assms(3,4) that by (cases st) (auto simp: turn_def ask_for_def split: prod.split option.split)
  moreover have "\<nexists>m hr. st = Asking m hr"
    using boots_inv_reachable [OF assms(1,2)] None assms(3) by (auto simp: boots_inv_def lock_agrees_def)
  ultimately show ?thesis by blast
next
  case (Some j)
  have inv: "lock_agrees b" "claims_agree b" using boots_inv_reachable [OF assms(1,2)] by (simp_all add: boots_inv_def)
  then obtain m hr where j: "bo_stage b j = Some (Asking m hr)" using Some unfolding lock_agrees_def by blast
  then have "app_claim_client (bo_app b) \<noteq> None" using inv(2) unfolding claims_agree_def by blast
  with j have "turn api t1 t2 j b \<noteq> None" by (auto simp: turn_def told_def)
  then show ?thesis by blast
qed

lemma reachable_turns: "boots_reachable s b \<Longrightarrow> boots_reachable s (turns n api t1 t2 i b)"
proof (induction n arbitrary: b)
  case (Suc n)
  show ?case
  proof (cases "turn api t1 t2 i b")
    case (Some b')
    then have "boots_reachable s b'" using Suc.prems by (blast intro: step proceeds)
    then show ?thesis using Some Suc.IH by simp
  qed (use Suc.prems in simp)
qed simp

definition demo_query :: "string option" where
  "demo_query = Some ''aa:bb:cc:dd:ee:ff''"

text \<open>Two requests of one machine: the second comes in while the first one's claim is made.\<close>

definition two_boots :: boots where
  "two_boots = turns 2 demo_api 1 2 0 (turns 4 demo_api 3 4 1 (turns 4 demo_api 1 2 0
     (arrive 1 demo_query (arrive 0 demo_query (boots_start demo_app)))))"

lemma arrivals_reachable: "boots_reachable s (arrive 0 q (boots_start s))" "boots_reachable s (arrive 1 q (arrive 0 q (boots_start s)))"
proof -
  have "boots_step (boots_start s) (arrive 0 q (boots_start s))"
    by (rule arrives) (simp add: boots_start_def)
  then show a: "boots_reachable s (arrive 0 q (boots_start s))" by (rule step [OF start])
  have "boots_step (arrive 0 q (boots_start s)) (arrive 1 q (arrive 0 q (boots_start s)))"
    by (rule arrives) (simp add: boots_start_def arrive_def)
  with a show "boots_reachable s (arrive 1 q (arrive 0 q (boots_start s)))" by (rule step)
qed


theorem some_request_proceeds_witness:
  "\<exists>j. turn demo_api 1 2 j (arrive 0 demo_query (boots_start demo_app)) \<noteq> None"
  by (rule some_request_proceeds [OF arrivals_reachable(1), of _ _ 0 "Arrived demo_query"])
    (simp_all add: demo_app_def app_new_def arrive_def boots_start_def)

section \<open>A client that goes away\<close>

text \<open>The future of a handler is dropped when its client goes away. If that happens while the registry
  is asked, the lock is given back, the registry has made its clone, and nothing remembers it.\<close>

definition abandon :: "registry_api \<Rightarrow> nat \<Rightarrow> boots \<Rightarrow> boots" where
  "abandon api i b =
     (case (bo_stage b i, app_claim_client (bo_app b)) of
        (Some (Asking m hr), Some client) \<Rightarrow>
          b\<lparr>bo_stage := (bo_stage b)(i := None), bo_lock := None,
            bo_posts := bo_posts b @ [(m, claim api client m (Option.bind hr hr_stack))]\<rparr>
      | _ \<Rightarrow> b\<lparr>bo_stage := (bo_stage b)(i := None)\<rparr>)"

text \<open>The retry of the machine then makes a second clone: the case that the map of claims is there to
  rule out.\<close>

theorem abandoned_claim_is_made_again:
  assumes "bo_stage b i = Some (Asking (Some m) hr)" "bo_stage b j = Some (Claiming (Some m) hr')"
    and "app_claim_client (bo_app b) = Some client" "map_of (app_claims (bo_app b)) m = None"
    and "claim api client (Some m) (Option.bind hr hr_stack) = Inr c"
    and "claim api client (Some m) (Option.bind hr' hr_stack) = Inr c'"
  shows "clones (bo_posts (turns 2 api t1 t2 j (abandon api i b))) m = clones (bo_posts b) m @ [c, c']"
proof -
  have "j \<noteq> i" using assms(1,2) by auto
  then show ?thesis
    using assms by (simp add: abandon_def turn_def ask_for_def told_def eval_nat_numeral)
qed

end
