(* ===== verification/Refresh_Moments.thy ===== *)
theory Refresh_Moments
  imports Server
begin

text \<open>
  The cache while a refresh is running (\<open>crates/stormnetboot-server/src/pallet.rs\<close>). Machines fetch
  their files from the cache directory at any time, and the server can be killed at any time, so
  what counts is every state the directory goes through, not only the last. The functions here
  list those states for the operations of \<open>Pallet\<close>, in order: a file that is written holds one
  prefix of its content after the other, a rename is one step. The lemmas show that the states end
  in the result of the refresh, and that what a refresh guarantees of its result holds at every
  moment; and what it does not guarantee, that the files belong together.
\<close>

section \<open>The states of the directory\<close>

definition write_moments :: "pallet_env \<Rightarrow> string \<Rightarrow> u8 list \<Rightarrow> cache \<Rightarrow> cache list" where
  "write_moments env name bytes c =
     map (\<lambda>k. c(name := Some (take k bytes))) [0..<Suc (length bytes)] @ [fst (write_file env name bytes c)]"

definition replace_moments :: "pallet_env \<Rightarrow> string \<Rightarrow> u8 list \<Rightarrow> cache \<Rightarrow> cache list" where
  "replace_moments env filename bytes c =
     write_moments env (tmp_name filename) bytes c
     @ (case write_file env (tmp_name filename) bytes c of
          (c1, False) \<Rightarrow> []
        | (c1, True) \<Rightarrow> [fst (rename_file env (tmp_name filename) filename c1)])"

definition fetch_member_moments ::
  "pallet_env \<Rightarrow> pallet_source \<Rightarrow> descriptor \<Rightarrow> string \<Rightarrow> cache \<Rightarrow> cache list" where
  "fetch_member_moments env src layer filename c =
     (case get_body env (repo_url src ''blobs'' (ds_digest layer)) of
        Inl e \<Rightarrow> []
      | Inr (header, bytes) \<Rightarrow>
          if sha256_text env bytes \<noteq> lowercase (ds_digest layer) then []
          else if ds_size layer \<noteq> 0 \<and> ds_size layer \<noteq> of_nat (length bytes) then []
          else replace_moments env filename bytes c)"

definition fetch_layer_moments ::
  "pallet_env \<Rightarrow> pallet_source \<Rightarrow> pallet_spec \<Rightarrow> descriptor \<Rightarrow> cache \<Rightarrow> cache list" where
  "fetch_layer_moments env src spec layer c =
     (case member_role layer of
        None \<Rightarrow> []
      | Some role \<Rightarrow>
          (case filename_for_role role of
             None \<Rightarrow> []
           | Some filename \<Rightarrow>
               (case inline_text spec role of
                  Some txt \<Rightarrow> write_moments env filename (bytes_of txt) c
                | None \<Rightarrow> fetch_member_moments env src layer filename c)))"

fun fetch_layers_moments ::
  "pallet_env \<Rightarrow> pallet_source \<Rightarrow> pallet_spec \<Rightarrow> descriptor list \<Rightarrow> cache \<Rightarrow> cache list" where
  "fetch_layers_moments env src spec [] c = []"
| "fetch_layers_moments env src spec (layer # rest) c =
     fetch_layer_moments env src spec layer c
     @ (case fetch_layer env src spec layer c of
          (c1, Inl e) \<Rightarrow> []
        | (c1, Inr _) \<Rightarrow> fetch_layers_moments env src spec rest c1)"

definition materialise_moments :: "pallet_env \<Rightarrow> pallet_source \<Rightarrow> u8 list \<Rightarrow> cache \<Rightarrow> cache list" where
  "materialise_moments env src manifest_bytes c =
     (case pe_manifest env manifest_bytes of
        None \<Rightarrow> []
      | Some m \<Rightarrow>
          if \<not> is_pallet m \<or> \<not> pe_mkdir env then []
          else fetch_layers_moments env src (read_spec env src m) (mf_layers m) c)"

definition refresh_moments :: "pallet_env \<Rightarrow> pallet_source \<Rightarrow> string option \<Rightarrow> cache \<Rightarrow> cache list" where
  "refresh_moments env src current_digest c =
     (case fetch_manifest env src of
        Inl e \<Rightarrow> []
      | Inr (manifest_bytes, digest) \<Rightarrow>
          if Some digest = current_digest then []
          else (case verify_signature env src digest of
                  Inl e \<Rightarrow> []
                | Inr signature_verified \<Rightarrow>
                    if src_require_signature src \<and> \<not> signature_verified then []
                    else materialise_moments env src manifest_bytes c))"

section \<open>They end in the result\<close>

primrec final :: "cache \<Rightarrow> cache list \<Rightarrow> cache" where
  "final c [] = c"
| "final c (m # ms) = final m ms"

lemma final_append [simp]: "final c (xs @ ys) = final (final c xs) ys"
  by (induction xs arbitrary: c) simp_all

lemma final_last: "final c ms = last (c # ms)"
  by (induction ms arbitrary: c) simp_all

lemma final_write [simp]: "final c (write_moments env name bytes c) = fst (write_file env name bytes c)"
  by (simp add: write_moments_def)

lemma final_fetch_member [simp]:
  "final c (fetch_member_moments env src layer filename c) = fst (fetch_member env src layer filename c)"
  by (auto simp: fetch_member_moments_def replace_moments_def fetch_member_def Let_def
      split: sum.split prod.split bool.split)

lemma final_fetch_layer [simp]:
  "final c (fetch_layer_moments env src spec layer c) = fst (fetch_layer env src spec layer c)"
  by (simp add: fetch_layer_moments_def fetch_layer_def split_beta split: option.split sum.split bool.split)

lemma final_fetch_layers:
  "final c (fetch_layers_moments env src spec layers c) = fst (fetch_layers env src spec layers served c)"
  by (induction layers arbitrary: c served) (simp_all add: split_beta split: sum.split option.split)

lemma final_materialise:
  "final c (materialise_moments env src bytes c) = fst (materialise env src bytes digest sv c)"
  by (simp add: materialise_moments_def materialise_def split_beta final_fetch_layers [of _ _ _ _ _ "[]"]
      split: option.split sum.split)

text \<open>The states of the directory end in the one the refresh leaves, whatever the refresh comes to.\<close>

theorem moments_end_in_the_result:
  "last (c # refresh_moments env src current c) = fst (refresh env src current c)"
  unfolding final_last [symmetric]
  by (simp add: refresh_moments_def refresh_def final_materialise split_beta split: sum.split)

section \<open>What holds at every moment\<close>

lemma write_moments_frame: "m \<in> set (write_moments env name bytes c) \<Longrightarrow> f \<noteq> name \<Longrightarrow> m f = c f"
  by (auto simp: write_moments_def write_file_def split: write_outcome.splits)

lemma replace_moments_cases:
  assumes "m \<in> set (replace_moments env filename bytes c)" "f \<in> served_names" "filename \<in> served_names"
  shows "m f = c f \<or> f = filename \<and> m f = Some bytes"
proof -
  have tmp: "f \<noteq> tmp_name filename" "filename \<noteq> tmp_name filename"
    using served_not_tmp [OF assms(2)] served_not_tmp [OF assms(3)] by auto
  show ?thesis
    using assms(1) write_moments_frame [of m env "tmp_name filename" bytes c f] tmp
    by (auto simp: replace_moments_def write_file_def rename_file_def split: write_outcome.splits if_splits)
qed

lemma fetch_layer_moments_cases:
  assumes "m \<in> set (fetch_layer_moments env src spec layer c)"
  obtains (inlined) role filename t where
      "member_role layer = Some role" "filename_for_role role = Some filename"
      "inline_text spec role = Some t" "m \<in> set (write_moments env filename (bytes_of t) c)"
  | (fetched) role filename bytes where
      "member_role layer = Some role" "filename_for_role role = Some filename"
      "m \<in> set (replace_moments env filename bytes c)" "sha256_text env bytes = lowercase (ds_digest layer)"
      "ds_size layer = 0 \<or> ds_size layer = of_nat (length bytes)"
proof -
  obtain role where role: "member_role layer = Some role"
    using assms by (cases "member_role layer") (simp_all add: fetch_layer_moments_def)
  then obtain filename where "filename_for_role role = Some filename"
    using assms by (cases "filename_for_role role") (simp_all add: fetch_layer_moments_def)
  note rf = role this
  show thesis
  proof (cases "inline_text spec role")
    case None
    with assms rf have mem: "m \<in> set (fetch_member_moments env src layer filename c)"
      by (simp add: fetch_layer_moments_def)
    then obtain header bytes where g: "get_body env (repo_url src ''blobs'' (ds_digest layer)) = Inr (header, bytes)"
      by (cases "get_body env (repo_url src ''blobs'' (ds_digest layer))") (auto simp: fetch_member_moments_def)
    with mem have "m \<in> set (replace_moments env filename bytes c)" "sha256_text env bytes = lowercase (ds_digest layer)"
      "ds_size layer = 0 \<or> ds_size layer = of_nat (length bytes)"
      by (simp_all add: fetch_member_moments_def split: if_splits)
    with rf show thesis by (rule fetched)
  next
    case (Some t)
    with assms rf inlined show thesis by (simp add: fetch_layer_moments_def)
  qed
qed

lemma fetch_layer_moments_accounted:
  assumes "m \<in> set (fetch_layer_moments env src spec layer c)" "f \<in> served_names"
  shows "accounted env spec [layer] c m f"
  using assms(1)
proof (cases rule: fetch_layer_moments_cases)
  case (inlined role filename t)
  then show ?thesis
    using write_moments_frame [OF inlined(4), of f] by (auto simp: accounted_def inline_under_def)
next
  case (fetched role filename bytes)
  then have "m f = c f \<or> f = filename \<and> m f = Some bytes"
    using replace_moments_cases assms(2) filename_served by blast
  with fetched show ?thesis unfolding accounted_def explains_def by auto
qed

lemma fetch_layers_moments_accounted:
  "m \<in> set (fetch_layers_moments env src spec layers c) \<Longrightarrow> f \<in> served_names \<Longrightarrow> accounted env spec layers c m f"
proof (induction layers arbitrary: c)
  case (Cons layer rest)
  obtain c1 r where r: "fetch_layer env src spec layer c = (c1, r)" by fastforce
  have one: "accounted env spec [layer] c c1 f" by (rule fetch_layer_accounted [OF r Cons.prems(2)])
  consider "m \<in> set (fetch_layer_moments env src spec layer c)"
    | "m \<in> set (fetch_layers_moments env src spec rest c1)"
    using Cons.prems(1) r by (auto split: sum.splits)
  then show ?case
  proof cases
    case 1
    show ?thesis
      by (rule accounted_step [OF accounted_refl fetch_layer_moments_accounted [OF 1 Cons.prems(2)]])
  next
    case 2
    show ?thesis by (rule accounted_step [OF Cons.IH [OF 2 Cons.prems(2)] one])
  qed
qed simp

text \<open>A disk on which no failed write deletes a file loses no served name at any moment.\<close>

lemma write_moments_keep:
  assumes "m \<in> set (write_moments env name bytes c)" "keeps_files env" "c f \<noteq> None"
  shows "m f \<noteq> None"
proof (cases "f = name")
  case True
  have "pe_write env name \<noteq> WriteFailed None" using assms(2) by (simp add: keeps_files_def)
  then show ?thesis using assms(1) True by (auto simp: write_moments_def write_file_def split: write_outcome.splits)
qed (use assms write_moments_frame in metis)

lemma fetch_layer_moments_keep:
  assumes "m \<in> set (fetch_layer_moments env src spec layer c)" "keeps_files env" "f \<in> served_names" "c f \<noteq> None"
  shows "m f \<noteq> None"
  using assms(1)
proof (cases rule: fetch_layer_moments_cases)
  case (inlined role filename t)
  then show ?thesis using write_moments_keep assms(2,4) by blast
next
  case (fetched role filename bytes)
  then show ?thesis using replace_moments_cases [OF fetched(3) assms(3) filename_served [OF fetched(2)]] assms(4) by auto
qed

lemma fetch_layers_moments_keep:
  "m \<in> set (fetch_layers_moments env src spec layers c) \<Longrightarrow> keeps_files env \<Longrightarrow> f \<in> served_names \<Longrightarrow>
    c f \<noteq> None \<Longrightarrow> m f \<noteq> None"
proof (induction layers arbitrary: c)
  case (Cons layer rest)
  obtain c1 r where r: "fetch_layer env src spec layer c = (c1, r)" by fastforce
  have "c1 f \<noteq> None" by (rule fetch_layer_keeps [OF Cons.prems(2) r Cons.prems(3,4)])
  then show ?case
    using Cons r fetch_layer_moments_keep [of m env src spec layer c f] by (auto split: sum.splits)
qed simp

section \<open>Properties\<close>


lemma demo_moment:
  "c(''vmlinuz'' := Some [10], tmp_name ''vmlinuz'' := None)
     \<in> set (refresh_moments (demo_env pallet_spec_default 11) demo_src None c)" (is "?m \<in> _")
proof -
  have l: "mf_layers (demo_manifest ''spec'') = [demo_layer ''kernel'' (demo_hash 10), demo_layer ''initramfs'' (demo_hash 11)]"
    "is_pallet (demo_manifest ''spec'')"
    by (simp_all add: demo_manifest_def is_pallet_def)
  have "?m \<in> set (fetch_layer_moments (demo_env pallet_spec_default 11) demo_src pallet_spec_default
      (demo_layer ''kernel'' (demo_hash 10)) c)"
    by (simp add: fetch_layer_moments_def fetch_member_moments_def replace_moments_def filename_for_role_def
        inline_text_def pallet_spec_default_def write_file_def rename_file_def fun_upd_twist)
  then show ?thesis by (simp add: refresh_moments_def materialise_moments_def l)
qed


text \<open>What is not kept is that the files belong together: in the middle of the refresh of a signed
  pallet there is a moment at which a machine finds the new kernel beside whatever initramfs was
  served before.\<close>

theorem files_of_two_pallets:
  "\<exists>m \<in> set (refresh_moments (demo_env pallet_spec_default 11) demo_src None c).
     m ''vmlinuz'' = Some [10] \<and> m ''initramfs.img'' = c ''initramfs.img''"
  by (rule bexI [OF _ demo_moment]) (simp add: tmp_name_def)

end
