(* ===== verification/Conformance.thy ===== *)
theory Conformance
  imports Kube_Store Components Server Assimilation
begin

text \<open>
  The ground for the unit tests of the repository (the \<open>tests\<close> modules at the end of its files), which
  the theories \<open>Server_Tests\<close>, \<open>Cluster_Tests\<close> and \<open>Node_Tests\<close> carry over: each test is a closed
  statement under the name of its function, with the assertions of the source in their order,
  proved by evaluating the model. Where a test reads JSON or an argument list, which the \<open>serde\<close>
  and \<open>clap\<close> packages do, the value they read is written out. The tests show that the
  definitions answer what the code is tested to answer; they are not the properties of the
  development.
\<close>

section \<open>Searching a text\<close>

fun has_prefix :: "string \<Rightarrow> string \<Rightarrow> bool" where
  "has_prefix [] s = True"
| "has_prefix (p # ps) [] = False"
| "has_prefix (p # ps) (c # s) = (p = c \<and> has_prefix ps s)"

text \<open>\<open>str::contains\<close>.\<close>

fun contains :: "string \<Rightarrow> string \<Rightarrow> bool" where
  "contains pat [] = (pat = [])"
| "contains pat (c # s) = (has_prefix pat (c # s) \<or> contains pat s)"

definition is_ok :: "'e + 'a \<Rightarrow> bool" where
  "is_ok r = (case r of Inr _ \<Rightarrow> True | Inl _ \<Rightarrow> False)"

definition is_err :: "'e + 'a \<Rightarrow> bool" where
  "is_err r = (case r of Inr _ \<Rightarrow> False | Inl _ \<Rightarrow> True)"

lemma is_ok_simps [simp]: "is_ok (Inr x)" "\<not> is_ok (Inl e)" "is_err (Inl e)" "\<not> is_err (Inr x)"
  by (simp_all add: is_ok_def is_err_def)

section \<open>Evaluation\<close>

named_theorems evaluation "what the tests evaluate with"

lemma digit_chars [evaluation]:
  "(char_of (48::nat) :: char) = CHR ''0''" "(char_of (49::nat) :: char) = CHR ''1''" "(char_of (50::nat) :: char) = CHR ''2''"
  "(char_of (51::nat) :: char) = CHR ''3''" "(char_of (52::nat) :: char) = CHR ''4''" "(char_of (53::nat) :: char) = CHR ''5''"
  "(char_of (54::nat) :: char) = CHR ''6''" "(char_of (55::nat) :: char) = CHR ''7''" "(char_of (56::nat) :: char) = CHR ''8''"
  "(char_of (57::nat) :: char) = CHR ''9''"
  by code_simp+

lemma hex_chars [evaluation]:
  "(char_of (97::nat) :: char) = CHR ''a''" "(char_of (98::nat) :: char) = CHR ''b''" "(char_of (99::nat) :: char) = CHR ''c''"
  "(char_of (100::nat) :: char) = CHR ''d''" "(char_of (101::nat) :: char) = CHR ''e''" "(char_of (102::nat) :: char) = CHR ''f''"
  by code_simp+

text \<open>The numerals of a number, digit by digit.\<close>

lemma show_nat_digit [evaluation]: "n < 10 \<Longrightarrow> show_nat n = [char_of (48 + n)]"
  by (simp add: show_nat.simps [of n])

lemma show_nat_more [evaluation]: "10 \<le> n \<Longrightarrow> show_nat n = show_nat (n div 10) @ [char_of (48 + n mod 10)]"
  by (simp add: show_nat.simps [of n])

declare show_word_def [evaluation] mac_display_def [evaluation] hex2_def [evaluation] hex_char_def [evaluation]
  starts_with_def [evaluation] strip_prefix_def [evaluation] trim_def [evaluation] trim_start_def [evaluation]
  trim_end_matches_def [evaluation] Let_def [evaluation]

lemma four_numerals: "show_word (4420::u16) = ''4420''" "show_word (0::u8) = ''0''"
  by (simp_all add: evaluation)

end
