(* ===== verification/Server_Tests.thy ===== *)
theory Server_Tests
  imports Conformance
begin

text \<open>
  The unit tests of the addresses, the tracker, the host records, the configuration, the claims,
  the boot scripts, the metrics and the pallet (\<open>mac.rs\<close>, \<open>state.rs\<close>, \<open>hosts.rs\<close>, \<open>config.rs\<close>,
  \<open>claims.rs\<close>, \<open>ipxe.rs\<close>, \<open>metrics.rs\<close>, \<open>pallet.rs\<close> under \<open>crates/stormnetboot-server/src/\<close>).
\<close>

section \<open>Addresses\<close>

definition every_spelling_normalises_to_the_same_identity :: bool where
  "every_spelling_normalises_to_the_same_identity \<longleftrightarrow>
     list_all (\<lambda>input. map_sum id mac_display (mac_parse input) = Inr ''aa:bb:cc:dd:ee:ff'')
       [''aa:bb:cc:dd:ee:ff'', ''AA:BB:CC:DD:EE:FF'', ''aa-bb-cc-dd-ee-ff'', ''aabb.ccdd.eeff'',
        ''aabbccddeeff'', ''AA BB CC DD EE FF'']"

definition rejects_wrong_length :: bool where
  "rejects_wrong_length \<longleftrightarrow>
     mac_parse ''aa:bb:cc'' = Inl (WrongLength 6) \<and> mac_parse ''aa:bb:cc:dd:ee:ff:00'' = Inl (WrongLength 14)"

definition rejects_non_hex :: bool where
  "rejects_non_hex \<longleftrightarrow> mac_parse ''zz:bb:cc:dd:ee:ff'' = Inl (NotHex (CHR ''z''))"

definition round_trips_through_serde :: bool where
  "round_trips_through_serde \<longleftrightarrow>
     (case mac_parse ''00:1b:21:3c:4d:5e'' of
        Inr m \<Rightarrow> mac_serialize m = ''00:1b:21:3c:4d:5e'' \<and> mac_deserialize (mac_serialize m) = Inr m
      | Inl _ \<Rightarrow> False)"

definition octets_are_big_endian_order :: bool where
  "octets_are_big_endian_order \<longleftrightarrow>
     map_sum id octets (mac_parse ''01:02:03:04:05:06'') = Inr [1, 2, 3, 4, 5, 6]"

lemma mac_tests:
  every_spelling_normalises_to_the_same_identity rejects_wrong_length rejects_non_hex round_trips_through_serde
  octets_are_big_endian_order
  unfolding every_spelling_normalises_to_the_same_identity_def rejects_wrong_length_def rejects_non_hex_def
    round_trips_through_serde_def octets_are_big_endian_order_def
  by code_simp+

section \<open>The tracker\<close>

text \<open>An address with the last octet given; the clock of the tests is the number of the call.\<close>

definition test_mac :: "u8 \<Rightarrow> mac" where
  "test_mac n = Mac 0xaa 0xbb 0xcc 0xdd 0xee n"

lemma test_mac_text: "mac_parse (''aa:bb:cc:dd:ee:'' @ ''01'') = Inr (test_mac 1)"
  unfolding test_mac_def by code_simp

definition phases_only_move_forward :: bool where
  "phases_only_move_forward \<longleftrightarrow>
     (let state = observe 3 (test_mac 1) AssetsFetched None
                    (observe 2 (test_mac 1) Running None (observe 1 (test_mac 1) ScriptFetched None []));
          snap = snapshot state
      in length snap = 1 \<and> hs_phase (snap ! 0) = Running)"

definition failure_can_arrive_at_any_time :: bool where
  "failure_can_arrive_at_any_time \<longleftrightarrow>
     (let snap = snapshot (observe 2 (test_mac 2) Failed (Some ''nvme attach timed out'') (observe 1 (test_mac 2) Running None []))
      in hs_phase (snap ! 0) = Failed \<and> hs_detail (snap ! 0) = Some ''nvme attach timed out'')"

definition counts_group_by_phase :: bool where
  "counts_group_by_phase \<longleftrightarrow>
     phase_counts (observe 3 (test_mac 3) Local None
       (observe 2 (test_mac 2) ScriptFetched None (observe 1 (test_mac 1) ScriptFetched None [])))
     = [(ScriptFetched, 2), (Local, 1)]"

definition finished_hosts_are_terminal :: bool where
  "finished_hosts_are_terminal \<longleftrightarrow> is_terminal Local \<and> is_terminal Failed \<and> \<not> is_terminal Assimilating"

definition inventory_arriving_first_still_creates_the_host :: bool where
  "inventory_arriving_first_still_creates_the_host \<longleftrightarrow>
     (let state = set_inventory 1 (test_mac 5)
            \<lparr>inv_cpus = 64, inv_memory_kb = 268435456, inv_product = Some ''PowerEdge R650'',
             inv_serial = Some ''ABC123'', inv_disks = [''nvme0n1'']\<rparr> []
      in case get_host state (test_mac 5) of
           Some host \<Rightarrow> hs_phase host = Running \<and> map_option inv_cpus (hs_hardware host) = Some 64
         | None \<Rightarrow> False)"

definition inventory_does_not_disturb_the_phase_of_a_host_that_moved_on :: bool where
  "inventory_does_not_disturb_the_phase_of_a_host_that_moved_on \<longleftrightarrow>
     (let state = set_inventory 2 (test_mac 6)
            \<lparr>inv_cpus = 8, inv_memory_kb = 0, inv_product = None, inv_serial = None, inv_disks = []\<rparr>
            (observe 1 (test_mac 6) Assimilating None [])
      in map_option hs_phase (get_host state (test_mac 6)) = Some Assimilating)"

definition every_phase_has_a_distinct_slug :: bool where
  "every_phase_has_a_distinct_slug \<longleftrightarrow>
     (let phases = [ScriptFetched, AssetsFetched, RootAttached, Running, Assimilating, Local, Failed]
      in length (remdups (map slug phases)) = length phases)"

definition pallet_version_is_recorded :: bool where
  "pallet_version_is_recorded \<longleftrightarrow>
     hs_pallet_version (snapshot (set_pallet_version (test_mac 4) ''10.20'' (observe 1 (test_mac 4) ScriptFetched None [])) ! 0)
       = Some ''10.20''"

lemmas tracker_eval = test_mac_def observe_def set_inventory_def set_pallet_version_def snapshot_def get_host_def
  phase_counts_def count_phase_def make_room_def MAX_TRACKED_def is_terminal_def less_eq_phase_def Let_def

lemma state_tests:
  phases_only_move_forward failure_can_arrive_at_any_time counts_group_by_phase finished_hosts_are_terminal
  inventory_arriving_first_still_creates_the_host inventory_does_not_disturb_the_phase_of_a_host_that_moved_on
  every_phase_has_a_distinct_slug pallet_version_is_recorded
  by (simp_all add: tracker_eval phases_only_move_forward_def failure_can_arrive_at_any_time_def
      counts_group_by_phase_def finished_hosts_are_terminal_def inventory_arriving_first_still_creates_the_host_def
      inventory_does_not_disturb_the_phase_of_a_host_that_moved_on_def every_phase_has_a_distinct_slug_def
      pallet_version_is_recorded_def)

section \<open>Host records\<close>

text \<open>A file of records as the JSON reader gives them, at a modification time that can be had.\<close>

definition plain_record :: "mac \<Rightarrow> string \<Rightarrow> host_record" where
  "plain_record m name = \<lparr>hr_mac = m, hr_name = name, hr_role = None, hr_stack = None, hr_portal = None,
     hr_extra_cmdline = None, hr_online = True, hr_object = None\<rparr>"

definition cluster_record :: "mac \<Rightarrow> string \<Rightarrow> host_record" where
  "cluster_record m name = (plain_record m name)
     \<lparr>hr_object := Some \<lparr>or_namespace = ''storm-system'', or_name = name, or_generation = 1\<rparr>\<rparr>"

definition temp_file :: host_file where
  "temp_file = \<lparr>hf_mtime = Some 7, hf_read = FileText ''json''\<rparr>"

definition store_of :: "host_record list \<Rightarrow> host_store" where
  "store_of rs = from_file (\<lambda>_. Some rs) temp_file ''hosts.json''"

definition loads_records_and_looks_them_up_by_any_mac_spelling :: bool where
  "loads_records_and_looks_them_up_by_any_mac_spelling \<longleftrightarrow>
     (let store = store_of [(plain_record (projr (mac_parse ''AA-BB-CC-DD-EE-01'')) ''node1'')\<lparr>hr_role := Some ''master''\<rparr>,
                            (plain_record (projr (mac_parse ''aabb.ccdd.ee02'')) ''node2'')\<lparr>hr_stack := Some ''stormcos:10.20''\<rparr>];
          at = (\<lambda>t. lookup store (projr (mac_parse t)))
      in store_len store = 2
       \<and> map_option hr_name (at ''aa:bb:cc:dd:ee:01'') = Some ''node1''
       \<and> Option.bind (at ''aa:bb:cc:dd:ee:01'') hr_role = Some ''master''
       \<and> Option.bind (at ''aa:bb:cc:dd:ee:02'') hr_stack = Some ''stormcos:10.20''
       \<and> at ''00:00:00:00:00:00'' = None)"

definition missing_file_is_not_an_error :: bool where
  "missing_file_is_not_an_error \<longleftrightarrow>
     (let hf = \<lparr>hf_mtime = None, hf_read = FileNotFound\<rparr>;
          store = from_file (\<lambda>_. None) hf ''/nonexistent/hosts.json''
      in store_is_empty store \<and> snd (reload (\<lambda>_. None) hf store) = Inr 0)"

definition empty_store_knows_nobody :: bool where
  "empty_store_knows_nobody \<longleftrightarrow>
     store_is_empty empty_store \<and> lookup empty_store (projr (mac_parse ''aa:bb:cc:dd:ee:ff'')) = None"

definition policy_parses_both_ways :: bool where
  "policy_parses_both_ways \<longleftrightarrow>
     policy_from_str ''allow'' = Inr Allow \<and> policy_from_str ''DENY'' = Inr Deny \<and> is_err (policy_from_str ''maybe'')"

definition malformed_json_surfaces_as_an_error :: bool where
  "malformed_json_surfaces_as_an_error \<longleftrightarrow>
     is_err (snd (reload (\<lambda>_. None) temp_file \<lparr>st_path = Some ''hosts.json'', st_loaded = loaded_default\<rparr>))"

definition the_cluster_layer_wins_and_the_file_only_fills_the_gaps :: bool where
  "the_cluster_layer_wins_and_the_file_only_fills_the_gaps \<longleftrightarrow>
     (let store = set_kube_records [cluster_record (test_mac 1) ''from-cluster'', cluster_record (test_mac 3) ''only-in-cluster'']
            (store_of [plain_record (test_mac 1) ''from-file'', plain_record (test_mac 2) ''only-in-file''])
      in map_option hr_name (lookup store (test_mac 1)) = Some ''from-cluster''
       \<and> map_option hr_name (lookup store (test_mac 2)) = Some ''only-in-file''
       \<and> map_option hr_name (lookup store (test_mac 3)) = Some ''only-in-cluster''
       \<and> counts store = \<lparr>hc_file = 2, hc_kube = 2, hc_total = 3, hc_kube_synced = True\<rparr>
       \<and> length (records store) = 3)"

definition deleting_a_boothost_falls_back_to_the_file_rather_than_to_nothing :: bool where
  "deleting_a_boothost_falls_back_to_the_file_rather_than_to_nothing \<longleftrightarrow>
     (let store = apply_kube_record (cluster_record (test_mac 1) ''from-cluster'') (store_of [plain_record (test_mac 1) ''from-file''])
      in map_option hr_name (lookup store (test_mac 1)) = Some ''from-cluster''
       \<and> map_option hr_name (lookup (remove_kube_record (test_mac 1) store) (test_mac 1)) = Some ''from-file'')"

definition an_unsynced_store_says_so_rather_than_claiming_the_fleet_is_empty :: bool where
  "an_unsynced_store_says_so_rather_than_claiming_the_fleet_is_empty \<longleftrightarrow>
     \<not> kube_synced empty_store \<and> kube_synced (set_kube_records [] empty_store)"

definition records_default_to_online :: bool where
  "records_default_to_online \<longleftrightarrow>
     (let store = store_of [plain_record (test_mac 1) ''n1'', (plain_record (test_mac 2) ''n2'')\<lparr>hr_online := False\<rparr>]
      in map_option hr_online (lookup store (test_mac 1)) = Some True
       \<and> map_option hr_online (lookup store (test_mac 2)) = Some False)"

lemma test_addresses:
  "mac_parse ''AA-BB-CC-DD-EE-01'' = Inr (test_mac 1)" "mac_parse ''aabb.ccdd.ee02'' = Inr (test_mac 2)"
  "mac_parse ''aa:bb:cc:dd:ee:01'' = Inr (test_mac 1)" "mac_parse ''aa:bb:cc:dd:ee:02'' = Inr (test_mac 2)"
  "mac_parse ''00:00:00:00:00:00'' = Inr (Mac 0 0 0 0 0 0)" "mac_parse ''aa:bb:cc:dd:ee:ff'' = Inr (test_mac 255)"
  unfolding test_mac_def by code_simp+

lemmas store_eval = store_of_def from_file_def reload_def temp_file_def by_mac_def hm_collect_def loaded_default_def
  empty_store_def lookup_def store_len_def store_is_empty_def set_kube_records_def apply_kube_record_def
  remove_kube_record_def kube_synced_def counts_def records_def file_only_def plain_record_def cluster_record_def
  test_mac_def test_addresses Let_def

lemma hosts_tests:
  loads_records_and_looks_them_up_by_any_mac_spelling missing_file_is_not_an_error empty_store_knows_nobody
  malformed_json_surfaces_as_an_error the_cluster_layer_wins_and_the_file_only_fills_the_gaps
  deleting_a_boothost_falls_back_to_the_file_rather_than_to_nothing
  an_unsynced_store_says_so_rather_than_claiming_the_fleet_is_empty records_default_to_online
  by (simp_all add: store_eval loads_records_and_looks_them_up_by_any_mac_spelling_def missing_file_is_not_an_error_def
      empty_store_knows_nobody_def malformed_json_surfaces_as_an_error_def
      the_cluster_layer_wins_and_the_file_only_fills_the_gaps_def
      deleting_a_boothost_falls_back_to_the_file_rather_than_to_nothing_def
      an_unsynced_store_says_so_rather_than_claiming_the_fleet_is_empty_def records_default_to_online_def)

lemma policy_tests: policy_parses_both_ways
  unfolding policy_parses_both_ways_def by code_simp


section \<open>Configuration\<close>

text \<open>What the argument parser makes of the arguments is the defaults with the fields named set. (That a
  list of keys is cut at its commas and that the refresh interval has a floor is tested of the
  argument parser alone, and not here.)\<close>

definition defaults_are_a_directory_server_with_no_claims :: bool where
  "defaults_are_a_directory_server_with_no_claims \<longleftrightarrow>
     \<not> projects_pallets default_config \<and> \<not> claims_enabled default_config \<and> is_ok (validate True default_config)"

definition claiming_requires_a_registry_and_a_golden :: bool where
  "claiming_requires_a_registry_and_a_golden \<longleftrightarrow>
     is_err (validate True (default_config\<lparr>cfg_claim := True\<rparr>))
     \<and> is_err (validate True (default_config\<lparr>cfg_claim := True, cfg_registry := Some ''http://r:5100''\<rparr>))
     \<and> (let c = default_config\<lparr>cfg_claim := True, cfg_registry := Some ''http://r:5100'', cfg_golden := Some ''stormcos'',
                                cfg_trusted_keys := [''ab'']\<rparr>
        in is_ok (validate True c) \<and> claims_enabled c)"

definition projecting_pallets_demands_a_key_or_an_explicit_opt_out :: bool where
  "projecting_pallets_demands_a_key_or_an_explicit_opt_out \<longleftrightarrow>
     is_err (validate True (default_config\<lparr>cfg_registry := Some ''http://r:5100''\<rparr>))
     \<and> is_ok (validate True (default_config\<lparr>cfg_registry := Some ''http://r:5100'', cfg_allow_unsigned := True\<rparr>))
     \<and> is_ok (validate True (default_config\<lparr>cfg_registry := Some ''http://r:5100'', cfg_trusted_keys := [''deadbeef'']\<rparr>))"

definition the_two_surfaces_may_not_share_a_socket :: bool where
  "the_two_surfaces_may_not_share_a_socket \<longleftrightarrow>
     is_err (validate True (default_config\<lparr>cfg_listen := ''0.0.0.0:8080'', cfg_mgmt_listen := ''0.0.0.0:8080''\<rparr>))"

definition boothosts_are_off_until_asked_for :: bool where
  "boothosts_are_off_until_asked_for \<longleftrightarrow> \<not> cfg_kube default_config \<and> \<not> writes_status default_config"

definition status_write_back_comes_with_the_watch_and_can_be_turned_off :: bool where
  "status_write_back_comes_with_the_watch_and_can_be_turned_off \<longleftrightarrow>
     writes_status (default_config\<lparr>cfg_kube := True\<rparr>)
     \<and> \<not> writes_status (default_config\<lparr>cfg_kube := True, cfg_kube_status := False\<rparr>)"

definition a_namespace_without_the_watch_is_a_mistake_worth_naming :: bool where
  "a_namespace_without_the_watch_is_a_mistake_worth_naming \<longleftrightarrow>
     is_err (validate True (default_config\<lparr>cfg_kube_namespace := Some ''storm-system''\<rparr>))
     \<and> is_ok (validate True (default_config\<lparr>cfg_kube := True, cfg_kube_namespace := Some ''storm-system''\<rparr>))"

lemmas config_eval = default_config_def validate_def projects_pallets_def claims_enabled_def writes_status_def Let_def

lemma config_tests:
  defaults_are_a_directory_server_with_no_claims claiming_requires_a_registry_and_a_golden
  projecting_pallets_demands_a_key_or_an_explicit_opt_out the_two_surfaces_may_not_share_a_socket
  boothosts_are_off_until_asked_for status_write_back_comes_with_the_watch_and_can_be_turned_off
  a_namespace_without_the_watch_is_a_mistake_worth_naming
  by (simp_all add: config_eval defaults_are_a_directory_server_with_no_claims_def
      claiming_requires_a_registry_and_a_golden_def projecting_pallets_demands_a_key_or_an_explicit_opt_out_def
      the_two_surfaces_may_not_share_a_socket_def boothosts_are_off_until_asked_for_def
      status_write_back_comes_with_the_watch_and_can_be_turned_off_def
      a_namespace_without_the_watch_is_a_mistake_worth_naming_def)

section \<open>Claims\<close>

text \<open>The answers of the registry as the JSON reader gives them.\<close>

definition bound_claim :: "attach option \<Rightarrow> claim_response" where
  "bound_claim a = \<lparr>cr_id = ''x'', cr_golden = '''', cr_template = '''', cr_state = ''bound'', cr_volume_name = ''v'', cr_attach = a\<rparr>"

definition nvme_attach :: "u16 \<Rightarrow> string \<Rightarrow> attach" where
  "nvme_attach port target = \<lparr>at_protocol = ''nvme-tcp'', at_address = ''10.0.0.1'', at_port = port, at_target = target,
     at_nsid = None, at_disk_add = None\<rparr>"

definition a_claim_without_an_export_is_not_attachable :: bool where
  "a_claim_without_an_export_is_not_attachable \<longleftrightarrow> \<not> is_attachable ((bound_claim None)\<lparr>cr_state := ''claimed''\<rparr>)"

definition an_empty_target_is_not_attachable :: bool where
  "an_empty_target_is_not_attachable \<longleftrightarrow> \<not> is_attachable (bound_claim (Some (nvme_attach 4431 '''')))"

definition a_zero_port_is_not_attachable :: bool where
  "a_zero_port_is_not_attachable \<longleftrightarrow> \<not> is_attachable (bound_claim (Some (nvme_attach 0 ''nqn.x'')))"

lemma claims_tests:
  a_claim_without_an_export_is_not_attachable an_empty_target_is_not_attachable a_zero_port_is_not_attachable
  by (simp_all add: is_attachable_def bound_claim_def nvme_attach_def a_claim_without_an_export_is_not_attachable_def
      an_empty_target_is_not_attachable_def a_zero_port_is_not_attachable_def)

section \<open>The pallet\<close>

definition test_layer :: "string \<Rightarrow> string option \<Rightarrow> descriptor" where
  "test_layer media role = \<lparr>ds_media_type = media, ds_digest = ''sha256:00'', ds_size = 0, ds_artifact_type = None,
     ds_annotations = (case role of Some r \<Rightarrow> [(ANNOTATION_ROLE, r)] | None \<Rightarrow> [])\<rparr>"

definition role_comes_from_the_annotation_first :: bool where
  "role_comes_from_the_annotation_first \<longleftrightarrow>
     member_role (test_layer ''application/vnd.stormblock.member.kernel'' (Some ''initramfs'')) = Some ''initramfs''"

definition role_falls_back_to_the_media_type_suffix :: bool where
  "role_falls_back_to_the_media_type_suffix \<longleftrightarrow>
     member_role (test_layer ''application/vnd.stormblock.member.kernel'' None) = Some ''kernel''"

definition unknown_media_types_have_no_role :: bool where
  "unknown_media_types_have_no_role \<longleftrightarrow> member_role (test_layer ''application/octet-stream'' None) = None"

definition only_boot_relevant_roles_map_to_filenames :: bool where
  "only_boot_relevant_roles_map_to_filenames \<longleftrightarrow>
     filename_for_role ''kernel'' = Some ''vmlinuz'' \<and> filename_for_role ''initramfs'' = Some ''initramfs.img''
     \<and> filename_for_role ''cmdline'' = Some ''cmdline'' \<and> filename_for_role ''rootfs'' = None"

definition default_status_is_not_ready :: bool where
  "default_status_is_not_ready \<longleftrightarrow>
     \<not> as_ready asset_status_default \<and> \<not> as_signature_verified asset_status_default \<and> as_digest asset_status_default = None"

lemma pallet_tests:
  role_comes_from_the_annotation_first role_falls_back_to_the_media_type_suffix unknown_media_types_have_no_role
  only_boot_relevant_roles_map_to_filenames default_status_is_not_ready
  by (simp_all add: test_layer_def member_role_def filename_for_role_def asset_status_default_def MEMBER_MEDIA_PREFIX_def
      ANNOTATION_ROLE_def strip_prefix_def starts_with_def
      role_comes_from_the_annotation_first_def role_falls_back_to_the_media_type_suffix_def
      unknown_media_types_have_no_role_def only_boot_relevant_roles_map_to_filenames_def default_status_is_not_ready_def)


section \<open>Boot scripts\<close>

definition portal_config :: config where
  "portal_config = default_config\<lparr>cfg_portal := Some ''10.0.0.5''\<rparr>"

definition worker_record :: "string \<Rightarrow> host_record" where
  "worker_record name = (plain_record (test_mac 255) name)\<lparr>hr_role := Some ''worker''\<rparr>"

definition renders_portal_when_configured :: bool where
  "renders_portal_when_configured \<longleftrightarrow>
     (let script = render portal_config (resolve portal_config (Some (test_mac 255)) None)
      in starts_with ''#!ipxe'' script
       \<and> contains ''rd.stormblock.portal=10.0.0.5'' script
       \<and> contains ''rd.stormblock.port=4420'' script
       \<and> contains ''root=/dev/ublkb0'' script
       \<and> contains ''no host record'' script
       \<and> \<not> contains ''WARNING'' script)"

definition warns_instead_of_guessing_without_a_portal :: bool where
  "warns_instead_of_guessing_without_a_portal \<longleftrightarrow>
     (let script = render default_config (resolve default_config None None)
      in contains ''WARNING'' script \<and> \<not> contains ''rd.stormblock.portal'' script)"

definition host_record_pins_identity_on_the_cmdline :: bool where
  "host_record_pins_identity_on_the_cmdline \<longleftrightarrow>
     (let script = render portal_config (resolve portal_config (Some (test_mac 255)) (Some (worker_record ''node7'')))
      in contains ''storm.hostname=node7'' script
       \<and> contains ''storm.role=worker'' script
       \<and> contains ''# aa:bb:cc:dd:ee:ff -> node7'' script)"

definition host_record_portal_overrides_the_server_default :: bool where
  "host_record_portal_overrides_the_server_default \<longleftrightarrow>
     (let script = render portal_config
            (resolve portal_config None (Some ((worker_record ''node7'')\<lparr>hr_portal := Some ''10.9.9.9''\<rparr>)))
      in contains ''rd.stormblock.portal=10.9.9.9'' script \<and> \<not> contains ''10.0.0.5'' script)"

definition claim_details_reach_the_cmdline :: bool where
  "claim_details_reach_the_cmdline \<longleftrightarrow>
     (let plan = (resolve portal_config None None)
            \<lparr>bp_nqn := Some ''nqn.2026-01.io.storm:vol-7'', bp_nsid := Some 1, bp_volume := Some ''clone-stormcos-18f3''\<rparr>;
          script = render portal_config plan
      in contains ''rd.stormblock.nqn=nqn.2026-01.io.storm:vol-7'' script
       \<and> contains ''rd.stormblock.nsid=1'' script
       \<and> contains ''stormblock.volume=clone-stormcos-18f3'' script
       \<and> \<not> contains ''rd.stormblock.volume='' script)"

definition flow_over_target_is_passed_through_when_configured :: bool where
  "flow_over_target_is_passed_through_when_configured \<longleftrightarrow>
     (let with_disk = portal_config\<lparr>cfg_local_disk := Some ''/dev/sda''\<rparr>
      in contains ''rd.stormblock.local-disk=/dev/sda'' (render with_disk (resolve with_disk None None))
       \<and> \<not> contains ''local-disk'' (render portal_config (resolve portal_config None None)))"

definition base_url_trailing_slash_does_not_double_up :: bool where
  "base_url_trailing_slash_does_not_double_up \<longleftrightarrow>
     (let cfg = default_config\<lparr>cfg_base_url := ''http://boot.lo:8080/''\<rparr>
      in contains (''set base http://boot.lo:8080'' @ [LF]) (render cfg (resolve cfg None None)))"

definition both_server_and_host_extra_cmdline_are_appended :: bool where
  "both_server_and_host_extra_cmdline_are_appended \<longleftrightarrow>
     (let cfg = portal_config\<lparr>cfg_extra_cmdline := ''console=ttyS0''\<rparr>;
          script = render cfg (resolve cfg None (Some ((worker_record ''node7'')\<lparr>hr_extra_cmdline := Some ''debug''\<rparr>)))
      in contains ''console=ttyS0'' script \<and> contains ''debug'' script)"

text \<open>The texts first, so that each is computed once.\<close>

lemmas script_eval = evaluation render_def greeting_def plan_cmdline_def cmdline_parts_def root_parts_def opt_part_def
  identity_parts_def resolve_def base_url_def portal_config_def default_config_def worker_record_def plain_record_def test_mac_def

lemma ipxe_tests:
  renders_portal_when_configured warns_instead_of_guessing_without_a_portal host_record_pins_identity_on_the_cmdline
  host_record_portal_overrides_the_server_default
  by (simp add: script_eval renders_portal_when_configured_def,
      simp add: script_eval warns_instead_of_guessing_without_a_portal_def,
      simp add: script_eval host_record_pins_identity_on_the_cmdline_def,
      simp add: script_eval host_record_portal_overrides_the_server_default_def)

lemma ipxe_option_tests:
  claim_details_reach_the_cmdline flow_over_target_is_passed_through_when_configured
  base_url_trailing_slash_does_not_double_up both_server_and_host_extra_cmdline_are_appended
  by (simp add: script_eval claim_details_reach_the_cmdline_def,
      simp add: script_eval flow_over_target_is_passed_through_when_configured_def,
      simp add: script_eval base_url_trailing_slash_does_not_double_up_def,
      simp add: script_eval both_server_and_host_extra_cmdline_are_appended_def)


section \<open>Metrics\<close>

definition metric_counts :: host_counts where
  "metric_counts = \<lparr>hc_file = 2, hc_kube = 5, hc_total = 6, hc_kube_synced = True\<rparr>"

definition no_phases_still_renders :: bool where
  "no_phases_still_renders \<longleftrightarrow>
     (let out = metrics_render ''0.1.0'' metrics_default [] metric_counts
      in contains ''stormnetboot_build_info'' out \<and> contains ''# TYPE stormnetboot_hosts gauge'' out)"

lemma metrics_tests: no_phases_still_renders
  by (simp add: evaluation metrics_render_def counters_def counter_text_def metric_counts_def metrics_default_def
      no_phases_still_renders_def)

end
