(* ===== verification/Cluster_Tests.thy ===== *)
theory Cluster_Tests
  imports Server_Tests
begin

text \<open>
  The unit tests of the signatures, the feed, the \<open>BootHost\<close> resources, the index of the watch and
  the phase names of a report (\<open>stormsig.rs\<close>, \<open>components.rs\<close>, \<open>boothost.rs\<close>, \<open>kube_store.rs\<close>,
  \<open>http.rs\<close> under \<open>crates/stormnetboot-server/src/\<close>). In the place of Ed25519 stands the
  stand-in of the theory \<open>Stormsig\<close>; what the schema generator and the JSON writer are tested
  for is not carried over.
\<close>

section \<open>Signatures\<close>

definition sign_subject :: "u8 \<Rightarrow> u8 \<Rightarrow> u8 \<Rightarrow> u64 \<Rightarrow> signature_doc" where
  "sign_subject seed raw kind signed_at = (demo_signed seed (replicate 32 raw))
     \<lparr>sd_signed_at := signed_at, sd_statement := concat (map hex2 (statement_bytes (replicate 32 raw) kind signed_at))\<rparr>"

definition subject_of :: "u8 \<Rightarrow> string" where
  "subject_of raw = concat (replicate 32 (hex2 raw))"

definition verifies_a_well_formed_signature :: bool where
  "verifies_a_well_formed_signature \<longleftrightarrow>
     (let doc = sign_subject 7 0xab 1 1756000000
      in verify demo_crypto doc (subject_of 0xab) [sd_public_key doc] =
           Inr \<lparr>sm_subject_hex = subject_of 0xab, sm_subject_kind = PalletKind, sm_signed_at = 1756000000\<rparr>)"

definition accepts_the_subject_with_or_without_the_sha256_prefix :: bool where
  "accepts_the_subject_with_or_without_the_sha256_prefix \<longleftrightarrow>
     (let doc = sign_subject 7 0xcd 1 1
      in is_ok (verify demo_crypto doc (subject_of 0xcd) [sd_public_key doc])
       \<and> is_ok (verify demo_crypto doc (''sha256:'' @ subject_of 0xcd) [sd_public_key doc]))"

definition trusts_by_key_id_as_well_as_full_key :: bool where
  "trusts_by_key_id_as_well_as_full_key \<longleftrightarrow>
     (let doc = sign_subject 9 0x11 1 1 in is_ok (verify demo_crypto doc (subject_of 0x11) [sd_key_id doc]))"

definition refuses_an_untrusted_key_before_anything_else :: bool where
  "refuses_an_untrusted_key_before_anything_else \<longleftrightarrow>
     (case verify demo_crypto (sign_subject 7 0xab 1 1) (subject_of 0xab) [''deadbeef''] of
        Inl (Untrusted _) \<Rightarrow> True | _ \<Rightarrow> False)"

definition refuses_a_valid_signature_for_a_different_pallet :: bool where
  "refuses_a_valid_signature_for_a_different_pallet \<longleftrightarrow>
     (let doc = sign_subject 7 0xab 1 1
      in case verify demo_crypto doc (subject_of 0x22) [sd_public_key doc] of
           Inl (SubjectMismatch _ _) \<Rightarrow> True | _ \<Rightarrow> False)"

definition refuses_a_tampered_signature :: bool where
  "refuses_a_tampered_signature \<longleftrightarrow>
     (let doc = (sign_subject 7 0xab 1 1)\<lparr>sd_signature := ''00'' @ drop 2 (sd_signature (sign_subject 7 0xab 1 1))\<rparr>
      in case verify demo_crypto doc (subject_of 0xab) [sd_public_key doc] of
           Inl Invalid \<Rightarrow> True | Inl BadSignature \<Rightarrow> True | _ \<Rightarrow> False)"

definition refuses_a_statement_signed_by_another_key :: bool where
  "refuses_a_statement_signed_by_another_key \<longleftrightarrow>
     (let mine = sign_subject 7 0xab 1 1; theirs = sign_subject 8 0xab 1 1
      in verify demo_crypto (mine\<lparr>sd_signature := sd_signature theirs\<rparr>) (subject_of 0xab) [sd_public_key mine] = Inl Invalid)"

definition refuses_unknown_statement_versions :: bool where
  "refuses_unknown_statement_versions \<longleftrightarrow>
     parse_statement demo_crypto (MAGIC @ [2] @ replicate 55 0) = Inl (UnsupportedVersion 2)"

definition refuses_bad_magic_and_bad_length :: bool where
  "refuses_bad_magic_and_bad_length \<longleftrightarrow>
     parse_statement demo_crypto (replicate 64 0) = Inl BadMagic
     \<and> parse_statement demo_crypto (replicate 32 0) = Inl (StatementLength 32)"

definition parses_the_documented_byte_layout :: bool where
  "parses_the_documented_byte_layout \<longleftrightarrow>
     (case cx_hex_decode demo_crypto (sd_statement (sign_subject 3 0xfe 2 0x0102030405060708)) of
        None \<Rightarrow> False
      | Some bytes \<Rightarrow>
          take 8 bytes = bytes_of ''STORMSIG'' \<and> bytes ! 8 = 1 \<and> bytes ! 9 = 2
          \<and> list_all (\<lambda>b. b = 0) (slice 10 16 bytes)
          \<and> slice 16 48 bytes = replicate 32 0xfe
          \<and> slice 48 56 bytes = to_le_bytes 8 0x0102030405060708
          \<and> list_all (\<lambda>b. b = 0) (slice 56 64 bytes)
          \<and> (case parse_statement demo_crypto bytes of
               Inr st \<Rightarrow> sm_subject_kind st = StackKind \<and> sm_signed_at st = 0x0102030405060708
             | Inl _ \<Rightarrow> False))"

text \<open>What the stand-in prints in hex it reads back, and no spelling of it is changed by the trimming and
  the lower case of the verifier.\<close>

lemma hex2_chars:
  assumes "c \<in> set (hex2 b)"
  shows "\<not> is_ws c" "lower c = c" "c \<noteq> CHR ''s''"
proof -
  have "unat b div 16 < 16" "unat b mod 16 < 16" using u8_bound [of b] by simp_all
  moreover have "c = hex_char (unat b div 16) \<or> c = hex_char (unat b mod 16)" using assms by (simp add: hex2_def)
  ultimately obtain n where n: "n < 16" "c = hex_char n" by blast
  then show "lower c = c" using hex_char_of_digit [OF to_digit16_hex_char [OF n(1)]] by (simp add: unat_small)
  have "to_digit16 c = Some (of_nat n)" using n to_digit16_hex_char by simp
  then show "\<not> is_ws c" "c \<noteq> CHR ''s''" by (auto simp: to_digit16_def is_ws_def is_digit_def split: if_splits)
qed

lemma hex_decoded: "hex_pairs (concat (map hex2 bs)) = Some bs"
proof (induction bs)
  case (Cons b bs)
  obtain x y where xy: "hex2 b = [x, y]" by (simp add: hex2_def)
  then have "to_digit16 x \<noteq> None" "to_digit16 y \<noteq> None" using hex2_all_hex [of x b] hex2_all_hex [of y b] by simp_all
  then have "to_digit16 x = Some (drop_bit 4 b)" "to_digit16 y = Some (take_bit 4 b)"
    using hex2_digits [of b] by (auto simp: xy)
  then show ?case using Cons by (simp add: xy octet_of_def nibbles_rejoin)
qed simp

lemma hex_kept:
  "trim (concat (map hex2 bs)) = concat (map hex2 bs)" "lowercase (concat (map hex2 bs)) = concat (map hex2 bs)"
  "trim_start_matches ''sha256:'' (concat (map hex2 bs)) = concat (map hex2 bs)"
proof -
  let ?s = "concat (map hex2 bs)"
  have chars: "\<not> is_ws c \<and> lower c = c \<and> c \<noteq> CHR ''s''" if "c \<in> set ?s" for c using that hex2_chars by fastforce
  show "trim ?s = ?s" by (rule trim_id) (use chars in \<open>metis hd_in_set last_in_set\<close>)
  show "lowercase ?s = ?s" unfolding lowercase_def using chars by (intro map_idI) blast
  have "\<not> starts_with ''sha256:'' ?s"
  proof
    assume "starts_with ''sha256:'' ?s"
    then have s: "take (length ''sha256:'') ?s = ''sha256:''" by (simp only: starts_with_def)
    have "CHR ''s'' \<in> set (take (length ''sha256:'') ?s)" unfolding s by simp
    then show False using chars by (blast dest: in_set_takeD)
  qed
  then show "trim_start_matches ''sha256:'' ?s = ?s" by (subst trim_start_matches.simps) simp
qed

text \<open>So what becomes of a document depends on the trust in its key, the subject asked about and whether
  the signature is the one its key makes.\<close>

lemma presented:
  assumes "length sg = 64"
  shows "verify demo_crypto ((sign_subject seed raw kind t)\<lparr>sd_signature := concat (map hex2 sg)\<rparr>) d keys =
     (if \<not> is_trusted (sign_subject seed raw kind t) keys then Inl (Untrusted (concat (replicate 8 (hex2 seed))))
      else if normalise_digest d \<noteq> subject_of raw then Inl (SubjectMismatch (subject_of raw) (normalise_digest d))
      else if sg \<noteq> replicate 64 seed then Inl Invalid
      else Inr \<lparr>sm_subject_hex = subject_of raw, sm_subject_kind = subject_kind_from_u8 kind, sm_signed_at = t\<rparr>)"
proof -
  have fold: "concat (replicate n (hex2 b)) = concat (map hex2 (replicate n b))" for n b by (simp add: map_replicate)
  have "replicate 32 seed @ replicate 32 seed = replicate 64 seed" using replicate_add [of 32 32 seed] by simp
  moreover have "is_trusted ((sign_subject seed raw kind t)\<lparr>sd_signature := s\<rparr>) keys = is_trusted (sign_subject seed raw kind t) keys" for s
    by (simp add: is_trusted_def)
  moreover have "sd_public_key (sign_subject seed raw kind t) = concat (map hex2 (replicate 32 seed))"
    "sd_key_id (sign_subject seed raw kind t) = concat (map hex2 (replicate 8 seed))"
    "sd_statement (sign_subject seed raw kind t) = concat (map hex2 (statement_bytes (replicate 32 raw) kind t))"
    by (simp_all add: sign_subject_def demo_signed_def map_replicate)
  moreover have "cx_hex_encode demo_crypto bs = concat (map hex2 bs)" "cx_hex_decode demo_crypto = hex_pairs"
    "cx_key_ok demo_crypto key" "cx_verify_strict demo_crypto key stmt s = (s = key @ key)" for bs key stmt s
    by (simp_all add: demo_crypto_def)
  ultimately show ?thesis
    using assms unfolding verify_def subject_of_def fold
    by (simp add: hex_kept hex_decoded statement_round_trip del: map_replicate)
qed

lemma signed_verifies:
  "verify demo_crypto (sign_subject seed raw kind t) d keys =
     (if \<not> is_trusted (sign_subject seed raw kind t) keys then Inl (Untrusted (concat (replicate 8 (hex2 seed))))
      else if normalise_digest d \<noteq> subject_of raw then Inl (SubjectMismatch (subject_of raw) (normalise_digest d))
      else Inr \<lparr>sm_subject_hex = subject_of raw, sm_subject_kind = subject_kind_from_u8 kind, sm_signed_at = t\<rparr>)"
proof -
  have "(sign_subject seed raw kind t)\<lparr>sd_signature := concat (map hex2 (replicate 64 seed))\<rparr> = sign_subject seed raw kind t"
    by (simp add: sign_subject_def demo_signed_def map_replicate)
  then show ?thesis using presented [of "replicate 64 seed" seed raw kind t d keys] by simp
qed

lemma trusted_keys:
  "is_trusted (sign_subject seed raw kind t) [sd_public_key (sign_subject seed raw kind t)]"
  "is_trusted (sign_subject seed raw kind t) [sd_key_id (sign_subject seed raw kind t)]"
proof -
  have fold: "concat (replicate n (hex2 b)) = concat (map hex2 (replicate n b))" for n b by (simp add: map_replicate)
  have "concat (map hex2 (replicate 32 b)) \<noteq> []" "concat (map hex2 (replicate 8 b)) \<noteq> []" for b
    by (simp_all add: hex2_def)
  then show "is_trusted (sign_subject seed raw kind t) [sd_public_key (sign_subject seed raw kind t)]"
    "is_trusted (sign_subject seed raw kind t) [sd_key_id (sign_subject seed raw kind t)]"
    unfolding is_trusted_iff sign_subject_def demo_signed_def fold by (simp_all add: hex_kept del: map_replicate)
qed

lemma subjects: "normalise_digest (subject_of raw) = subject_of raw" "normalise_digest (''sha256:'' @ subject_of raw) = subject_of raw"
proof -
  have s: "subject_of raw = concat (map hex2 (replicate 32 raw))" by (simp add: subject_of_def map_replicate)
  then show "normalise_digest (subject_of raw) = subject_of raw" unfolding normalise_digest_def by (simp only: hex_kept)
  have "concat (map hex2 (replicate 32 raw)) \<noteq> []" by (simp add: hex2_def)
  then have "last (concat (map hex2 (replicate 32 raw))) \<in> set (concat (map hex2 (replicate 32 raw)))" by (rule last_in_set)
  then have "\<not> is_ws (last (concat (map hex2 (replicate 32 raw))))" using hex2_chars(1) by fastforce
  then have "trim (''sha256:'' @ subject_of raw) = ''sha256:'' @ subject_of raw"
    unfolding s by (intro trim_id) (simp add: is_ws_def hex2_def)
  moreover have "trim_start_matches ''sha256:'' (''sha256:'' @ subject_of raw) = subject_of raw"
    unfolding s by (subst trim_start_matches.simps) (simp add: starts_with_def hex_kept del: map_replicate)
  ultimately show "normalise_digest (''sha256:'' @ subject_of raw) = subject_of raw"
    unfolding normalise_digest_def by (simp only: s hex_kept)
qed


lemmas signature_eval = signed_verifies presented trusted_keys subjects subjects(2) [simplified] Let_def

lemma stormsig_tests:
  verifies_a_well_formed_signature accepts_the_subject_with_or_without_the_sha256_prefix
  trusts_by_key_id_as_well_as_full_key
  by (simp_all add: signature_eval verifies_a_well_formed_signature_def subject_kind_from_u8_def
      accepts_the_subject_with_or_without_the_sha256_prefix_def trusts_by_key_id_as_well_as_full_key_def)

lemma stormsig_refusals: refuses_an_untrusted_key_before_anything_else refuses_a_valid_signature_for_a_different_pallet
proof -
  have "\<not> is_trusted (sign_subject 7 0xab 1 1) [''deadbeef'']" by code_simp
  then show refuses_an_untrusted_key_before_anything_else
    by (simp add: refuses_an_untrusted_key_before_anything_else_def signed_verifies)
  have "subject_of 0x22 \<noteq> subject_of 0xab" by code_simp
  then show refuses_a_valid_signature_for_a_different_pallet
    by (simp add: refuses_a_valid_signature_for_a_different_pallet_def signature_eval)
qed

lemma statement_tests: refuses_unknown_statement_versions refuses_bad_magic_and_bad_length
  unfolding refuses_unknown_statement_versions_def refuses_bad_magic_and_bad_length_def by code_simp+

lemma layout_test: parses_the_documented_byte_layout
proof -
  let ?raw = "replicate 32 0xfe :: u8 list" and ?ts = "to_le_bytes 8 (unat (0x0102030405060708 :: u64))"
  let ?b = "statement_bytes ?raw 2 0x0102030405060708"
  have b: "?b = MAGIC @ [STATEMENT_VERSION, 2] @ replicate 6 0 @ ?raw @ ?ts @ replicate 8 0"
    by (simp only: statement_bytes_def)
  note fields = slice_statement [where subject_raw = ?raw and r = "replicate 6 0" and ts = ?ts and r' = "replicate 8 0" and kind = 2, folded b]
  have "list_all (\<lambda>b. b = 0) (slice 10 16 ?b)" "list_all (\<lambda>b. b = 0) (slice 56 64 ?b)"
    by (simp_all add: b slice_def MAGIC_def bytes_of_def list_all_iff)
  moreover have "cx_hex_decode demo_crypto (sd_statement (sign_subject 3 0xfe 2 0x0102030405060708)) = Some ?b"
    by (simp add: sign_subject_def demo_crypto_def hex_decoded)
  ultimately show ?thesis
    using fields statement_round_trip [where subject_raw = ?raw and X = demo_crypto and kind = 2 and t = "0x0102030405060708"]
    by (simp add: parses_the_documented_byte_layout_def MAGIC_def STATEMENT_VERSION_def subject_kind_from_u8_def)
qed

lemma tampering_tests: refuses_a_tampered_signature refuses_a_statement_signed_by_another_key
proof -
  have "sd_signature (sign_subject k 0xab 1 1) = concat (map hex2 (replicate 64 k))" for k
    by (simp add: sign_subject_def demo_signed_def map_replicate)
  moreover have "concat (map hex2 (replicate 64 7)) = hex2 7 @ concat (map hex2 (replicate 63 7))"
    using replicate_Suc [of 63 "7::u8"] by (simp del: replicate_Suc)
  moreover have "hex2 7 = ''07''" "hex2 0 = ''00''" by code_simp+
  ultimately have sg: "''00'' @ drop 2 (sd_signature (sign_subject 7 0xab 1 1)) = concat (map hex2 (0 # replicate 63 7))"
    "sd_signature (sign_subject 8 0xab 1 1) = concat (map hex2 (replicate 64 8))" by simp_all
  have "replicate 64 (7::u8) = 7 # replicate 63 7" using replicate_Suc [of 63 "7::u8"] by simp
  then show refuses_a_tampered_signature
    unfolding refuses_a_tampered_signature_def Let_def sg by (simp add: signature_eval del: list.map concat.simps)
  show refuses_a_statement_signed_by_another_key
    unfolding refuses_a_statement_signed_by_another_key_def Let_def sg by (simp add: signature_eval del: map_replicate)
qed


section \<open>The feed\<close>

definition assets_ready :: asset_status where
  "assets_ready = \<lparr>as_ready = True, as_detail = ''stormcos boot 10.20'', as_version = Some ''10.20'',
     as_digest = Some ''sha256:abcdef0123456789'', as_signature_verified = True\<rparr>"

definition always_emits_a_system_component_first :: bool where
  "always_emits_a_system_component_first \<longleftrightarrow>
     (let feed = collect [] assets_ready in co_id (feed ! 0) = ''system'' \<and> co_health (feed ! 0) = HealthOk)"

definition unready_assets_make_the_service_unhealthy :: bool where
  "unready_assets_make_the_service_unhealthy \<longleftrightarrow>
     (let feed = collect [] \<lparr>as_ready = False, as_detail = ''no boot pallet'', as_version = None, as_digest = None,
                             as_signature_verified = False\<rparr>
      in co_health (feed ! 0) = HealthError \<and> contains ''not serving'' (co_detail (feed ! 0)))"

definition a_failed_host_warns_the_service_without_hiding_it :: bool where
  "a_failed_host_warns_the_service_without_hiding_it \<longleftrightarrow>
     (let state = observe 2 (test_mac 2) Failed (Some ''attach timed out'') (observe 1 (test_mac 1) Running None []);
          feed = collect state assets_ready
      in co_health (feed ! 0) = HealthWarn \<and> contains ''1 host(s) failed'' (co_detail (feed ! 0))
       \<and> (case find (\<lambda>c. co_id c = ''host:aa:bb:cc:dd:ee:02'') feed of
            Some failed \<Rightarrow> co_health failed = HealthError \<and> co_detail failed = ''attach timed out''
          | None \<Rightarrow> False))"

definition ids_follow_the_kind_colon_name_convention_and_relations_resolve :: bool where
  "ids_follow_the_kind_colon_name_convention_and_relations_resolve \<longleftrightarrow>
     (let feed = collect (observe 1 (test_mac 1) Running None []) assets_ready; ids = map co_id feed
      in ''phase:running'' \<in> set ids \<and> ''host:aa:bb:cc:dd:ee:01'' \<in> set ids
       \<and> list_all (\<lambda>c. list_all (\<lambda>r. list_all (\<lambda>target. target \<in> set ids) (rl_targets r)) (co_relations c)) feed)"

lemmas feed_eval = collect_def system_row_def assets_row_def phase_row_def host_row_def metric_new_def metric_tone_def
  belongs_to_def has_many_def phase_id_def host_id_def phase_health_def MAX_HOST_ROWS_def assets_ready_def
  tracker_eval

lemma components_tests:
  always_emits_a_system_component_first unready_assets_make_the_service_unhealthy
  a_failed_host_warns_the_service_without_hiding_it ids_follow_the_kind_colon_name_convention_and_relations_resolve
  by (simp_all add: evaluation feed_eval always_emits_a_system_component_first_def
      unready_assets_make_the_service_unhealthy_def a_failed_host_warns_the_service_without_hiding_it_def
      ids_follow_the_kind_colon_name_convention_and_relations_resolve_def)

section \<open>BootHost resources\<close>

definition boothost :: "string \<Rightarrow> boot_host" where
  "boothost address =
     \<lparr>bh_metadata = \<lparr>om_name = Some ''node7'', om_namespace = Some ''storm-system'', om_generation = Some 3\<rparr>,
      bh_spec = \<lparr>sp_boot_mac_address = address, sp_hostname = None, sp_role = Some ''worker'', sp_stack = None,
                 sp_portal = None, sp_extra_cmdline = None, sp_online = True\<rparr>,
      bh_status = None\<rparr>"

definition host_in :: "phase \<Rightarrow> string option \<Rightarrow> host_state" where
  "host_in ph detail = \<lparr>hs_mac = test_mac 255, hs_phase = ph, hs_detail = detail, hs_pallet_version = Some ''10.20'',
     hs_hardware = None, hs_first_seen_unix = 1, hs_updated_unix = 2\<rparr>"

definition condition_of :: "boot_host_status \<Rightarrow> string \<Rightarrow> condition" where
  "condition_of status t = the (find (\<lambda>c. cd_type c = t) (bs_conditions status))"

definition a_boothost_becomes_a_host_record_with_its_object_attached :: bool where
  "a_boothost_becomes_a_host_record_with_its_object_attached \<longleftrightarrow>
     (case to_record (boothost ''AA-BB-CC-DD-EE-FF'') of
        None \<Rightarrow> False
      | Some r \<Rightarrow> mac_display (hr_mac r) = ''aa:bb:cc:dd:ee:ff'' \<and> hr_name r = ''node7'' \<and> hr_role r = Some ''worker''
          \<and> hr_online r \<and> map_option object_ref_display (hr_object r) = Some ''storm-system/node7''
          \<and> map_option or_generation (hr_object r) = Some 3)"

definition an_unparseable_mac_is_dropped_rather_than_matched_loosely :: bool where
  "an_unparseable_mac_is_dropped_rather_than_matched_loosely \<longleftrightarrow> to_record (boothost ''not-a-mac'') = None"

definition an_explicit_hostname_wins_over_the_object_name :: bool where
  "an_explicit_hostname_wins_over_the_object_name \<longleftrightarrow>
     (let bh = boothost ''aa:bb:cc:dd:ee:ff''
      in map_option hr_name (to_record (bh\<lparr>bh_spec := (bh_spec bh)\<lparr>sp_hostname := Some ''db-3''\<rparr>\<rparr>)) = Some ''db-3'')"

definition an_unseen_host_reads_as_not_seen_not_as_broken :: bool where
  "an_unseen_host_reads_as_not_seen_not_as_broken \<longleftrightarrow>
     (let status = desired_status None True None 3 None ''T0''
      in bs_phase status = None \<and> cd_status (condition_of status ''Available'') = ''False''
       \<and> cd_reason (condition_of status ''Available'') = ''NotSeen''
       \<and> cd_status (condition_of status ''Degraded'') = ''False'')"

definition an_offline_host_says_why_it_will_not_boot :: bool where
  "an_offline_host_says_why_it_will_not_boot \<longleftrightarrow>
     (let status = desired_status None False None 3 None ''T0''
      in cd_reason (condition_of status ''Available'') = ''Offline''
       \<and> contains ''refuse'' (cd_message (condition_of status ''Available'')))"

definition a_booting_host_is_progressing_but_not_yet_available :: bool where
  "a_booting_host_is_progressing_but_not_yet_available \<longleftrightarrow>
     (let status = desired_status (Some (host_in RootAttached None)) True (Some ''claim-1'') 3 None ''T0''
      in bs_phase status = Some ''root-attached'' \<and> bs_pallet_version status = Some ''10.20''
       \<and> bs_claim_id status = Some ''claim-1''
       \<and> cd_status (condition_of status ''Progressing'') = ''True''
       \<and> cd_status (condition_of status ''Available'') = ''False'')"

definition a_running_host_is_available_while_it_is_still_assimilating :: bool where
  "a_running_host_is_available_while_it_is_still_assimilating \<longleftrightarrow>
     list_all (\<lambda>ph. let status = desired_status (Some (host_in ph None)) True None 3 None ''T0''
        in cd_status (condition_of status ''Available'') = ''True''
         \<and> cd_status (condition_of status ''Progressing'') = ''True'') [Running, Assimilating]"

definition a_local_host_is_available_and_finished :: bool where
  "a_local_host_is_available_and_finished \<longleftrightarrow>
     (let status = desired_status (Some (host_in Local None)) True None 3 None ''T0''
      in cd_status (condition_of status ''Available'') = ''True''
       \<and> cd_status (condition_of status ''Progressing'') = ''False''
       \<and> cd_status (condition_of status ''Degraded'') = ''False'')"

definition a_failure_degrades_and_carries_the_reason_the_node_gave :: bool where
  "a_failure_degrades_and_carries_the_reason_the_node_gave \<longleftrightarrow>
     (let status = desired_status (Some (host_in Failed (Some ''nvme attach timed out''))) True None 3 None ''T0''
      in cd_status (condition_of status ''Degraded'') = ''True''
       \<and> cd_message (condition_of status ''Degraded'') = ''nvme attach timed out''
       \<and> cd_status (condition_of status ''Available'') = ''False'')"

definition transition_times_move_only_when_the_status_does :: bool where
  "transition_times_move_only_when_the_status_does \<longleftrightarrow>
     (let booting = desired_status (Some (host_in RootAttached None)) True None 3 None ''T0'';
          still_booting = desired_status (Some (host_in Running None)) True None 3 (Some booting) ''T1''
      in cd_last_transition_time (condition_of still_booting ''Progressing'') = ''T0''
       \<and> cd_last_transition_time (condition_of still_booting ''Available'') = ''T1'')"

lemmas resource_eval = boothost_def host_in_def condition_of_def desired_status_def proposed_conditions_def propose_def
  resolve_condition_def to_record_def object_ref_of_def object_ref_display_def generation_of_def Let_def

lemma boothost_addresses:
  "mac_parse ''AA-BB-CC-DD-EE-FF'' = Inr (test_mac 255)" "\<exists>e. mac_parse ''not-a-mac'' = Inl e"
proof -
  show "mac_parse ''AA-BB-CC-DD-EE-FF'' = Inr (test_mac 255)" unfolding test_mac_def by code_simp
  have "is_err (mac_parse ''not-a-mac'')" by code_simp
  then show "\<exists>e. mac_parse ''not-a-mac'' = Inl e" by (cases "mac_parse ''not-a-mac''") simp_all
qed

lemma boothost_record_tests:
  a_boothost_becomes_a_host_record_with_its_object_attached an_unparseable_mac_is_dropped_rather_than_matched_loosely
  an_explicit_hostname_wins_over_the_object_name
proof -
  obtain e where e: "mac_parse ''not-a-mac'' = Inl e" using boothost_addresses(2) by blast
  show an_unparseable_mac_is_dropped_rather_than_matched_loosely
    by (simp add: an_unparseable_mac_is_dropped_rather_than_matched_loosely_def resource_eval e)
qed (simp_all add: a_boothost_becomes_a_host_record_with_its_object_attached_def resource_eval evaluation
    an_explicit_hostname_wins_over_the_object_name_def boothost_addresses(1) test_addresses test_mac_def)

lemma boothost_status_tests:
  an_unseen_host_reads_as_not_seen_not_as_broken an_offline_host_says_why_it_will_not_boot
  a_booting_host_is_progressing_but_not_yet_available a_running_host_is_available_while_it_is_still_assimilating
  a_local_host_is_available_and_finished a_failure_degrades_and_carries_the_reason_the_node_gave
  transition_times_move_only_when_the_status_does
  by (simp_all add: resource_eval an_unseen_host_reads_as_not_seen_not_as_broken_def
      an_offline_host_says_why_it_will_not_boot_def a_booting_host_is_progressing_but_not_yet_available_def
      a_running_host_is_available_while_it_is_still_assimilating_def a_local_host_is_available_and_finished_def
      a_failure_degrades_and_carries_the_reason_the_node_gave_def transition_times_move_only_when_the_status_does_def)

section \<open>The index of the watch\<close>

definition quiet_kube :: kube_state where
  "quiet_kube = \<lparr>ks_index = [], ks_app = app_new default_config empty_store None asset_status_default\<rparr>"

definition the_index_keys_on_the_normalised_mac_whatever_the_yaml_said :: bool where
  "the_index_keys_on_the_normalised_mac_whatever_the_yaml_said \<longleftrightarrow>
     (let ks = index_apply (boothost ''AA-BB-CC-DD-EE-01'') quiet_kube
      in map_of (ks_index ks) (projr (mac_parse ''aa:bb:cc:dd:ee:01'')) \<noteq> None \<and> index_len ks = 1)"

definition a_noted_status_is_what_the_next_pass_compares_against :: bool where
  "a_noted_status_is_what_the_next_pass_compares_against \<longleftrightarrow>
     (let status = \<lparr>bs_phase = Some ''running'', bs_pallet_version = None, bs_claim_id = None, bs_hardware = None,
                    bs_conditions = []\<rparr>;
          ks = note_status (test_mac 1) status (index_apply (boothost ''aa:bb:cc:dd:ee:01'') quiet_kube)
      in bh_status (snd (hd (ks_index ks))) = Some status)"

definition an_object_with_an_unusable_mac_never_enters_the_index :: bool where
  "an_object_with_an_unusable_mac_never_enters_the_index \<longleftrightarrow>
     to_record (boothost ''not-a-mac'') = None \<and> index_len (index_apply (boothost ''not-a-mac'') quiet_kube) = 0"

lemma kube_store_tests:
  the_index_keys_on_the_normalised_mac_whatever_the_yaml_said a_noted_status_is_what_the_next_pass_compares_against
  an_object_with_an_unusable_mac_never_enters_the_index
proof -
  obtain e where "mac_parse ''not-a-mac'' = Inl e" using boothost_addresses(2) by blast
  then show the_index_keys_on_the_normalised_mac_whatever_the_yaml_said a_noted_status_is_what_the_next_pass_compares_against
    an_object_with_an_unusable_mac_never_enters_the_index
    by (simp_all add: the_index_keys_on_the_normalised_mac_whatever_the_yaml_said_def
        a_noted_status_is_what_the_next_pass_compares_against_def
        an_object_with_an_unusable_mac_never_enters_the_index_def
        index_apply_def note_status_def index_len_def quiet_kube_def resource_eval test_addresses)
qed

section \<open>Phases of a report\<close>

definition phase_names_parse_in_the_spellings_a_client_might_send :: bool where
  "phase_names_parse_in_the_spellings_a_client_might_send \<longleftrightarrow>
     parse_phase ''root-attached'' = Some RootAttached \<and> parse_phase ''root_attached'' = Some RootAttached
     \<and> parse_phase ''  RUNNING '' = Some Running \<and> parse_phase ''assimilating'' = Some Assimilating
     \<and> parse_phase ''nonsense'' = None"

lemma http_tests: phase_names_parse_in_the_spellings_a_client_might_send
  unfolding phase_names_parse_in_the_spellings_a_client_might_send_def by code_simp

end
