(* ===== verification/Node_Tests.thy ===== *)
theory Node_Tests
  imports Conformance
begin

text \<open>
  The unit tests of the initramfs and of the node agent (\<open>cmdline.rs\<close>, \<open>media.rs\<close>, \<open>report.rs\<close>,
  \<open>steps.rs\<close> under \<open>crates/stormnetboot-init/src/\<close>, \<open>flowover.rs\<close>, \<open>inventory.rs\<close>, \<open>main.rs\<close>
  under \<open>crates/stormnetboot-agent/src/\<close>). Tests of the machine the tests run on are not carried
  over.
\<close>

section \<open>The command line\<close>

definition FULL :: string where
  "FULL =
     ''BOOT_IMAGE=/vmlinuz rd.stormblock.portal=192.168.8.20 ''
     @ ''rd.stormblock.port=4431 rd.stormblock.nqn=nqn.2026-08.lo.gt:img-abc-c1 ''
     @ ''rd.stormblock.nsid=1 stormblock.volume=clone-stormcos-18f3 ''
     @ ''rd.stormblock.local-disk=/dev/sda storm.hostname=node7 storm.role=worker ''
     @ ''storm.report=http://boot.storm.lo:8080 root=/dev/ublkb0 console=ttyS0''"

definition parses_a_full_netboot_cmdline :: bool where
  "parses_a_full_netboot_cmdline \<longleftrightarrow>
     (let p = boot_params_parse FULL
      in p_portal p = Some ''192.168.8.20'' \<and> p_port p = Some 4431 \<and> p_nqn p = Some ''nqn.2026-08.lo.gt:img-abc-c1''
       \<and> p_nsid p = Some 1 \<and> p_volume p = Some ''clone-stormcos-18f3'' \<and> p_local_disk p = Some ''/dev/sda''
       \<and> p_hostname p = Some ''node7'' \<and> p_role p = Some ''worker'' \<and> is_network_boot p)"

definition builds_the_uri_stormblock_accepts :: bool where
  "builds_the_uri_stormblock_accepts \<longleftrightarrow>
     nvme_uri (boot_params_parse FULL) = Some ''nvme-tcp://192.168.8.20:4431/nqn.2026-08.lo.gt:img-abc-c1?nsid=1''"

definition nsid_defaults_to_one_but_the_port_never_defaults :: bool where
  "nsid_defaults_to_one_but_the_port_never_defaults \<longleftrightarrow>
     nvme_uri (boot_params_parse ''rd.stormblock.portal=h rd.stormblock.port=4420 rd.stormblock.nqn=nqn.x'')
       = Some ''nvme-tcp://h:4420/nqn.x?nsid=1''
     \<and> (let p = boot_params_parse ''rd.stormblock.portal=h rd.stormblock.nqn=nqn.x''
        in nvme_uri p = None \<and> missing p = [''rd.stormblock.port''])"

definition volume_is_spelled_without_the_rd_prefix :: bool where
  "volume_is_spelled_without_the_rd_prefix \<longleftrightarrow>
     p_volume (boot_params_parse ''rd.stormblock.volume=wrong stormblock.volume=right'') = Some ''right''"

definition bootif_is_normalised_to_a_plain_mac :: bool where
  "bootif_is_normalised_to_a_plain_mac \<longleftrightarrow>
     p_mac (boot_params_parse ''BOOTIF=01-AA-BB-CC-DD-EE-FF'') = Some ''aa:bb:cc:dd:ee:ff''"

definition a_local_slab_boot_is_not_a_network_boot :: bool where
  "a_local_slab_boot_is_not_a_network_boot \<longleftrightarrow>
     (let p = boot_params_parse ''rd.stormblock.slab=/dev/sda4 stormblock.volume=stormpump''
      in \<not> is_network_boot p \<and> p_slabs p = [''/dev/sda4''])"

definition empty_values_and_bare_tokens_are_ignored :: bool where
  "empty_values_and_bare_tokens_are_ignored \<longleftrightarrow>
     (let p = boot_params_parse ''quiet rd.stormblock.portal= ro rd.stormblock.port=notanumber''
      in p_portal p = None \<and> p_port p = None \<and> length (missing p) = 3)"

definition slab_accepts_a_comma_separated_list :: bool where
  "slab_accepts_a_comma_separated_list \<longleftrightarrow>
     p_slabs (boot_params_parse ''rd.stormblock.slab=/dev/sda4,/dev/sda5'') = [''/dev/sda4'', ''/dev/sda5'']"

definition the_data_slab_is_attached_alongside_the_root_source :: bool where
  "the_data_slab_is_attached_alongside_the_root_source \<longleftrightarrow>
     (let slabs = all_slabs (boot_params_parse
            (''rd.stormblock.portal=h rd.stormblock.port=4431 rd.stormblock.nqn=nqn.x '' @ ''rd.stormblock.data-slab=/dev/sdb1''))
      in length slabs = 2 \<and> starts_with ''nvme-tcp://'' (slabs ! 0) \<and> slabs ! 1 = ''/dev/sdb1'')"

definition a_data_slab_already_named_as_a_slab_is_not_attached_twice :: bool where
  "a_data_slab_already_named_as_a_slab_is_not_attached_twice \<longleftrightarrow>
     all_slabs (boot_params_parse ''rd.stormblock.slab=/dev/sdb1 rd.stormblock.data-slab=/dev/sdb1'') = [''/dev/sdb1'']"

definition flow_over_onto_the_data_slab_is_refused :: bool where
  "flow_over_onto_the_data_slab_is_refused \<longleftrightarrow>
     (case check_local_disk (boot_params_parse ''rd.stormblock.data-slab=/dev/sda2 rd.stormblock.local-disk=/dev/sda'') of
        Inl err \<Rightarrow> contains ''refusing flow-over'' err \<and> contains ''identity'' err
      | Inr _ \<Rightarrow> False)"

definition flow_over_onto_a_different_disk_is_allowed :: bool where
  "flow_over_onto_a_different_disk_is_allowed \<longleftrightarrow>
     is_ok (check_local_disk (boot_params_parse ''rd.stormblock.data-slab=/dev/sdb1 rd.stormblock.local-disk=/dev/sda''))"

definition partition_suffixes_do_not_hide_the_same_device :: bool where
  "partition_suffixes_do_not_hide_the_same_device \<longleftrightarrow>
     device_base ''/dev/sda2'' = ''/dev/sda'' \<and> device_base ''/dev/sda'' = ''/dev/sda''
     \<and> device_base ''/dev/nvme0n1p2'' = ''/dev/nvme0n1'' \<and> device_base ''/dev/nvme0n1'' = ''/dev/nvme0n1''
     \<and> device_base ''/dev/mmcblk0p1'' = ''/dev/mmcblk0'' \<and> device_base ''/dev/mmcblk0'' = ''/dev/mmcblk0''
     \<and> device_base ''/dev/nvme0n1'' \<noteq> device_base ''/dev/nvme0n2''
     \<and> is_err (check_local_disk (boot_params_parse ''rd.stormblock.data-slab=/dev/nvme0n1p2 rd.stormblock.local-disk=/dev/nvme0n1''))"

definition boothost_claim_needs_both_host_and_tag :: bool where
  "boothost_claim_needs_both_host_and_tag \<longleftrightarrow>
     (let p = boot_params_parse ''rd.stormblock.boothost=http://a:9090 rd.stormblock.tag=C2NR0Q2''
      in boothost_claim p = Some (''http://a:9090'', ''C2NR0Q2'', ''boothost'') \<and> is_network_boot p)
     \<and> (let p = boot_params_parse ''rd.stormblock.boothost=http://a:9090''
        in boothost_claim p = None \<and> ''rd.stormblock.tag'' \<in> set (missing p))
     \<and> boothost_claim (boot_params_parse ''rd.stormblock.boothost=http://a:9090 rd.stormblock.tag=T rd.stormblock.namespace=lab'')
         = Some (''http://a:9090'', ''T'', ''lab'')"

definition export_plan_assigns_ublk_indices_in_order :: bool where
  "export_plan_assigns_ublk_indices_in_order \<longleftrightarrow>
     (let plan = make_export_plan (boot_params_parse
            (''rd.stormblock.image-store=is              rd.stormblock.writable=var:/var,containers:/var/lib/containers''
             @ ''              rd.stormblock.mount=fedora:/pallets/fedora,busybox:/pallets/busybox''))
      in xp_writable_args plan = [''var'', ''containers'', ''fedora'', ''busybox'']
       \<and> xp_image_store plan = Some (''/dev/ublkb1'', ''/var/lib/stormcos/image-store'')
       \<and> xp_fstab_writable plan = [(''/dev/ublkb2'', ''/var''), (''/dev/ublkb3'', ''/var/lib/containers'')]
       \<and> xp_mount_map plan = [(''/dev/ublkb4'', ''/pallets/fedora''), (''/dev/ublkb5'', ''/pallets/busybox'')])
     \<and> (let plan = make_export_plan (boot_params_parse ''rd.stormblock.mount=stormblock:/pallets/stormblock'')
        in xp_writable_args plan = [''stormblock''] \<and> xp_mount_map plan = [(''/dev/ublkb1'', ''/pallets/stormblock'')])
     \<and> (let plan = make_export_plan (boot_params_parse ''rd.stormblock.writable=scratch'')
        in xp_writable_args plan = [''scratch''] \<and> xp_fstab_writable plan = [])"


lemmas cmdline_eval = evaluation boot_params_parse_def apply_token_def set_param_def boot_params_default_def
  split_whitespace_def is_ws_def is_digit_def parse_word_def parse_uint_def parse_named_mounts_def parse_entry_def
  normalise_bootif_def lowercase_def lower_def replace_char_def map_filter_simps nvme_uri_def boothost_claim_def
  is_network_boot_def all_slabs_def missing_def check_local_disk_def device_base_def split_last_def make_export_plan_def
  ublk_def IMAGE_STORE_MOUNT_def FULL_def

lemma cmdline_root_tests:
  parses_a_full_netboot_cmdline builds_the_uri_stormblock_accepts nsid_defaults_to_one_but_the_port_never_defaults
  volume_is_spelled_without_the_rd_prefix bootif_is_normalised_to_a_plain_mac a_local_slab_boot_is_not_a_network_boot
  empty_values_and_bare_tokens_are_ignored boothost_claim_needs_both_host_and_tag
  by (simp_all add: cmdline_eval parses_a_full_netboot_cmdline_def builds_the_uri_stormblock_accepts_def
      nsid_defaults_to_one_but_the_port_never_defaults_def volume_is_spelled_without_the_rd_prefix_def
      bootif_is_normalised_to_a_plain_mac_def a_local_slab_boot_is_not_a_network_boot_def
      empty_values_and_bare_tokens_are_ignored_def boothost_claim_needs_both_host_and_tag_def)

lemma cmdline_slab_tests:
  slab_accepts_a_comma_separated_list the_data_slab_is_attached_alongside_the_root_source
  a_data_slab_already_named_as_a_slab_is_not_attached_twice flow_over_onto_the_data_slab_is_refused
  flow_over_onto_a_different_disk_is_allowed partition_suffixes_do_not_hide_the_same_device
  export_plan_assigns_ublk_indices_in_order
  by (simp_all add: cmdline_eval slab_accepts_a_comma_separated_list_def
      the_data_slab_is_attached_alongside_the_root_source_def
      a_data_slab_already_named_as_a_slab_is_not_attached_twice_def flow_over_onto_the_data_slab_is_refused_def
      flow_over_onto_a_different_disk_is_allowed_def partition_suffixes_do_not_hide_the_same_device_def
      export_plan_assigns_ublk_indices_in_order_def)

section \<open>Media\<close>

definition reads_pallet_ignoring_comments_and_blanks :: bool where
  "reads_pallet_ignoring_comments_and_blanks \<longleftrightarrow>
     file_pallet (TextFile (''# a comment'' @ [LF, LF] @ ''kver=6.17.1'' @ [LF] @ ''pallet=sha256:abc123'' @ [LF] @ ''built=now'' @ [LF]))
       = Some ''sha256:abc123''"

definition missing_or_empty_pallet_reads_as_none :: bool where
  "missing_or_empty_pallet_reads_as_none \<longleftrightarrow>
     file_pallet (TextFile (''kver=1'' @ [LF])) = None \<and> file_pallet (TextFile (''pallet='' @ [LF])) = None
     \<and> file_pallet Absent = None"

definition bare_root :: media_env where
  "bare_root = \<lparr>mv_uki = None, mv_conf = Absent, mv_mounts = False, mv_op = (\<lambda>_. Done)\<rparr>"

definition no_esp :: esp where
  "no_esp = \<lparr>esp_live = None, esp_staged = None, esp_conf = None\<rparr>"

definition no_media_device_disables_the_pass :: bool where
  "no_media_device_disables_the_pass \<longleftrightarrow>
     snd (media_run bare_root (boot_params_parse ''rd.stormblock.portal=h'') no_esp) = Disabled"

definition a_golden_without_a_payload_is_skipped_not_failed :: bool where
  "a_golden_without_a_payload_is_skipped_not_failed \<longleftrightarrow>
     (case snd (media_run bare_root (boot_params_parse ''rd.stormnetboot.media=/dev/sda1'') no_esp) of
        Skipped why \<Rightarrow> contains ''carries no'' why
      | _ \<Rightarrow> False)"

definition an_esp_without_our_stamp_is_refused :: bool where
  "an_esp_without_our_stamp_is_refused \<longleftrightarrow> esp_conf no_esp = None \<and> file_pallet Absent = None"

definition short_trims_the_prefix_and_the_tail :: bool where
  "short_trims_the_prefix_and_the_tail \<longleftrightarrow>
     short ''sha256:0123456789abcdef0123'' = Some ''0123456789ab...'' \<and> short ''short'' = Some ''short''"

lemma media_tests:
  reads_pallet_ignoring_comments_and_blanks missing_or_empty_pallet_reads_as_none no_media_device_disables_the_pass
  a_golden_without_a_payload_is_skipped_not_failed an_esp_without_our_stamp_is_refused short_trims_the_prefix_and_the_tail
  by (simp_all add: cmdline_eval file_pallet_def read_pallet_def pallet_of_line_def lines_def strip_cr_def media_run_def
      bare_root_def no_esp_def short_def char_boundary_def PAYLOAD_DIR_def reads_pallet_ignoring_comments_and_blanks_def
      missing_or_empty_pallet_reads_as_none_def no_media_device_disables_the_pass_def
      a_golden_without_a_payload_is_skipped_not_failed_def an_esp_without_our_stamp_is_refused_def
      short_trims_the_prefix_and_the_tail_def)

section \<open>Reports\<close>

text \<open>A quotation mark in a text.\<close>

abbreviation Q :: string where
  "Q \<equiv> [DQUOTE]"

definition builds_json_the_server_accepts :: bool where
  "builds_json_the_server_accepts \<longleftrightarrow>
     build_body ''aa:bb:cc:dd:ee:ff'' ''running'' None =
       ''{'' @ Q @ ''mac'' @ Q @ '':'' @ Q @ ''aa:bb:cc:dd:ee:ff'' @ Q @ '','' @ Q @ ''phase'' @ Q @ '':'' @ Q @ ''running'' @ Q @ ''}''
     \<and> build_body ''aa:bb:cc:dd:ee:ff'' ''failed'' (Some ''attach timed out'') =
       ''{'' @ Q @ ''mac'' @ Q @ '':'' @ Q @ ''aa:bb:cc:dd:ee:ff'' @ Q @ '','' @ Q @ ''phase'' @ Q @ '':'' @ Q @ ''failed'' @ Q @ '',''
       @ Q @ ''detail'' @ Q @ '':'' @ Q @ ''attach timed out'' @ Q @ ''}''"

definition escapes_detail_so_a_kernel_message_cannot_break_the_json :: bool where
  "escapes_detail_so_a_kernel_message_cannot_break_the_json \<longleftrightarrow>
     (let body = build_body ''m'' ''failed'' (Some (''said '' @ Q @ ''no'' @ Q @ [LF] @ ''and'' @ [CHR 0x5C] @ ''stopped''))
      in contains (''said '' @ [CHR 0x5C] @ Q @ ''no'' @ [CHR 0x5C] @ Q @ [CHR 0x5C] @ ''nand'' @ [CHR 0x5C, CHR 0x5C] @ ''stopped'') body
       \<and> LF \<notin> set (tl body))"

definition splits_urls_with_and_without_ports :: bool where
  "splits_urls_with_and_without_ports \<longleftrightarrow>
     split_url ''http://boot.storm.lo:8080'' = Inr (''boot.storm.lo:8080'', ''boot.storm.lo:8080'')
     \<and> split_url ''http://boot.storm.lo/x'' = Inr (''boot.storm.lo:80'', ''boot.storm.lo'')"

definition rejects_schemes_it_cannot_speak :: bool where
  "rejects_schemes_it_cannot_speak \<longleftrightarrow>
     is_err (split_url ''https://boot.storm.lo'') \<and> is_err (split_url ''boot.storm.lo:8080'')"

definition a_reporter_with_no_url_is_silently_inert :: bool where
  "a_reporter_with_no_url_is_silently_inert \<longleftrightarrow>
     is_ok (try_post \<lparr>nw_resolve = \<lambda>_. None, nw_send = \<lambda>_ _. False\<rparr>
       \<lparr>rp_url = None, rp_mac = Some ''aa:bb:cc:dd:ee:ff''\<rparr> ''running'' None)"

lemma report_tests:
  builds_json_the_server_accepts escapes_detail_so_a_kernel_message_cannot_break_the_json
  splits_urls_with_and_without_ports rejects_schemes_it_cannot_speak a_reporter_with_no_url_is_silently_inert
  by (simp_all add: evaluation build_body_def field_text_def quoted_def escape_def escape_char_def split_url_def try_post_def
      builds_json_the_server_accepts_def escapes_detail_so_a_kernel_message_cannot_break_the_json_def
      splits_urls_with_and_without_ports_def rejects_schemes_it_cannot_speak_def a_reporter_with_no_url_is_silently_inert_def)

section \<open>The steps of a boot\<close>

definition required_modules_include_the_ones_nothing_else_loads :: bool where
  "required_modules_include_the_ones_nothing_else_loads \<longleftrightarrow>
     ''nvme_tcp'' \<in> set REQUIRED_MODULES \<and> ''ublk_drv'' \<in> set REQUIRED_MODULES"

definition waiting_for_a_device_that_exists_returns_at_once :: bool where
  "waiting_for_a_device_that_exists_returns_at_once \<longleftrightarrow>
     wait_for_device ((demo_on open_net)\<lparr>wd_exists := (\<lambda>_ _. True), wd_lag := (\<lambda>_ _ _. 0)\<rparr>) ''/proc/self'' 1000 [] = ([], Inr ())"

definition is_a_slab_line_only_on_positive_evidence :: bool where
  "is_a_slab_line_only_on_positive_evidence \<longleftrightarrow>
     is_slab_line ''/dev/sdb: slab 7661cf8b-1a2b-4c3d-9e5f-0a1b2c3d4e5f (role=data, tier=hot)''
     \<and> \<not> is_slab_line ''/dev/sda: not a slab''
     \<and> \<not> is_slab_line ''/dev/sda: cannot open: No medium found''
     \<and> \<not> is_slab_line []
     \<and> \<not> is_slab_line ''/dev/sdb: slab 7661cf8b (role=data)''
     \<and> \<not> is_slab_line ''/dev/sdb: slab zzzzzzzz-1a2b-4c3d-9e5f-0a1b2c3d4e5f''"

lemma steps_tests:
  required_modules_include_the_ones_nothing_else_loads waiting_for_a_device_that_exists_returns_at_once
  is_a_slab_line_only_on_positive_evidence
  by (simp_all add: evaluation REQUIRED_MODULES_def wait_for_device_def wait_device_from.simps elapsed_def bind_io_def return_io_def
      is_slab_line_def is_hexdigit_def is_digit_def required_modules_include_the_ones_nothing_else_loads_def
      waiting_for_a_device_that_exists_returns_at_once_def is_a_slab_line_only_on_positive_evidence_def)

section \<open>The agent\<close>

definition recognises_the_start_line_and_names_the_disk :: bool where
  "recognises_the_start_line_and_names_the_disk \<longleftrightarrow>
     parse_line ''Flow-over: migrating to local slab 7 on /dev/sda in background'' = Some (Started ''/dev/sda'')"

definition recognises_both_completion_spellings :: bool where
  "recognises_both_completion_spellings \<longleftrightarrow>
     parse_line ''Flow-over complete: 1024 extent(s) now on local disk'' = Some (Complete 1024 0)
     \<and> parse_line ''flow-over complete: 1024 extent(s) migrated, 3 failed'' = Some (Complete 1024 3)"

definition recognises_the_abort_that_would_otherwise_look_like_success :: bool where
  "recognises_the_abort_that_would_otherwise_look_like_success \<longleftrightarrow>
     parse_line ''flow-over: aborting after repeated failures'' = Some Aborted"

definition extent_failures_are_events_but_not_terminal :: bool where
  "extent_failures_are_events_but_not_terminal \<longleftrightarrow>
     parse_line ''flow-over: extent Some(3)/12: device busy'' = Some (ExtentFailed ''Some(3)/12: device busy'')"

definition ordinary_engine_chatter_is_not_an_event :: bool where
  "ordinary_engine_chatter_is_not_an_event \<longleftrightarrow>
     list_all (\<lambda>line. parse_line line = None)
       [[], ''stormblock 12.4.0 starting'', ''ublk: exported /dev/ublkb0'', ''INFO serving volume stormpump'']"

definition leading_whitespace_and_timestamps_do_not_hide_a_completion :: bool where
  "leading_whitespace_and_timestamps_do_not_hide_a_completion \<longleftrightarrow>
     parse_line ''   Flow-over complete: 5 extent(s) now on local disk  '' = Some (Complete 5 0)"

definition summary_reads_as_a_sentence_not_a_dump :: bool where
  "summary_reads_as_a_sentence_not_a_dump \<longleftrightarrow>
     summary \<lparr>ni_cpus = 64, ni_memory_kb = 268435456, ni_product = Some ''PowerEdge R650'', ni_serial = Some ''ABC123'',
       ni_disks = [''nvme0n1'', ''sda'']\<rparr> = ''64 cpu, 256 GiB, 2 disk(s), PowerEdge R650''"

definition an_empty_inventory_says_so_rather_than_pretending :: bool where
  "an_empty_inventory_says_so_rather_than_pretending \<longleftrightarrow>
     summary \<lparr>ni_cpus = 0, ni_memory_kb = 0, ni_product = None, ni_serial = None, ni_disks = []\<rparr> = ''inventory unavailable''"

definition parses_a_status_line :: bool where
  "parses_a_status_line \<longleftrightarrow>
     parse_status (''HTTP/1.1 202 Accepted'' @ [CR, LF, CR, LF]) = Some 202
     \<and> parse_status ''HTTP/1.1 503 Service Unavailable'' = Some 503
     \<and> parse_status [] = None \<and> parse_status ''garbage'' = None"

lemma flowover_start_test: recognises_the_start_line_and_names_the_disk
  unfolding recognises_the_start_line_and_names_the_disk_def by code_simp

lemma flowover_tests:
  recognises_both_completion_spellings
  recognises_the_abort_that_would_otherwise_look_like_success extent_failures_are_events_but_not_terminal
  ordinary_engine_chatter_is_not_an_event leading_whitespace_and_timestamps_do_not_hide_a_completion
  by (simp_all add: cmdline_eval parse_line_def all_numbers_def first_number_def get_or_zero_def
      recognises_both_completion_spellings_def
      recognises_the_abort_that_would_otherwise_look_like_success_def extent_failures_are_events_but_not_terminal_def
      ordinary_engine_chatter_is_not_an_event_def leading_whitespace_and_timestamps_do_not_hide_a_completion_def)

lemma agent_tests:
  summary_reads_as_a_sentence_not_a_dump an_empty_inventory_says_so_rather_than_pretending parses_a_status_line
  by (simp_all add: cmdline_eval summary_def summary_parts_def parse_status_def lines_def strip_cr_def nth_opt_def
      summary_reads_as_a_sentence_not_a_dump_def an_empty_inventory_says_so_rather_than_pretending_def parses_a_status_line_def)

end
