(* ===== verification/Spec2Isabelle.thy ===== *)
theory Spec2Isabelle
  imports Assimilation Server_Main Concurrent_Boots Refresh_Moments Cluster_Tests Node_Tests
begin

text \<open>
  A verification development for stormnetboot, the network boot of a fleet: a server that decides
  what a machine boots and keeps track of it, an initramfs that attaches the machine's root and
  hands over to it, and an agent that reports on the booted node. The sources are the three
  crates under \<open>src/crates/\<close>; every theory names the file it models.

  \<^bold>\<open>The programs and how they meet.\<close> iPXE asks the server for a script (\<open>http.rs\<close>, \<open>ipxe.rs\<close>) for
  its address (\<open>mac.rs\<close>). The server looks the machine up (\<open>hosts.rs\<close>, fed by a file and by the
  cluster's BootHost resources through \<open>kube_store.rs\<close> and \<open>boothost.rs\<close>), may claim a root
  volume for it (\<open>claims.rs\<close>), and serves the kernel and the initramfs that it projected out of a
  signed pallet (\<open>pallet.rs\<close>, \<open>stormsig.rs\<close>). The command line of the script is parsed by the
  initramfs (\<open>cmdline.rs\<close>), which starts the storage engine on it, mounts the root, refreshes the
  boot media and switches over (\<open>steps.rs\<close>, \<open>media.rs\<close>), reporting its phases (\<open>report.rs\<close>). The
  agent then reports the node, its hardware and the progress of the flow-over read from the
  engine's log (\<open>flowover.rs\<close>, \<open>inventory.rs\<close>). The reports end in the server's tracker
  (\<open>state.rs\<close>), its metrics (\<open>metrics.rs\<close>), the status of the BootHost and the management feed
  (\<open>components.rs\<close>).

  \<^bold>\<open>Shared theories.\<close> \<open>Prelude\<close> has Rust's string, integer and searching functions with their
  lemmas. \<open>Interfaces\<close> has the locales: \<open>key_store\<close> (a hash map, interpreted on association
  lists), \<open>codec\<close> (a text form that reads back, interpreted on words and on addresses),
  \<open>invariant_system\<close>, \<open>guarded_system\<close> and \<open>forward_system\<close> (a step applied to a sequence of labels,
  interpreted on the tracker, the application state, the cluster watch and the whole server). \<open>Boot_Sequence\<close> has
  the locales of what a boot step may do, interpreted three times on the actions of \<open>Steps\<close>.

  \<^bold>\<open>The server.\<close>
  \<^item> \<open>Mac_Address\<close>: parser and printer of addresses; which spellings are accepted, the errors.
  \<^item> \<open>Boot_State\<close>: the tracker. Bounded, keys distinct, phases only move forward, who is evicted.
  \<^item> \<open>Hosts\<close>: the two layers of host records; the listing refines the lookup function.
  \<^item> \<open>Config\<close>, \<open>Claims\<close>, \<open>Ipxe\<close>: settings and their validation, volume claims, plan and script.
  \<^item> \<open>Stormsig\<close>, \<open>Pallet\<close>: signature documents and the projection of a pallet into the cache that is
    served; the cache is threaded through every write, so partial failures are visible.
  \<^item> \<open>Metrics\<close>, \<open>Http\<close>: counters and handlers over one application state; who is refused, that a
    refusal changes nothing but counters, that a claim is kept.
  \<^item> \<open>Boot_Host\<close>, \<open>Kube_Store\<close>: the status written to the cluster and when it is rewritten; the index
    of the watch and its agreement with the records; the bounded reconciliation pass.
  \<^item> \<open>Components\<close>: the management feed. \<open>Server\<close>: start-up and the refresh turn of \<open>main.rs\<close>.
  \<^item> \<open>Netboot_Server\<close>: the route tables of the two surfaces, the dispatch of a request, and the server as
    a whole: requests, watch events, status passes and refreshes interleaved. All invariants hold
    together after every interleaving, and each surface changes only its own part of the state.
  \<^item> \<open>Concurrent_Boots\<close>: boot requests in flight together, cut where the handler waits or lets go of a
    lock. Alone, a request is the handler of \<open>Http\<close>; together, they claim once per machine and
    never lock each other out; a client that goes away in the middle of its claim leaks a clone.
  \<^item> \<open>Refresh_Moments\<close>: every state of the cache directory while a refresh runs. What \<open>Pallet\<close>
    guarantees of the result holds at every moment; the files may be of two pallets in between.

  \<^item> \<open>Server_Main\<close>: the course of \<open>main.rs\<close> as the list of what it does and how it ends: the sockets are
    bound last, a failing surface is fatal, a cluster out of reach costs only the cluster.

  \<^bold>\<open>The initramfs.\<close>
  \<^item> \<open>Cmdline\<close>: boot parameters, export plan, and the guard that keeps a flow-over off the data slab.
  \<^item> \<open>Report\<close>: the hand-written JSON and HTTP of a report; the body reads back.
  \<^item> \<open>Media\<close>: the refresh of the EFI partition, with every way it can be interrupted.
  \<^item> \<open>Steps\<close>, \<open>Boot_Sequence\<close>: the sequence from the first mount to the handover and the console that
    holds a failed boot, as steps over the list of the actions done so far; \<open>main.rs\<close>.

  \<^bold>\<open>The agent.\<close>
  \<^item> \<open>Flowover\<close>, \<open>Node_Inventory\<close>, \<open>Agent\<close>: the engine's lines, the hardware readers, the reports and the
    following of the log.

  \<^bold>\<open>Together.\<close> \<open>Handshake\<close> gives what one program writes to the reader of the other: the plan to the
  parser of the command line and on to the engine, the phases and the address of a report. \<open>Journey\<close>
  follows one machine: the requests its reports are sent as, their arrival in any order and
  number, the tracker, and the pass that writes its object in the cluster. The server is never
  ahead of the machine, a boot that hands over ends available, one that fails ends degraded.
  \<open>Assimilation\<close> follows it on: the agent reads the engine's log and posts beside the initramfs; a
  node is shown local only on a line that says so, and the verdict of the log is what the cluster
  is told.

  \<^bold>\<open>The repository's tests.\<close> \<open>Conformance\<close>, \<open>Server_Tests\<close>, \<open>Cluster_Tests\<close> and \<open>Node_Tests\<close> carry over the
  unit tests of the source, each under its name, and prove them by evaluation: the definitions
  answer what the code is tested to answer. They are a check of the model and none of its
  properties rests on them.

  \<^bold>\<open>The outside world.\<close> What is not in the repository is an argument: the registry and its JSON, the
  hash and the signature scheme (\<open>Pallet\<close>, \<open>Stormsig\<close>), the cluster's answers (\<open>Kube_Store\<close>), the
  results of commands, files and devices (\<open>Steps\<close>, \<open>Node_Inventory\<close>), the network and the
  JSON writer (\<open>Report\<close>, \<open>Agent\<close>), the router and the extractors of the web framework
  (\<open>Netboot_Server\<close>), the sockets, signals and open connections (\<open>Server_Main\<close>), the clock
  (everywhere an explicit time). Integers keep their
  width where it matters; locks are modelled by each operation being one step, and so are a whole
  request, a refresh and a status pass where histories of the server are meant, except in
  \<open>Concurrent_Boots\<close> (a boot request is several steps) and \<open>Refresh_Moments\<close> (a refresh is).

  \<^bold>\<open>Loops and fuel.\<close> The waits of \<open>Steps\<close> are total functions: each look is followed by a sleep of 200
  ms and the time that has passed is at least what was slept, so the number of looks is bounded
  by the timeout. The shell and hold loops never end; \<open>hold\<close> and \<open>shell_loop\<close> give their first
  \<open>fuel\<close> rounds, and what is proved of them holds for every number of rounds. The follower of the
  engine's log is given the pieces that have arrived so far; one reconciliation pass of
  \<open>Kube_Store\<close> is the loop over the tracked hosts and needs no bound.

  \<^bold>\<open>Not modelled.\<close> The command-line and environment parsing of the three programs (the clap package),
  the construction of HTTP clients, log lines, the generated schema of the custom resource, shell
  scripts and unit files under \<open>deploy/\<close> and \<open>scripts/\<close>: they hold no logic of the programs' own, or
  none that is in Rust. Of the tests, those of the argument parser, of the JSON and schema
  generators and of the machine they run on.
\<close>

end
